theory Spec2Isabelle
  imports Complex_Main
begin

section \<open>Sparkler particle engine and emitter state machine\<close>

text \<open>
  A shallow embedding of \<^verbatim>\<open>constants.ts\<close>, \<^verbatim>\<open>types.ts\<close>,
  \<^verbatim>\<open>utils/particleEngine.ts\<close> and of the frame loop of
  \<^verbatim>\<open>components/SparklerRecorder.tsx\<close> (\<^verbatim>\<open>animate\<close>, \<^verbatim>\<open>updateEmitter\<close>).

  Numbers of the source are JavaScript numbers; they are embedded as \<^typ>\<open>real\<close>. The
  frame loop is modelled with exact arithmetic. The simulation step is given twice, with
  exact arithmetic and with the result of every operation rounded to binary64, and the
  properties of the step that depend on the rounding (the floor bounce, the expiry) are
  stated for the rounded one.
  \<^verbatim>\<open>Math.random()\<close> is an injected source \<open>g :: nat \<Rightarrow> real\<close> read at a
  counter that every call advances by one; the properties that depend on the range of
  \<^verbatim>\<open>Math.random()\<close> assume \<open>0 \<le> g n < 1\<close>.
\<close>

subsection \<open>constants.ts\<close>

definition INERTIA_FACTOR :: real where
  "INERTIA_FACTOR = 0.25"

definition DRAW_SPEED_THRESHOLD :: real where
  "DRAW_SPEED_THRESHOLD = 3.0"

definition BURST_ARM_SPEED :: real where
  "BURST_ARM_SPEED = 15.0"

definition BURST_TRIGGER_SPEED :: real where
  "BURST_TRIGGER_SPEED = 5.0"

definition TRAIL_COLOR :: string where
  "TRAIL_COLOR = ''255, 215, 0''"

definition BURST_PARTICLE_COUNT :: nat where
  "BURST_PARTICLE_COUNT = 60"

definition BURST_COLORS :: "string list" where
  "BURST_COLORS = [''255, 100, 50'', ''255, 215, 0'', ''255, 255, 255'', ''100, 200, 255'']"

subsection \<open>types.ts\<close>

record Point =
  pt_x :: real
  pt_y :: real

datatype ParticleType = Trail | Burst

text \<open>
  The fields \<^verbatim>\<open>x, y, vx, vy, life, decay, color, size, type, gravity\<close> of
  \<^verbatim>\<open>Particle\<close>, prefixed with \<open>p_\<close> (the emitter record has fields of the same names).
\<close>

record Particle =
  p_x :: real
  p_y :: real
  p_vx :: real
  p_vy :: real
  p_life :: real
  p_decay :: real
  p_color :: string
  p_size :: real
  p_type :: ParticleType
  p_gravity :: real

subsection \<open>The random source\<close>

type_synonym rng = "nat \<Rightarrow> real"

text \<open>The contract of \<^verbatim>\<open>Math.random()\<close>: a value in \<open>[0, 1)\<close>.\<close>

definition rngOk :: "rng \<Rightarrow> bool" where
  "rngOk g = (\<forall>n. 0 \<le> g n \<and> g n < 1)"

subsection \<open>utils/particleEngine.ts: the particle factory\<close>

text \<open>
  \<^verbatim>\<open>createTrailParticle(x, y, velocity, color)\<close> calls \<^verbatim>\<open>Math.random()\<close> four
  times, in this order: angle, speed, decay, size. The model reads them at
  \<open>s, s+1, s+2, s+3\<close>; the caller advances the counter by 4.
\<close>

definition createTrailParticle :: "rng \<Rightarrow> nat \<Rightarrow> real \<Rightarrow> real \<Rightarrow> Point \<Rightarrow> string \<Rightarrow> Particle" where
  "createTrailParticle g s x y velocity color =
     (let angle = g s * pi * 2;
          speed = g (s + 1) * 2;
          vx = (cos angle * speed) + (pt_x velocity * 0.1);
          vy = (sin angle * speed) + (pt_y velocity * 0.1)
      in \<lparr> p_x = x, p_y = y, p_vx = vx, p_vy = vy,
           p_life = 1.0,
           p_decay = 0.02 + g (s + 2) * 0.03,
           p_color = ''rgba('' @ color @ '','',
           p_size = 2 + g (s + 3) * 3,
           p_type = Trail,
           p_gravity = 0.1 \<rparr>)"

text \<open>
  \<^verbatim>\<open>BURST_COLORS[Math.floor(Math.random() * BURST_COLORS.length)]\<close>: an index outside
  the array reads \<^verbatim>\<open>undefined\<close>, which the template literal prints as such.
\<close>

definition burstColorBase :: "real \<Rightarrow> string" where
  "burstColorBase r =
     (let i = \<lfloor>r * real (length BURST_COLORS)\<rfloor>
      in if 0 \<le> i \<and> i < int (length BURST_COLORS) then BURST_COLORS ! nat i
         else ''undefined'')"

text \<open>
  One iteration of the loop of \<^verbatim>\<open>createBurstParticles\<close>: five calls of
  \<^verbatim>\<open>Math.random()\<close>, in this order: angle, speed, colour, decay, size.
\<close>

definition burstParticle :: "rng \<Rightarrow> nat \<Rightarrow> real \<Rightarrow> real \<Rightarrow> Particle" where
  "burstParticle g s x y =
     (let angle = g s * pi * 2;
          speed = 2 + g (s + 1) * 10;
          vx = cos angle * speed;
          vy = sin angle * speed;
          colorBase = burstColorBase (g (s + 2))
      in \<lparr> p_x = x, p_y = y, p_vx = vx, p_vy = vy,
           p_life = 1.0,
           p_decay = 0.01 + g (s + 3) * 0.02,
           p_color = ''rgba('' @ colorBase @ '','',
           p_size = 3 + g (s + 4) * 4,
           p_type = Burst,
           p_gravity = 0.3 \<rparr>)"

text \<open>The loop \<^verbatim>\<open>for (let i = 0; i < BURST_PARTICLE_COUNT; i++)\<close>, \<open>n\<close> iterations left.\<close>

fun burstLoop :: "rng \<Rightarrow> nat \<Rightarrow> real \<Rightarrow> real \<Rightarrow> nat \<Rightarrow> Particle list" where
  "burstLoop g s x y 0 = []"
| "burstLoop g s x y (Suc n) = burstParticle g s x y # burstLoop g (s + 5) x y n"

definition createBurstParticles :: "rng \<Rightarrow> nat \<Rightarrow> real \<Rightarrow> real \<Rightarrow> Particle list" where
  "createBurstParticles g s x y = burstLoop g s x y BURST_PARTICLE_COUNT"

subsection \<open>utils/particleEngine.ts: the simulation step\<close>

text \<open>
  The body of the loop of \<^verbatim>\<open>updateParticles\<close> for one particle object: the object
  as the loop leaves it, and whether it was pushed to \<^verbatim>\<open>aliveParticles\<close>.
\<close>

definition tickParticle :: "real \<Rightarrow> Particle \<Rightarrow> Particle \<times> bool" where
  "tickParticle height p =
     (let p1 = p\<lparr> p_life := p_life p - p_decay p \<rparr>
      in if p_life p1 > 0 then
           let p2 = p1\<lparr> p_x := p_x p1 + p_vx p1 \<rparr>;
               p3 = p2\<lparr> p_y := p_y p2 + p_vy p2 \<rparr>;
               p4 = p3\<lparr> p_vy := p_vy p3 + p_gravity p3 \<rparr>;
               p5 = (if p_y p4 > height \<and> p_vy p4 > 0
                     then p4\<lparr> p_vy := p_vy p4 * (- 0.6), p_y := height \<rparr>
                     else p4)
           in (p5, True)
         else (p1, False))"

definition updateParticles :: "Particle list \<Rightarrow> real \<Rightarrow> real \<Rightarrow> Particle list" where
  "updateParticles particles width height =
     map fst (filter snd (map (tickParticle height) particles))"

subsection \<open>The simulation step in binary64 arithmetic\<close>

text \<open>
  The numbers of the program are IEEE 754 binary64 values, and the result of every
  arithmetic operation is rounded to the nearest one, ties to the even significand.
  \<open>roundEven\<close> rounds a real to the nearest integer, ties to even; \<open>rd64\<close> rounds a
  real to the nearest binary64 value, a multiple of \<open>2 ^ (e - 52)\<close> where \<open>e\<close> is the
  binary exponent of the argument, or \<open>-1022\<close> in the subnormal range. Overflow to
  \<^verbatim>\<open>Infinity\<close> is left out: the values below stay far from that range.
\<close>

definition roundEven :: "real \<Rightarrow> int" where
  "roundEven y =
     (let f = \<lfloor>y\<rfloor>; r = y - of_int f
      in if r < 1/2 then f else if 1/2 < r then f + 1 else if even f then f else f + 1)"

definition rd64 :: "real \<Rightarrow> real" where
  "rd64 x =
     (if x = 0 then 0
      else let e = max \<lfloor>log 2 \<bar>x\<bar>\<rfloor> (- 1022);
               u = 2 powr (of_int e - 52)
           in of_int (roundEven (x / u)) * u)"

text \<open>
  The loop body of \<^verbatim>\<open>updateParticles\<close> with the result of each operation passed
  through \<open>rd\<close>: with the identity it is \<open>tickParticle\<close>, with \<open>rd64\<close> it is the
  arithmetic of the program. The literal \<^verbatim>\<open>-0.6\<close> is a rounded value as well.
\<close>

definition tickParticleR :: "(real \<Rightarrow> real) \<Rightarrow> real \<Rightarrow> Particle \<Rightarrow> Particle \<times> bool" where
  "tickParticleR rd height p =
     (let p1 = p\<lparr> p_life := rd (p_life p - p_decay p) \<rparr>
      in if p_life p1 > 0 then
           let p2 = p1\<lparr> p_x := rd (p_x p1 + p_vx p1) \<rparr>;
               p3 = p2\<lparr> p_y := rd (p_y p2 + p_vy p2) \<rparr>;
               p4 = p3\<lparr> p_vy := rd (p_vy p3 + p_gravity p3) \<rparr>;
               p5 = (if p_y p4 > height \<and> p_vy p4 > 0
                     then p4\<lparr> p_vy := rd (p_vy p4 * (- rd 0.6)), p_y := height \<rparr>
                     else p4)
           in (p5, True)
         else (p1, False))"

definition updateParticlesR ::
    "(real \<Rightarrow> real) \<Rightarrow> Particle list \<Rightarrow> real \<Rightarrow> real \<Rightarrow> Particle list" where
  "updateParticlesR rd particles width height =
     map fst (filter snd (map (tickParticleR rd height) particles))"

subsection \<open>utils/particleEngine.ts: drawing\<close>

text \<open>
  \<^verbatim>\<open>drawParticles\<close>: one filled arc per particle, in the order of the array. The
  fill style is the particle's colour prefix closed with its life as alpha.
\<close>

record Arc =
  arc_color :: string
  arc_alpha :: real
  arc_x :: real
  arc_y :: real
  arc_radius :: real

definition drawParticles :: "Particle list \<Rightarrow> Arc list" where
  "drawParticles particles =
     map (\<lambda>p. \<lparr> arc_color = p_color p, arc_alpha = p_life p,
                arc_x = p_x p, arc_y = p_y p, arc_radius = p_size p * p_life p \<rparr>) particles"

subsection \<open>components/SparklerRecorder.tsx: data\<close>

definition FINGER_INDICES :: "nat list" where
  "FINGER_INDICES = [4, 8, 12, 16, 20]"

definition FINGER_COLORS :: "string list" where
  "FINGER_COLORS = [''255, 120, 80'', ''255, 215, 0'', ''255, 240, 150'', ''255, 200, 50'',
     ''255, 160, 100'']"

text \<open>The interface \<^verbatim>\<open>EmitterState\<close>; its fields \<^verbatim>\<open>x, y, vx, vy\<close> are prefixed with \<open>e_\<close>.\<close>

record EmitterState =
  e_x :: real
  e_y :: real
  e_vx :: real
  e_vy :: real
  isBurstArmed :: bool

text \<open>
  The mutable references of the component: \<^verbatim>\<open>emittersRef\<close> (a \<^verbatim>\<open>Map\<close> from key to
  emitter), \<^verbatim>\<open>particlesRef\<close>, \<^verbatim>\<open>lightingIntensityRef\<close>, and the counter of the
  random source.
\<close>

record State =
  emitters :: "string \<rightharpoonup> EmitterState"
  particles :: "Particle list"
  lightingIntensity :: real
  seed :: nat

definition initialState :: State where
  "initialState = \<lparr> emitters = Map.empty, particles = [], lightingIntensity = 0, seed = 0 \<rparr>"

subsection \<open>updateEmitter\<close>

text \<open>
  The speed that \<^verbatim>\<open>updateEmitter\<close> computes for an existing emitter and a target
  (the locals \<^verbatim>\<open>dx, dy, vx, vy, speed\<close>).
\<close>

definition smoothedSpeed :: "EmitterState \<Rightarrow> real \<Rightarrow> real \<Rightarrow> real" where
  "smoothedSpeed emitter targetX targetY =
     (let dx = targetX - e_x emitter;
          dy = targetY - e_y emitter;
          vx = dx * INERTIA_FACTOR;
          vy = dy * INERTIA_FACTOR
      in sqrt (vx * vx + vy * vy))"

text \<open>
  Step 2 of the state machine, \<^verbatim>\<open>if (emitter.isBurstArmed && speed < BURST_TRIGGER_SPEED)\<close>:
  the burst batch is pushed to the population, the flash is raised and clamped, the flag
  is reset. \<open>em\<close> is the emitter object stored under \<open>key\<close>.
\<close>

definition triggerBurst :: "rng \<Rightarrow> string \<Rightarrow> real \<Rightarrow> EmitterState \<Rightarrow> State \<Rightarrow> State" where
  "triggerBurst g key speed em st =
     (if isBurstArmed em \<and> speed < BURST_TRIGGER_SPEED then
        st\<lparr> particles := particles st @ createBurstParticles g (seed st) (e_x em) (e_y em),
            seed := seed st + 5 * BURST_PARTICLE_COUNT,
            lightingIntensity := min (lightingIntensity st + 0.5) 1.0,
            emitters := (emitters st)(key \<mapsto> em\<lparr> isBurstArmed := False \<rparr>) \<rparr>
      else st)"

text \<open>
  One \<^verbatim>\<open>if (Math.random() < particleChance) particlesRef.current.push(createTrailParticle(...))\<close>:
  one call of \<^verbatim>\<open>Math.random()\<close> for the test and, when it passes, four more inside
  the factory.
\<close>

definition maybeTrail :: "rng \<Rightarrow> real \<Rightarrow> real \<Rightarrow> Point \<Rightarrow> real \<Rightarrow> string \<Rightarrow> State \<Rightarrow> State" where
  "maybeTrail g x y velocity particleChance color st =
     (if g (seed st) < particleChance then
        st\<lparr> particles := particles st @ [createTrailParticle g (seed st + 1) x y velocity color],
            seed := seed st + 5 \<rparr>
      else st\<lparr> seed := seed st + 1 \<rparr>)"

text \<open>
  Step 3, \<^verbatim>\<open>if (speed > DRAW_SPEED_THRESHOLD)\<close>. The second test is
  \<^verbatim>\<open>speed > DRAW_SPEED_THRESHOLD * 2 && Math.random() < particleChance\<close>: \<^verbatim>\<open>&&\<close>
  draws the random number only when the speed test passes.
\<close>

definition emitTrails :: "rng \<Rightarrow> real \<Rightarrow> real \<Rightarrow> real \<Rightarrow> Point \<Rightarrow> real \<Rightarrow> string \<Rightarrow> State \<Rightarrow> State" where
  "emitTrails g speed x y velocity particleChance color st =
     (if speed > DRAW_SPEED_THRESHOLD then
        let st1 = maybeTrail g x y velocity particleChance color st
        in if speed > DRAW_SPEED_THRESHOLD * 2
           then maybeTrail g x y velocity particleChance color st1
           else st1
      else st)"

definition updateEmitter :: "rng \<Rightarrow> string \<Rightarrow> real \<Rightarrow> real \<Rightarrow> real \<Rightarrow> string \<Rightarrow> State \<Rightarrow> State" where
  "updateEmitter g key targetX targetY particleChance color st =
     (case emitters st key of
        None \<Rightarrow>
          st\<lparr> emitters := (emitters st)(key \<mapsto>
                \<lparr> e_x = targetX, e_y = targetY, e_vx = 0, e_vy = 0, isBurstArmed = False \<rparr>) \<rparr>
      | Some emitter \<Rightarrow>
          let dx = targetX - e_x emitter;
              dy = targetY - e_y emitter;
              em1 = emitter\<lparr> e_x := e_x emitter + dx * INERTIA_FACTOR,
                             e_y := e_y emitter + dy * INERTIA_FACTOR \<rparr>;
              vx = dx * INERTIA_FACTOR;
              vy = dy * INERTIA_FACTOR;
              speed = sqrt (vx * vx + vy * vy);
              em2 = em1\<lparr> e_vx := vx, e_vy := vy \<rparr>;
              em3 = (if speed > BURST_ARM_SPEED then em2\<lparr> isBurstArmed := True \<rparr> else em2);
              st1 = st\<lparr> emitters := (emitters st)(key \<mapsto> em3) \<rparr>;
              st2 = triggerBurst g key speed em3 st1
          in emitTrails g speed (e_x em3) (e_y em3) \<lparr> pt_x = vx, pt_y = vy \<rparr>
               particleChance color st2)"

subsection \<open>animate: one frame\<close>

text \<open>
  What one call of \<^verbatim>\<open>animate\<close> reads from its environment: whether the video, canvas
  and landmarker references are set, whether the canvas gives a 2d context, the video's
  dimensions (the canvas takes them in step 1), whether the video is playing
  (\<^verbatim>\<open>currentTime > 0 && !paused && !ended\<close>), and the landmarks the detector returns
  (one list of points per hand; an absent \<^verbatim>\<open>results.landmarks\<close> is the empty list).
\<close>

record Frame =
  refsReady :: bool
  ctxOk :: bool
  videoWidth :: real
  videoHeight :: real
  videoPlaying :: bool
  landmarks :: "Point list list"

text \<open>\<^verbatim>\<open>hand[tipIdx].x\<close> on a hand with no such landmark throws.\<close>

datatype error = TypeError

text \<open>The decimal digits of a number, as the template literal prints an index.\<close>

fun natToString :: "nat \<Rightarrow> string" where
  "natToString n =
     (if n < 10 then [''0123456789'' ! n]
      else natToString (n div 10) @ [''0123456789'' ! (n mod 10)])"

declare natToString.simps [simp del]

definition emitterKey :: "nat \<Rightarrow> nat \<Rightarrow> string" where
  "emitterKey handIndex fingerIndex = natToString handIndex @ ''-'' @ natToString fingerIndex"

text \<open>\<^verbatim>\<open>FINGER_COLORS[fingerIndex] || TRAIL_COLOR\<close>\<close>

definition fingerColor :: "nat \<Rightarrow> string" where
  "fingerColor fingerIndex =
     (if fingerIndex < length FINGER_COLORS then FINGER_COLORS ! fingerIndex else TRAIL_COLOR)"

text \<open>The multiplier computed from \<^verbatim>\<open>totalActiveEmitters\<close>.\<close>

definition particleMultiplier :: "real \<Rightarrow> real" where
  "particleMultiplier totalActiveEmitters = 1 / max 1 (totalActiveEmitters * 0.5)"

text \<open>
  \<^verbatim>\<open>FINGER_INDICES.forEach((tipIdx, fingerIndex) => ...)\<close> for one hand, from
  \<open>fingerIndex\<close> on; the accumulator is \<^verbatim>\<open>activeKeys\<close> and the state.
\<close>

fun fingerLoop :: "rng \<Rightarrow> Point list \<Rightarrow> nat \<Rightarrow> real \<Rightarrow> real \<Rightarrow> real \<Rightarrow> nat list \<Rightarrow> nat
    \<Rightarrow> string set \<times> State \<Rightarrow> error + string set \<times> State" where
  "fingerLoop g hand handIndex width height mult [] fingerIndex acc = Inr acc"
| "fingerLoop g hand handIndex width height mult (tipIdx # rest) fingerIndex (activeKeys, st) =
     (if tipIdx < length hand then
        let tip = hand ! tipIdx;
            targetX = (1 - pt_x tip) * width;
            targetY = pt_y tip * height;
            key = emitterKey handIndex fingerIndex
        in fingerLoop g hand handIndex width height mult rest (Suc fingerIndex)
             (insert key activeKeys,
              updateEmitter g key targetX targetY mult (fingerColor fingerIndex) st)
      else Inl TypeError)"

text \<open>\<^verbatim>\<open>results.landmarks.forEach((hand, handIndex) => ...)\<close>, from \<open>handIndex\<close> on.\<close>

fun handLoop :: "rng \<Rightarrow> real \<Rightarrow> real \<Rightarrow> real \<Rightarrow> Point list list \<Rightarrow> nat
    \<Rightarrow> string set \<times> State \<Rightarrow> error + string set \<times> State" where
  "handLoop g width height mult [] handIndex acc = Inr acc"
| "handLoop g width height mult (hand # hands) handIndex acc =
     (case fingerLoop g hand handIndex width height mult FINGER_INDICES 0 acc of
        Inl e \<Rightarrow> Inl e
      | Inr acc' \<Rightarrow> handLoop g width height mult hands (Suc handIndex) acc')"

text \<open>
  The emission phase of a frame: \<^verbatim>\<open>activeKeys\<close> starts empty, and when there are
  landmarks every fingertip's emitter is updated with the frame's multiplier.
\<close>

definition updateEmitters :: "rng \<Rightarrow> Frame \<Rightarrow> State \<Rightarrow> error + string set \<times> State" where
  "updateEmitters g fr st =
     (if length (landmarks fr) > 0 then
        let totalActiveEmitters = real (length (landmarks fr) * 5);
            mult = particleMultiplier totalActiveEmitters
        in handLoop g (videoWidth fr) (videoHeight fr) mult (landmarks fr) 0 ({}, st)
      else Inr ({}, st))"

text \<open>
  The cleanup loop: every key of the registry that is not in \<^verbatim>\<open>activeKeys\<close> is
  deleted.
\<close>

definition cleanupEmitters :: "string set \<Rightarrow> State \<Rightarrow> State" where
  "cleanupEmitters activeKeys st = st\<lparr> emitters := emitters st |` activeKeys \<rparr>"

definition processTracking :: "rng \<Rightarrow> Frame \<Rightarrow> State \<Rightarrow> error + State" where
  "processTracking g fr st =
     (case updateEmitters g fr st of
        Inl e \<Rightarrow> Inl e
      | Inr (activeKeys, st1) \<Rightarrow> Inr (cleanupEmitters activeKeys st1))"

text \<open>What a frame draws on the canvas, in order.\<close>

datatype DrawOp = DrawVideo | FillRect real | FillArc Arc

text \<open>
  Step 4, the lighting overlay: drawn, and the intensity decayed, only above the
  threshold.
\<close>

definition lightingEffects :: "State \<Rightarrow> State \<times> DrawOp list" where
  "lightingEffects st =
     (if lightingIntensity st > 0.01 then
        (st\<lparr> lightingIntensity := lightingIntensity st * 0.85 \<rparr>,
         [FillRect (lightingIntensity st * 0.4)])
      else (st, []))"

text \<open>
  One call of \<^verbatim>\<open>animate\<close>: the new state and what was drawn. The two early returns
  leave the state as it is and draw nothing.
\<close>

definition animate :: "rng \<Rightarrow> Frame \<Rightarrow> State \<Rightarrow> error + State \<times> DrawOp list" where
  "animate g fr st =
     (if \<not> refsReady fr then Inr (st, [])
      else if \<not> ctxOk fr then Inr (st, [])
      else
        case (if videoPlaying fr then processTracking g fr st else Inr st) of
          Inl e \<Rightarrow> Inl e
        | Inr st1 \<Rightarrow>
            let (st2, overlay) = lightingEffects st1;
                st3 = st2\<lparr> particles :=
                        updateParticles (particles st2) (videoWidth fr) (videoHeight fr) \<rparr>
            in Inr (st3, [DrawVideo] @ overlay @ map FillArc (drawParticles (particles st3))))"

text \<open>A run of frames; an exception ends the loop (the next frame is never requested).\<close>

fun run :: "rng \<Rightarrow> Frame list \<Rightarrow> State \<Rightarrow> error + State" where
  "run g [] st = Inr st"
| "run g (fr # frs) st =
     (case animate g fr st of
        Inl e \<Rightarrow> Inl e
      | Inr (st', drawn) \<Rightarrow> run g frs st')"

subsection \<open>Notions used in the statements\<close>

text \<open>
  The emitter object as \<^verbatim>\<open>updateEmitter\<close> leaves it after the inertia step, the
  velocity update and step 1 (arming), for an existing emitter and a target.
\<close>

definition movedEmitter :: "EmitterState \<Rightarrow> real \<Rightarrow> real \<Rightarrow> EmitterState" where
  "movedEmitter e tx ty =
     \<lparr> e_x = e_x e + (tx - e_x e) * INERTIA_FACTOR,
       e_y = e_y e + (ty - e_y e) * INERTIA_FACTOR,
       e_vx = (tx - e_x e) * INERTIA_FACTOR,
       e_vy = (ty - e_y e) * INERTIA_FACTOR,
       isBurstArmed = (smoothedSpeed e tx ty > BURST_ARM_SPEED \<or> isBurstArmed e) \<rparr>"

text \<open>
  The particles a call pushed: what the population of \<open>st'\<close> holds beyond the length
  of the population of \<open>st\<close>.
\<close>

definition spawned :: "State \<Rightarrow> State \<Rightarrow> Particle list" where
  "spawned st st' = drop (length (particles st)) (particles st')"

text \<open>\<open>n\<close> ticks of the simulation step with no emission in between.\<close>

definition ticks :: "nat \<Rightarrow> real \<Rightarrow> real \<Rightarrow> Particle list \<Rightarrow> Particle list" where
  "ticks n width height = (\<lambda>ps. updateParticles ps width height) ^^ n"

text \<open>
  The same with the rounded step, and the life that \<open>n\<close> rounded decrements leave:
  \<open>None\<close> when one of them leaves no positive life, which is when the step drops the
  particle.
\<close>

definition ticksR :: "(real \<Rightarrow> real) \<Rightarrow> nat \<Rightarrow> real \<Rightarrow> real \<Rightarrow> Particle list \<Rightarrow> Particle list" where
  "ticksR rd n width height = (\<lambda>ps. updateParticlesR rd ps width height) ^^ n"

fun lifeAfter :: "(real \<Rightarrow> real) \<Rightarrow> nat \<Rightarrow> real \<Rightarrow> real \<Rightarrow> real option" where
  "lifeAfter rd 0 life decay = Some life"
| "lifeAfter rd (Suc n) life decay =
     (if rd (life - decay) > 0 then lifeAfter rd n (rd (life - decay)) decay else None)"

text \<open>
  What the population satisfies between frames, and what an arc drawn for such a
  particle satisfies.
\<close>

definition liveParticle :: "Particle \<Rightarrow> bool" where
  "liveParticle p = (0 < p_life p \<and> p_life p \<le> 1 \<and> 0 < p_decay p)"

definition liveArc :: "DrawOp \<Rightarrow> bool" where
  "liveArc d = (case d of FillArc a \<Rightarrow> 0 < arc_alpha a \<and> arc_alpha a \<le> 1 | _ \<Rightarrow> True)"

text \<open>The flash intensity is in its range.\<close>

definition flashInRange :: "State \<Rightarrow> bool" where
  "flashInRange st = (0 \<le> lightingIntensity st \<and> lightingIntensity st \<le> 1)"

text \<open>The state with the emitter of \<open>k\<close> removed from the registry.\<close>

definition forget :: "string \<Rightarrow> State \<Rightarrow> State" where
  "forget k st = st\<lparr> emitters := (emitters st)(k := None) \<rparr>"

text \<open>
  The keys of a frame's tracked fingertips: one per hand index and finger index, as
  the two nested \<^verbatim>\<open>forEach\<close> loops build them.
\<close>

definition trackedKeys :: "Frame \<Rightarrow> string set" where
  "trackedKeys fr =
     (\<Union>handIndex \<in> {0..<length (landmarks fr)}.
        \<Union>fingerIndex \<in> {0..<length FINGER_INDICES}. {emitterKey handIndex fingerIndex})"

text \<open>
  The arguments of the \<^verbatim>\<open>updateEmitter\<close> calls of a frame, in the order in which
  the two nested \<^verbatim>\<open>forEach\<close> loops make them: key, target and colour of every
  fingertip.
\<close>

fun fingerCalls :: "Point list \<Rightarrow> nat \<Rightarrow> real \<Rightarrow> real \<Rightarrow> nat list \<Rightarrow> nat
    \<Rightarrow> (string \<times> real \<times> real \<times> string) list" where
  "fingerCalls hand handIndex width height [] fingerIndex = []"
| "fingerCalls hand handIndex width height (tipIdx # rest) fingerIndex =
     (emitterKey handIndex fingerIndex, (1 - pt_x (hand ! tipIdx)) * width,
      pt_y (hand ! tipIdx) * height, fingerColor fingerIndex)
     # fingerCalls hand handIndex width height rest (Suc fingerIndex)"

fun handCalls :: "real \<Rightarrow> real \<Rightarrow> Point list list \<Rightarrow> nat
    \<Rightarrow> (string \<times> real \<times> real \<times> string) list" where
  "handCalls width height [] handIndex = []"
| "handCalls width height (hand # hands) handIndex =
     fingerCalls hand handIndex width height FINGER_INDICES 0
     @ handCalls width height hands (Suc handIndex)"

definition frameCalls :: "Frame \<Rightarrow> (string \<times> real \<times> real \<times> string) list" where
  "frameCalls fr = handCalls (videoWidth fr) (videoHeight fr) (landmarks fr) 0"

text \<open>
  Reading a decimal string back, the inverse of \<open>natToString\<close>: it shows that
  different indices give different keys.
\<close>

definition digitValue :: "char \<Rightarrow> nat" where
  "digitValue c = length (takeWhile (\<lambda>d. d \<noteq> c) ''0123456789'')"

definition stringToNat :: "string \<Rightarrow> nat" where
  "stringToNat s = foldl (\<lambda>a c. 10 * a + digitValue c) 0 s"

text \<open>A step that pushes no particle, draws no random number and leaves the flash alone.\<close>

definition quiet :: "State \<Rightarrow> State \<Rightarrow> bool" where
  "quiet st st' = (particles st' = particles st \<and> seed st' = seed st
     \<and> lightingIntensity st' = lightingIntensity st)"

text \<open>Concrete inputs at which the theorems below are instantiated.\<close>

definition demoKey :: string where
  "demoKey = ''0-1''"

definition demoEmitter :: EmitterState where
  "demoEmitter = \<lparr> e_x = 0, e_y = 0, e_vx = 0, e_vy = 0, isBurstArmed = False \<rparr>"

definition demoState :: "EmitterState \<Rightarrow> State" where
  "demoState e = initialState\<lparr> emitters := [demoKey \<mapsto> e] \<rparr>"

definition demoArmed :: EmitterState where
  "demoArmed = \<lparr> e_x = 0, e_y = 0, e_vx = 20, e_vy = 0, isBurstArmed = True \<rparr>"

definition demoParticle :: Particle where
  "demoParticle = \<lparr> p_x = 0, p_y = 100, p_vx = 0, p_vy = 1, p_life = 1, p_decay = 1/50,
      p_color = ''rgba(255, 215, 0,'', p_size = 2, p_type = Trail, p_gravity = 1/10 \<rparr>"

definition demoHand :: "real \<Rightarrow> real \<Rightarrow> Point list" where
  "demoHand x y = replicate 21 \<lparr> pt_x = x, pt_y = y \<rparr>"

definition demoFrame :: "Point list list \<Rightarrow> Frame" where
  "demoFrame hands = \<lparr> refsReady = True, ctxOk = True, videoWidth = 1280, videoHeight = 720,
      videoPlaying = True, landmarks = hands \<rparr>"

definition staleState :: State where
  "staleState = initialState\<lparr> emitters := [''1-0'' \<mapsto> demoEmitter] \<rparr>"

definition demoRng :: rng where
  "demoRng = (\<lambda>n. 0)"

text \<open>
  Particles whose fields are binary64 values. The decay of \<open>lateParticle\<close> is what the
  trail factory computes from the random number \<open>3821236047465875 / 2 ^ 52\<close>; the decay
  and the gravity of \<open>floorParticle\<close> are the values of the literals \<^verbatim>\<open>0.02\<close> and
  \<^verbatim>\<open>0.1\<close>; \<open>stillParticle\<close> lies on the floor of a canvas of height 720 with a
  downward velocity of \<open>2 ^ -53\<close>.
\<close>

definition lateParticle :: Particle where
  "lateParticle = \<lparr> p_x = 640, p_y = 360, p_vx = 0, p_vy = 0, p_life = 1,
      p_decay = 3275345183542179 / 2 ^ 56, p_color = ''rgba(255, 215, 0,'', p_size = 2, p_type = Trail,
      p_gravity = 3602879701896397 / 2 ^ 55 \<rparr>"

definition floorParticle :: Particle where
  "floorParticle = \<lparr> p_x = 0, p_y = 100, p_vx = 0, p_vy = 1, p_life = 1,
      p_decay = 5764607523034235 / 2 ^ 58, p_color = ''rgba(255, 215, 0,'', p_size = 2,
      p_type = Trail, p_gravity = 3602879701896397 / 2 ^ 55 \<rparr>"

definition stillParticle :: Particle where
  "stillParticle = floorParticle\<lparr> p_y := 720, p_vy := 1 / 2 ^ 53 \<rparr>"

text \<open>A random source whose every number is one half.\<close>

definition halfRng :: rng where
  "halfRng = (\<lambda>n. 1/2)"

section \<open>Properties\<close>

subsection \<open>The factory\<close>

lemma burstLoop_length: "length (burstLoop g s x y n) = n"
  by (induction n arbitrary: s) simp_all

lemma createBurstParticles_length: "length (createBurstParticles g s x y) = 60"
  by (simp add: createBurstParticles_def burstLoop_length BURST_PARTICLE_COUNT_def)

lemma burstLoop_all:
  "list_all (\<lambda>p. p_type p = Burst \<and> p_x p = x \<and> p_y p = y \<and> p_life p = 1) (burstLoop g s x y n)"
  by (induction n arbitrary: s) (simp_all add: burstParticle_def Let_def)

lemma createBurstParticles_all:
  "list_all (\<lambda>p. p_type p = Burst \<and> p_x p = x \<and> p_y p = y \<and> p_life p = 1) (createBurstParticles g s x y)"
  by (simp add: createBurstParticles_def burstLoop_all)

lemma maybeTrail_particles:
  "\<exists>tr. particles (maybeTrail g x y v c col st) = particles st @ tr \<and> length tr \<le> 1
     \<and> list_all (\<lambda>p. p_type p = Trail \<and> p_life p = 1) tr"
  by (simp add: maybeTrail_def createTrailParticle_def Let_def)

lemma maybeTrail_other:
  "emitters (maybeTrail g x y v c col st) = emitters st"
  "lightingIntensity (maybeTrail g x y v c col st) = lightingIntensity st"
  by (simp_all add: maybeTrail_def)

lemma emitTrails_other:
  "emitters (emitTrails g sp x y v c col st) = emitters st"
  "lightingIntensity (emitTrails g sp x y v c col st) = lightingIntensity st"
  by (simp_all add: emitTrails_def Let_def maybeTrail_other)

lemma emitTrails_particles:
  "\<exists>tr. particles (emitTrails g sp x y v c col st) = particles st @ tr \<and> length tr \<le> 2
     \<and> list_all (\<lambda>p. p_type p = Trail \<and> p_life p = 1) tr
     \<and> (sp \<le> DRAW_SPEED_THRESHOLD * 2 \<longrightarrow> length tr \<le> 1)
     \<and> (sp \<le> DRAW_SPEED_THRESHOLD \<longrightarrow> tr = [])"
proof -
  obtain t1 where t1: "particles (maybeTrail g x y v c col st) = particles st @ t1"
      "length t1 \<le> 1" "list_all (\<lambda>p. p_type p = Trail \<and> p_life p = 1) t1"
    using maybeTrail_particles by blast
  obtain t2 where t2: "particles (maybeTrail g x y v c col (maybeTrail g x y v c col st))
       = particles (maybeTrail g x y v c col st) @ t2"
      "length t2 \<le> 1" "list_all (\<lambda>p. p_type p = Trail \<and> p_life p = 1) t2"
    using maybeTrail_particles by blast
  show ?thesis
  proof (cases "sp > DRAW_SPEED_THRESHOLD")
    case False
    then show ?thesis by (simp add: emitTrails_def)
  next
    case True
    show ?thesis
    proof (cases "sp > DRAW_SPEED_THRESHOLD * 2")
      case False
      with True t1 show ?thesis
        by (intro exI[of _ t1]) (simp add: emitTrails_def Let_def)
    next
      case b: True
      with True t1 t2 show ?thesis
        by (intro exI[of _ "t1 @ t2"]) (simp add: emitTrails_def Let_def)
    qed
  qed
qed

subsection \<open>One call of updateEmitter on an existing emitter\<close>

lemma updateEmitter_unfold:
  assumes "emitters st key = Some e"
  shows "updateEmitter g key tx ty c col st =
    emitTrails g (smoothedSpeed e tx ty) (e_x (movedEmitter e tx ty)) (e_y (movedEmitter e tx ty))
      \<lparr> pt_x = e_vx (movedEmitter e tx ty), pt_y = e_vy (movedEmitter e tx ty) \<rparr> c col
      (triggerBurst g key (smoothedSpeed e tx ty) (movedEmitter e tx ty)
         (st\<lparr> emitters := (emitters st)(key \<mapsto> movedEmitter e tx ty) \<rparr>))"
proof (cases e)
  case (fields ex ey evx evy armed)
  with assms show ?thesis
    by (simp add: updateEmitter_def Let_def smoothedSpeed_def movedEmitter_def)
qed

lemma triggerBurst_fire:
  "isBurstArmed m \<and> sp < BURST_TRIGGER_SPEED \<Longrightarrow>
   triggerBurst g key sp m st =
     st\<lparr> particles := particles st @ createBurstParticles g (seed st) (e_x m) (e_y m),
         seed := seed st + 5 * BURST_PARTICLE_COUNT,
         lightingIntensity := min (lightingIntensity st + 0.5) 1,
         emitters := (emitters st)(key \<mapsto> m\<lparr> isBurstArmed := False \<rparr>) \<rparr>"
  by (simp add: triggerBurst_def)

lemma triggerBurst_idle:
  "\<not> (isBurstArmed m \<and> sp < BURST_TRIGGER_SPEED) \<Longrightarrow> triggerBurst g key sp m st = st"
  by (auto simp add: triggerBurst_def)

lemma updateEmitter_fire:
  assumes "emitters st key = Some e"
    and "isBurstArmed (movedEmitter e tx ty) \<and> smoothedSpeed e tx ty < BURST_TRIGGER_SPEED"
  shows "\<exists>tr. particles (updateEmitter g key tx ty c col st) =
           particles st @ createBurstParticles g (seed st)
             (e_x (movedEmitter e tx ty)) (e_y (movedEmitter e tx ty)) @ tr
         \<and> length tr \<le> 1 \<and> list_all (\<lambda>p. p_type p = Trail \<and> p_life p = 1) tr
         \<and> (smoothedSpeed e tx ty \<le> DRAW_SPEED_THRESHOLD \<longrightarrow> tr = [])"
    and "emitters (updateEmitter g key tx ty c col st) =
           (emitters st)(key \<mapsto> (movedEmitter e tx ty)\<lparr> isBurstArmed := False \<rparr>)"
    and "lightingIntensity (updateEmitter g key tx ty c col st) =
           min (lightingIntensity st + 0.5) 1"
proof -
  let ?sp = "smoothedSpeed e tx ty" and ?m = "movedEmitter e tx ty"
  let ?st2 = "triggerBurst g key ?sp ?m (st\<lparr> emitters := (emitters st)(key \<mapsto> ?m) \<rparr>)"
  have u: "updateEmitter g key tx ty c col st =
      emitTrails g ?sp (e_x ?m) (e_y ?m) \<lparr> pt_x = e_vx ?m, pt_y = e_vy ?m \<rparr> c col ?st2"
    by (rule updateEmitter_unfold[OF assms(1)])
  have st2: "particles ?st2 = particles st @ createBurstParticles g (seed st) (e_x ?m) (e_y ?m)"
      "emitters ?st2 = (emitters st)(key \<mapsto> ?m\<lparr> isBurstArmed := False \<rparr>)"
      "lightingIntensity ?st2 = min (lightingIntensity st + 0.5) 1"
    using assms(2) by (simp_all add: triggerBurst_fire)
  have small: "?sp \<le> DRAW_SPEED_THRESHOLD * 2"
    using assms(2) by (simp add: BURST_TRIGGER_SPEED_def DRAW_SPEED_THRESHOLD_def)
  obtain tr where tr: "particles (emitTrails g ?sp (e_x ?m) (e_y ?m)
        \<lparr> pt_x = e_vx ?m, pt_y = e_vy ?m \<rparr> c col ?st2) = particles ?st2 @ tr"
      "list_all (\<lambda>p. p_type p = Trail \<and> p_life p = 1) tr"
      "?sp \<le> DRAW_SPEED_THRESHOLD * 2 \<longrightarrow> length tr \<le> 1"
      "?sp \<le> DRAW_SPEED_THRESHOLD \<longrightarrow> tr = []"
    using emitTrails_particles by blast
  show "\<exists>tr. particles (updateEmitter g key tx ty c col st) =
           particles st @ createBurstParticles g (seed st) (e_x ?m) (e_y ?m) @ tr
         \<and> length tr \<le> 1 \<and> list_all (\<lambda>p. p_type p = Trail \<and> p_life p = 1) tr
         \<and> (?sp \<le> DRAW_SPEED_THRESHOLD \<longrightarrow> tr = [])"
    using tr small by (intro exI[of _ tr]) (simp add: u st2)
  show "emitters (updateEmitter g key tx ty c col st) =
           (emitters st)(key \<mapsto> ?m\<lparr> isBurstArmed := False \<rparr>)"
    by (simp add: u emitTrails_other st2)
  show "lightingIntensity (updateEmitter g key tx ty c col st) =
           min (lightingIntensity st + 0.5) 1"
    by (simp add: u emitTrails_other st2)
qed

lemma updateEmitter_idle:
  assumes "emitters st key = Some e"
    and "\<not> (isBurstArmed (movedEmitter e tx ty) \<and> smoothedSpeed e tx ty < BURST_TRIGGER_SPEED)"
  shows "\<exists>tr. particles (updateEmitter g key tx ty c col st) = particles st @ tr
         \<and> length tr \<le> 2 \<and> list_all (\<lambda>p. p_type p = Trail \<and> p_life p = 1) tr
         \<and> (smoothedSpeed e tx ty \<le> DRAW_SPEED_THRESHOLD \<longrightarrow> tr = [])"
    and "emitters (updateEmitter g key tx ty c col st) =
           (emitters st)(key \<mapsto> movedEmitter e tx ty)"
    and "lightingIntensity (updateEmitter g key tx ty c col st) = lightingIntensity st"
proof -
  let ?sp = "smoothedSpeed e tx ty" and ?m = "movedEmitter e tx ty"
  let ?st1 = "st\<lparr> emitters := (emitters st)(key \<mapsto> ?m) \<rparr>"
  have u: "updateEmitter g key tx ty c col st =
      emitTrails g ?sp (e_x ?m) (e_y ?m) \<lparr> pt_x = e_vx ?m, pt_y = e_vy ?m \<rparr> c col ?st1"
    using updateEmitter_unfold[OF assms(1), of g tx ty c col] assms(2)
    by (simp add: triggerBurst_idle)
  obtain tr where tr: "particles (emitTrails g ?sp (e_x ?m) (e_y ?m)
        \<lparr> pt_x = e_vx ?m, pt_y = e_vy ?m \<rparr> c col ?st1) = particles ?st1 @ tr"
      "length tr \<le> 2"
      "list_all (\<lambda>p. p_type p = Trail \<and> p_life p = 1) tr"
      "?sp \<le> DRAW_SPEED_THRESHOLD \<longrightarrow> tr = []"
    using emitTrails_particles by blast
  show "\<exists>tr. particles (updateEmitter g key tx ty c col st) = particles st @ tr
         \<and> length tr \<le> 2 \<and> list_all (\<lambda>p. p_type p = Trail \<and> p_life p = 1) tr
         \<and> (?sp \<le> DRAW_SPEED_THRESHOLD \<longrightarrow> tr = [])"
    using tr by (intro exI[of _ tr]) (simp add: u)
  show "emitters (updateEmitter g key tx ty c col st) = (emitters st)(key \<mapsto> ?m)"
    by (simp add: u emitTrails_other)
  show "lightingIntensity (updateEmitter g key tx ty c col st) = lightingIntensity st"
    by (simp add: u emitTrails_other)
qed

lemma spawned_append: "particles st' = particles st @ new \<Longrightarrow> spawned st st' = new"
  by (simp add: spawned_def)

lemma movedEmitter_armed:
  "isBurstArmed (movedEmitter e tx ty) = (smoothedSpeed e tx ty > BURST_ARM_SPEED \<or> isBurstArmed e)"
  by (simp add: movedEmitter_def)

lemma list_all_weaken: "list_all P xs \<Longrightarrow> (\<And>x. P x \<Longrightarrow> Q x) \<Longrightarrow> list_all Q xs"
  by (induction xs) auto

lemma fast_tick:
  assumes e: "emitters st key = Some e"
    and sp: "smoothedSpeed e tx ty = 20"
    and s': "st' = updateEmitter g key tx ty c col st"
  shows "emitters st' key = Some (movedEmitter e tx ty)"
    and "isBurstArmed (movedEmitter e tx ty)"
    and "particles st' = particles st @ spawned st st'"
    and "list_all (\<lambda>p. p_type p = Trail) (spawned st st')"
    and "lightingIntensity st' = lightingIntensity st"
proof -
  have idle: "\<not> (isBurstArmed (movedEmitter e tx ty) \<and> smoothedSpeed e tx ty < BURST_TRIGGER_SPEED)"
    using sp by (simp add: BURST_TRIGGER_SPEED_def)
  note facts = updateEmitter_idle[OF e idle, of g c col, folded s']
  from facts(1) obtain tr where tr: "particles st' = particles st @ tr"
      "list_all (\<lambda>p. p_type p = Trail \<and> p_life p = 1) tr" by blast
  then have sp': "spawned st st' = tr" by (simp add: spawned_append)
  show "emitters st' key = Some (movedEmitter e tx ty)" using facts(2) by simp
  show "isBurstArmed (movedEmitter e tx ty)"
    using sp by (simp add: movedEmitter_armed BURST_ARM_SPEED_def)
  show "particles st' = particles st @ spawned st st'" using tr sp' by simp
  show "list_all (\<lambda>p. p_type p = Trail) (spawned st st')"
    using tr(2) unfolding sp' by (rule list_all_weaken) simp
  show "lightingIntensity st' = lightingIntensity st" using facts(3) .
qed

lemma stop_tick:
  assumes e: "emitters st key = Some e"
    and armed: "isBurstArmed e"
    and sp: "smoothedSpeed e tx ty = 3"
    and s': "st' = updateEmitter g key tx ty c col st"
  shows "particles st' = particles st @ createBurstParticles g (seed st)
           (e_x (the (emitters st' key))) (e_y (the (emitters st' key)))"
    and "\<not> isBurstArmed (the (emitters st' key))"
    and "lightingIntensity st' = min (lightingIntensity st + 0.5) 1"
proof -
  have fire: "isBurstArmed (movedEmitter e tx ty) \<and> smoothedSpeed e tx ty < BURST_TRIGGER_SPEED"
    using sp armed by (simp add: BURST_TRIGGER_SPEED_def movedEmitter_armed)
  note facts = updateEmitter_fire[OF e fire, of g c col, folded s']
  have em: "emitters st' key = Some ((movedEmitter e tx ty)\<lparr> isBurstArmed := False \<rparr>)"
    using facts(2) by simp
  from facts(1) sp obtain tr where "particles st' = particles st @ createBurstParticles g (seed st)
           (e_x (movedEmitter e tx ty)) (e_y (movedEmitter e tx ty)) @ tr" "tr = []"
    by (auto simp add: DRAW_SPEED_THRESHOLD_def)
  then show "particles st' = particles st @ createBurstParticles g (seed st)
           (e_x (the (emitters st' key))) (e_y (the (emitters st' key)))"
    by (simp add: em)
  show "\<not> isBurstArmed (the (emitters st' key))" by (simp add: em)
  show "lightingIntensity st' = min (lightingIntensity st + 0.5) 1" using facts(3) .
qed

subsection \<open>Arm and trigger\<close>

text \<open>
  C1. An emitter is processed by \<^verbatim>\<open>updateEmitter\<close> on three consecutive ticks;
  \<open>t1\<close> and \<open>t2\<close> are the states in which the second and third calls start, and hold
  the emitter as the previous call left it (whatever the rest of the frame did to the
  other references). With smoothed speeds 20, 20, 3 the first two calls leave the emitter
  armed and push only trail particles, and do not touch the flash; the third call pushes
  exactly the burst batch, 60 burst particles at the emitter's position, and resets the
  flag. With a third speed of 20 instead, the third call also pushes no burst particle
  and the emitter stays armed.
\<close>

theorem updateEmitter_arm_trigger_hysteresis:
  assumes "emitters s0 key = Some e0"
    and "smoothedSpeed e0 x1 y1 = 20"
    and "s1 = updateEmitter g key x1 y1 c col s0"
    and "emitters t1 key = emitters s1 key"
    and "smoothedSpeed (the (emitters t1 key)) x2 y2 = 20"
    and "s2 = updateEmitter g key x2 y2 c col t1"
    and "emitters t2 key = emitters s2 key"
    and "smoothedSpeed (the (emitters t2 key)) x3 y3 = 3"
    and "s3 = updateEmitter g key x3 y3 c col t2"
    and "smoothedSpeed (the (emitters t2 key)) x3' y3' = 20"
    and "s3' = updateEmitter g key x3' y3' c col t2"
  shows "(isBurstArmed (the (emitters s1 key)) \<and> particles s1 = particles s0 @ spawned s0 s1
          \<and> list_all (\<lambda>p. p_type p = Trail) (spawned s0 s1)
          \<and> lightingIntensity s1 = lightingIntensity s0)
       \<and> (isBurstArmed (the (emitters s2 key)) \<and> particles s2 = particles t1 @ spawned t1 s2
          \<and> list_all (\<lambda>p. p_type p = Trail) (spawned t1 s2)
          \<and> lightingIntensity s2 = lightingIntensity t1)
       \<and> (particles s3 = particles t2 @ spawned t2 s3
          \<and> spawned t2 s3 = createBurstParticles g (seed t2)
               (e_x (the (emitters s3 key))) (e_y (the (emitters s3 key)))
          \<and> length (spawned t2 s3) = 60
          \<and> list_all (\<lambda>p. p_type p = Burst \<and> p_x p = e_x (the (emitters s3 key))
                           \<and> p_y p = e_y (the (emitters s3 key))) (spawned t2 s3)
          \<and> \<not> isBurstArmed (the (emitters s3 key))
          \<and> lightingIntensity s3 = min (lightingIntensity t2 + 0.5) 1)
       \<and> (isBurstArmed (the (emitters s3' key)) \<and> particles s3' = particles t2 @ spawned t2 s3'
          \<and> list_all (\<lambda>p. p_type p = Trail) (spawned t2 s3')
          \<and> lightingIntensity s3' = lightingIntensity t2)"
proof -
  note a = assms
  note f1 = fast_tick[OF a(1) a(2) a(3)]
  have e1: "emitters t1 key = Some (movedEmitter e0 x1 y1)" using a(4) f1(1) by simp
  have sp2: "smoothedSpeed (movedEmitter e0 x1 y1) x2 y2 = 20" using a(5) e1 by simp
  note f2 = fast_tick[OF e1 sp2 a(6)]
  let ?m2 = "movedEmitter (movedEmitter e0 x1 y1) x2 y2"
  have e2: "emitters t2 key = Some ?m2" using a(7) f2(1) by simp
  have sp3: "smoothedSpeed ?m2 x3 y3 = 3" using a(8) e2 by simp
  have sp3': "smoothedSpeed ?m2 x3' y3' = 20" using a(10) e2 by simp
  note f3 = stop_tick[OF e2 f2(2) sp3 a(9)]
  note f3' = fast_tick[OF e2 sp3' a(11)]
  have sp: "spawned t2 s3 = createBurstParticles g (seed t2)
               (e_x (the (emitters s3 key))) (e_y (the (emitters s3 key)))"
    using f3(1) by (rule spawned_append)
  have all: "list_all (\<lambda>p. p_type p = Burst \<and> p_x p = e_x (the (emitters s3 key))
                           \<and> p_y p = e_y (the (emitters s3 key))) (spawned t2 s3)"
    unfolding sp by (rule list_all_weaken[OF createBurstParticles_all]) simp
  have t1: "isBurstArmed (the (emitters s1 key)) \<and> particles s1 = particles s0 @ spawned s0 s1
          \<and> list_all (\<lambda>p. p_type p = Trail) (spawned s0 s1)
          \<and> lightingIntensity s1 = lightingIntensity s0"
    using f1 by simp
  have t2: "isBurstArmed (the (emitters s2 key)) \<and> particles s2 = particles t1 @ spawned t1 s2
          \<and> list_all (\<lambda>p. p_type p = Trail) (spawned t1 s2)
          \<and> lightingIntensity s2 = lightingIntensity t1"
    using f2 by simp
  have t3: "particles s3 = particles t2 @ spawned t2 s3
          \<and> spawned t2 s3 = createBurstParticles g (seed t2)
               (e_x (the (emitters s3 key))) (e_y (the (emitters s3 key)))
          \<and> length (spawned t2 s3) = 60
          \<and> list_all (\<lambda>p. p_type p = Burst \<and> p_x p = e_x (the (emitters s3 key))
                           \<and> p_y p = e_y (the (emitters s3 key))) (spawned t2 s3)
          \<and> \<not> isBurstArmed (the (emitters s3 key))
          \<and> lightingIntensity s3 = min (lightingIntensity t2 + 0.5) 1"
    using f3 sp all by (simp add: createBurstParticles_length)
  have t3': "isBurstArmed (the (emitters s3' key)) \<and> particles s3' = particles t2 @ spawned t2 s3'
          \<and> list_all (\<lambda>p. p_type p = Trail) (spawned t2 s3')
          \<and> lightingIntensity s3' = lightingIntensity t2"
    using f3' by simp
  from t1 t2 t3 t3' show ?thesis by blast
qed

text \<open>A target on the emitter's own height: the speed is a quarter of the distance.\<close>

lemma smoothedSpeed_horizontal:
  "e_y e = ty \<Longrightarrow> smoothedSpeed e tx ty = \<bar>tx - e_x e\<bar> * INERTIA_FACTOR"
proof -
  assume "e_y e = ty"
  then have "smoothedSpeed e tx ty =
      sqrt (((tx - e_x e) * INERTIA_FACTOR) * ((tx - e_x e) * INERTIA_FACTOR))"
    by (simp add: smoothedSpeed_def Let_def)
  also have "\<dots> = \<bar>(tx - e_x e) * INERTIA_FACTOR\<bar>"
    by (rule real_sqrt_abs2)
  also have "\<dots> = \<bar>tx - e_x e\<bar> * INERTIA_FACTOR"
    by (simp add: abs_mult INERTIA_FACTOR_def)
  finally show ?thesis .
qed

theorem updateEmitter_arm_trigger_hysteresis_witness:
  "smoothedSpeed demoEmitter 80 0 = 20
   \<and> smoothedSpeed (the (emitters (updateEmitter demoRng demoKey 80 0 1 TRAIL_COLOR (demoState demoEmitter)) demoKey)) 100 0 = 20
   \<and> isBurstArmed (the (emitters (updateEmitter demoRng demoKey 80 0 1 TRAIL_COLOR (demoState demoEmitter)) demoKey))
   \<and> length (spawned
        (updateEmitter demoRng demoKey 100 0 1 TRAIL_COLOR
          (updateEmitter demoRng demoKey 80 0 1 TRAIL_COLOR (demoState demoEmitter)))
        (updateEmitter demoRng demoKey 52 0 1 TRAIL_COLOR
          (updateEmitter demoRng demoKey 100 0 1 TRAIL_COLOR
            (updateEmitter demoRng demoKey 80 0 1 TRAIL_COLOR (demoState demoEmitter))))) = 60
   \<and> isBurstArmed (the (emitters
        (updateEmitter demoRng demoKey 120 0 1 TRAIL_COLOR
          (updateEmitter demoRng demoKey 100 0 1 TRAIL_COLOR
            (updateEmitter demoRng demoKey 80 0 1 TRAIL_COLOR (demoState demoEmitter)))) demoKey))"
proof -
  let ?s0 = "demoState demoEmitter"
  let ?s1 = "updateEmitter demoRng demoKey 80 0 1 TRAIL_COLOR ?s0"
  let ?s2 = "updateEmitter demoRng demoKey 100 0 1 TRAIL_COLOR ?s1"
  have h1: "emitters ?s0 demoKey = Some demoEmitter"
    by (simp add: demoState_def)
  have h2: "smoothedSpeed demoEmitter 80 0 = 20"
    by (simp add: smoothedSpeed_horizontal demoEmitter_def INERTIA_FACTOR_def)
  have e1: "emitters ?s1 demoKey = Some (movedEmitter demoEmitter 80 0)"
    by (rule fast_tick(1)[OF h1 h2 refl])
  have m1: "movedEmitter demoEmitter 80 0 =
      \<lparr> e_x = 20, e_y = 0, e_vx = 20, e_vy = 0, isBurstArmed = True \<rparr>"
    by (simp add: movedEmitter_def h2 BURST_ARM_SPEED_def) (simp add: demoEmitter_def INERTIA_FACTOR_def)
  have h5: "smoothedSpeed (the (emitters ?s1 demoKey)) 100 0 = 20"
    by (simp add: e1 m1 smoothedSpeed_horizontal INERTIA_FACTOR_def)
  have e2: "emitters ?s2 demoKey = Some (movedEmitter (the (emitters ?s1 demoKey)) 100 0)"
    by (rule fast_tick(1)[OF _ h5 refl]) (simp add: e1)
  have m2: "movedEmitter (the (emitters ?s1 demoKey)) 100 0 =
      \<lparr> e_x = 40, e_y = 0, e_vx = 20, e_vy = 0, isBurstArmed = True \<rparr>"
    by (simp add: movedEmitter_def h5 BURST_ARM_SPEED_def) (simp add: e1 m1 INERTIA_FACTOR_def)
  have h8: "smoothedSpeed (the (emitters ?s2 demoKey)) 52 0 = 3"
    by (simp add: e2 m2 smoothedSpeed_horizontal INERTIA_FACTOR_def)
  have h10: "smoothedSpeed (the (emitters ?s2 demoKey)) 120 0 = 20"
    by (simp add: e2 m2 smoothedSpeed_horizontal INERTIA_FACTOR_def)
  from updateEmitter_arm_trigger_hysteresis[OF h1 h2 refl refl h5 refl refl h8 refl h10 refl]
  show ?thesis using h2 h5 by blast
qed

subsection \<open>How many particles one call pushes\<close>

lemma emitTrails_single:
  assumes "DRAW_SPEED_THRESHOLD < sp" "sp \<le> DRAW_SPEED_THRESHOLD * 2" "g (seed st) < c"
  shows "particles (emitTrails g sp x y v c col st) =
           particles st @ [createTrailParticle g (seed st + 1) x y v col]"
  using assms by (simp add: emitTrails_def maybeTrail_def Let_def)

lemma updateEmitter_spawned:
  assumes "emitters st key = Some e"
  shows "particles (updateEmitter g key tx ty c col st) =
           particles st @ spawned st (updateEmitter g key tx ty c col st)
       \<and> length (spawned st (updateEmitter g key tx ty c col st)) \<le> 61"
proof (cases "isBurstArmed (movedEmitter e tx ty) \<and> smoothedSpeed e tx ty < BURST_TRIGGER_SPEED")
  case True
  from updateEmitter_fire(1)[OF assms True, of g c col] obtain tr where
    tr: "particles (updateEmitter g key tx ty c col st) =
           particles st @ createBurstParticles g (seed st)
             (e_x (movedEmitter e tx ty)) (e_y (movedEmitter e tx ty)) @ tr" "length tr \<le> 1"
    by blast
  from tr(1) have "spawned st (updateEmitter g key tx ty c col st) =
      createBurstParticles g (seed st) (e_x (movedEmitter e tx ty)) (e_y (movedEmitter e tx ty)) @ tr"
    by (rule spawned_append)
  with tr show ?thesis by (simp add: createBurstParticles_length)
next
  case False
  from updateEmitter_idle(1)[OF assms False, of g c col] obtain tr where
    tr: "particles (updateEmitter g key tx ty c col st) = particles st @ tr" "length tr \<le> 2"
    by blast
  from tr(1) have "spawned st (updateEmitter g key tx ty c col st) = tr"
    by (rule spawned_append)
  with tr show ?thesis by simp
qed

lemma updateEmitter_burst_and_trail:
  assumes e: "emitters st key = Some e"
    and armed: "isBurstArmed e"
    and lo: "DRAW_SPEED_THRESHOLD < smoothedSpeed e tx ty"
    and hi: "smoothedSpeed e tx ty < BURST_TRIGGER_SPEED"
    and r: "g (seed st + 5 * BURST_PARTICLE_COUNT) < c"
  shows "spawned st (updateEmitter g key tx ty c col st) =
           createBurstParticles g (seed st) (e_x (movedEmitter e tx ty)) (e_y (movedEmitter e tx ty))
           @ [createTrailParticle g (seed st + 5 * BURST_PARTICLE_COUNT + 1)
                (e_x (movedEmitter e tx ty)) (e_y (movedEmitter e tx ty))
                \<lparr> pt_x = e_vx (movedEmitter e tx ty), pt_y = e_vy (movedEmitter e tx ty) \<rparr> col]"
proof -
  let ?sp = "smoothedSpeed e tx ty" and ?m = "movedEmitter e tx ty"
  let ?st2 = "triggerBurst g key ?sp ?m (st\<lparr> emitters := (emitters st)(key \<mapsto> ?m) \<rparr>)"
  have fire: "isBurstArmed ?m \<and> ?sp < BURST_TRIGGER_SPEED"
    using armed hi by (simp add: movedEmitter_armed)
  have st2: "particles ?st2 = particles st @ createBurstParticles g (seed st) (e_x ?m) (e_y ?m)"
      "seed ?st2 = seed st + 5 * BURST_PARTICLE_COUNT"
    using fire by (simp_all add: triggerBurst_fire)
  have le: "?sp \<le> DRAW_SPEED_THRESHOLD * 2"
    using hi by (simp add: BURST_TRIGGER_SPEED_def DRAW_SPEED_THRESHOLD_def)
  have "particles (updateEmitter g key tx ty c col st) =
      particles ?st2 @ [createTrailParticle g (seed ?st2 + 1) (e_x ?m) (e_y ?m)
         \<lparr> pt_x = e_vx ?m, pt_y = e_vy ?m \<rparr> col]"
    unfolding updateEmitter_unfold[OF e]
    by (rule emitTrails_single[OF lo le]) (simp add: st2 r)
  then show ?thesis
    by (intro spawned_append) (simp add: st2)
qed

lemma burstLoop_filter:
  "filter (\<lambda>p. p_type p = Burst) (burstLoop g s x y n) = burstLoop g s x y n"
  "filter (\<lambda>p. p_type p = Trail) (burstLoop g s x y n) = []"
  by (induction n arbitrary: s) (simp_all add: burstParticle_def Let_def)

lemma createBurstParticles_filter:
  "filter (\<lambda>p. p_type p = Burst) (createBurstParticles g s x y) = createBurstParticles g s x y"
  "filter (\<lambda>p. p_type p = Trail) (createBurstParticles g s x y) = []"
  by (simp_all add: createBurstParticles_def burstLoop_filter)

lemma createTrailParticle_type: "p_type (createTrailParticle g s x y v col) = Trail"
  by (simp add: createTrailParticle_def Let_def)

text \<open>
  C10. One call of \<^verbatim>\<open>updateEmitter\<close> on an existing emitter pushes at most 62
  particles (the population grows at its end only). Burst and trail are not exclusive:
  when the emitter is armed, its smoothed speed lies strictly between
  \<^verbatim>\<open>DRAW_SPEED_THRESHOLD\<close> and \<^verbatim>\<open>BURST_TRIGGER_SPEED\<close> and the random test that
  follows the burst passes, the call pushes the 60 burst particles and one trail particle.
\<close>

theorem updateEmitter_spawn_bound:
  assumes "emitters st key = Some e"
    and "st' = updateEmitter g key tx ty c col st"
  shows "particles st' = particles st @ spawned st st'
       \<and> length (spawned st st') \<le> 62
       \<and> (isBurstArmed e \<and> DRAW_SPEED_THRESHOLD < smoothedSpeed e tx ty
            \<and> smoothedSpeed e tx ty < BURST_TRIGGER_SPEED
            \<and> g (seed st + 5 * BURST_PARTICLE_COUNT) < c
          \<longrightarrow> length (filter (\<lambda>p. p_type p = Burst) (spawned st st')) = 60
            \<and> length (filter (\<lambda>p. p_type p = Trail) (spawned st st')) = 1)"
proof -
  have a: "particles st' = particles st @ spawned st st'" "length (spawned st st') \<le> 61"
    using updateEmitter_spawned[OF assms(1), of g tx ty c col] assms(2) by simp_all
  have b: "length (filter (\<lambda>p. p_type p = Burst) (spawned st st')) = 60
      \<and> length (filter (\<lambda>p. p_type p = Trail) (spawned st st')) = 1"
    if "isBurstArmed e" "DRAW_SPEED_THRESHOLD < smoothedSpeed e tx ty"
      "smoothedSpeed e tx ty < BURST_TRIGGER_SPEED" "g (seed st + 5 * BURST_PARTICLE_COUNT) < c"
    using updateEmitter_burst_and_trail[OF assms(1) that(1) that(2) that(3), of g c col, OF that(4)]
    unfolding assms(2)
    by (simp add: createBurstParticles_filter createTrailParticle_type createBurstParticles_length)
  from a b show ?thesis by auto
qed

theorem updateEmitter_spawn_bound_witness:
  "isBurstArmed demoArmed \<and> smoothedSpeed demoArmed 16 0 = 4
   \<and> length (spawned (demoState demoArmed)
        (updateEmitter demoRng demoKey 16 0 1 TRAIL_COLOR (demoState demoArmed))) \<le> 62
   \<and> length (filter (\<lambda>p. p_type p = Burst) (spawned (demoState demoArmed)
        (updateEmitter demoRng demoKey 16 0 1 TRAIL_COLOR (demoState demoArmed)))) = 60
   \<and> length (filter (\<lambda>p. p_type p = Trail) (spawned (demoState demoArmed)
        (updateEmitter demoRng demoKey 16 0 1 TRAIL_COLOR (demoState demoArmed)))) = 1"
proof -
  have h: "emitters (demoState demoArmed) demoKey = Some demoArmed"
    by (simp add: demoState_def)
  have sp: "smoothedSpeed demoArmed 16 0 = 4"
    by (simp add: smoothedSpeed_horizontal demoArmed_def INERTIA_FACTOR_def)
  have armed: "isBurstArmed demoArmed" by (simp add: demoArmed_def)
  have r: "demoRng (seed (demoState demoArmed) + 5 * BURST_PARTICLE_COUNT) < 1"
    by (simp add: demoRng_def)
  from updateEmitter_spawn_bound[OF h refl, of demoRng 16 0 1 TRAIL_COLOR]
  show ?thesis using sp armed r
    by (simp add: DRAW_SPEED_THRESHOLD_def BURST_TRIGGER_SPEED_def)
qed

subsection \<open>The simulation step\<close>

lemma demoRng_ok: "rngOk demoRng"
  by (simp add: rngOk_def demoRng_def)

lemma updateParticles_Nil: "updateParticles [] w h = []"
  by (simp add: updateParticles_def)

lemma updateParticles_append:
  "updateParticles (xs @ ys) w h = updateParticles xs w h @ updateParticles ys w h"
  by (simp add: updateParticles_def)

lemma updateParticles_single:
  "updateParticles [p] w h = (if snd (tickParticle h p) then [fst (tickParticle h p)] else [])"
  by (simp add: updateParticles_def)

lemma tickParticle_dead:
  "p_life p - p_decay p \<le> 0 \<Longrightarrow> tickParticle h p = (p\<lparr> p_life := p_life p - p_decay p \<rparr>, False)"
  by (simp add: tickParticle_def Let_def)

lemma tickParticle_alive:
  "0 < p_life p - p_decay p \<Longrightarrow> snd (tickParticle h p)
     \<and> p_life (fst (tickParticle h p)) = p_life p - p_decay p
     \<and> p_decay (fst (tickParticle h p)) = p_decay p"
  by (simp add: tickParticle_def Let_def)

lemma tickParticle_bounce:
  assumes "p_y p = height" "0 < p_vy p" "0 < p_vy p + p_gravity p" "0 < p_life p - p_decay p"
  shows "tickParticle height p =
     (p\<lparr> p_life := p_life p - p_decay p, p_x := p_x p + p_vx p,
         p_vy := - 0.6 * (p_vy p + p_gravity p), p_y := height \<rparr>, True)"
  using assms by (cases p) (simp add: tickParticle_def Let_def)

text \<open>
  Over exact arithmetic a particle on the floor that moves downward is above the floor
  after the position update, so the step reflects its velocity, the gravity included.
\<close>

lemma updateParticles_bounce:
  assumes "p_y p = height" "0 < p_vy p" "0 < p_vy p + p_gravity p" "0 < p_life p - p_decay p"
  shows "updateParticles (before @ [p] @ after) width height =
           updateParticles before width height
           @ [p\<lparr> p_life := p_life p - p_decay p, p_x := p_x p + p_vx p,
                 p_vy := - 0.6 * (p_vy p + p_gravity p), p_y := height \<rparr>]
           @ updateParticles after width height"
proof -
  have "updateParticles [p] width height =
      [p\<lparr> p_life := p_life p - p_decay p, p_x := p_x p + p_vx p,
          p_vy := - 0.6 * (p_vy p + p_gravity p), p_y := height \<rparr>]"
    unfolding updateParticles_single tickParticle_bounce[OF assms] by simp
  then show ?thesis
    unfolding updateParticles_append by simp
qed

subsection \<open>Rounding to binary64\<close>

lemma roundEven_cases:
  "roundEven y = \<lfloor>y\<rfloor> \<and> y - of_int \<lfloor>y\<rfloor> \<le> 1/2
   \<or> roundEven y = \<lfloor>y\<rfloor> + 1 \<and> 1/2 \<le> y - of_int \<lfloor>y\<rfloor>"
  by (auto simp add: roundEven_def Let_def)

lemma roundEven_upper: "of_int (roundEven y) \<le> y + 1/2"
proof -
  have f: "real_of_int \<lfloor>y\<rfloor> \<le> y" by simp
  from roundEven_cases[of y] show ?thesis
  proof
    assume "roundEven y = \<lfloor>y\<rfloor> \<and> y - of_int \<lfloor>y\<rfloor> \<le> 1/2"
    then have "real_of_int (roundEven y) = real_of_int \<lfloor>y\<rfloor>" by simp
    with f show ?thesis by linarith
  next
    assume a: "roundEven y = \<lfloor>y\<rfloor> + 1 \<and> 1/2 \<le> y - of_int \<lfloor>y\<rfloor>"
    then have "real_of_int (roundEven y) = real_of_int \<lfloor>y\<rfloor> + 1" by simp
    with a show ?thesis by linarith
  qed
qed

lemma roundEven_nonpos: "y \<le> 0 \<Longrightarrow> roundEven y \<le> 0"
proof -
  assume y: "y \<le> 0"
  from roundEven_upper[of y] y have "real_of_int (roundEven y) \<le> 1/2" by linarith
  then have "real_of_int (roundEven y) < 1" by linarith
  then have "roundEven y < 1" by linarith
  then show ?thesis by simp
qed

lemma rd64_nonpos: "x \<le> 0 \<Longrightarrow> rd64 x \<le> 0"
proof (cases "x = 0")
  case True
  then show ?thesis by (simp add: rd64_def)
next
  case False
  assume x: "x \<le> 0"
  define u :: real where "u = 2 powr (of_int (max \<lfloor>log 2 \<bar>x\<bar>\<rfloor> (- 1022)) - 52)"
  have u: "0 < u" by (simp add: u_def)
  then have "x / u \<le> 0" using x by (simp add: divide_nonpos_pos)
  then have "roundEven (x / u) \<le> 0" by (rule roundEven_nonpos)
  then have "real_of_int (roundEven (x / u)) \<le> 0" by simp
  then have "real_of_int (roundEven (x / u)) * u \<le> 0"
    using u by (simp add: mult_nonpos_nonneg)
  then show ?thesis using False by (simp add: rd64_def Let_def u_def)
qed

lemma rd64_upper:
  assumes "0 < x" "x \<le> 1"
  shows "rd64 x \<le> x + 1 / 2 ^ 53"
proof -
  define e where "e = max \<lfloor>log 2 \<bar>x\<bar>\<rfloor> (- 1022)"
  define u :: real where "u = 2 powr (of_int e - 52)"
  have "log 2 \<bar>x\<bar> \<le> 0" using assms by simp
  then have "\<lfloor>log 2 \<bar>x\<bar>\<rfloor> \<le> 0" by simp
  then have e: "e \<le> 0" by (simp add: e_def)
  have u: "0 < u" by (simp add: u_def)
  have "u \<le> 2 powr (- 52)"
    unfolding u_def using e by (intro powr_mono) simp_all
  also have "\<dots> = 1 / 2 ^ 52" by (simp add: powr_minus_divide)
  finally have ub: "u \<le> 1 / 2 ^ 52" .
  have "rd64 x = real_of_int (roundEven (x / u)) * u"
    using assms(1) by (simp add: rd64_def Let_def u_def e_def)
  also have "\<dots> \<le> (x / u + 1/2) * u"
    using roundEven_upper[of "x / u"] u by (simp add: mult_right_mono)
  also have "\<dots> = x + u / 2" using u by (simp add: field_simps)
  also have "\<dots> \<le> x + 1 / 2 ^ 53" using ub by simp
  finally show ?thesis .
qed

text \<open>
  The value of \<open>rd64\<close> at an argument whose binary exponent is known: below 2 and
  from 1 on.
\<close>

lemma rd64_eval_small:
  assumes "1 / 2 ^ k \<le> \<bar>x\<bar>" "\<bar>x\<bar> < 2 / 2 ^ k" "k \<le> 1022"
    and "roundEven (x * 2 ^ (k + 52)) = m"
  shows "rd64 x = of_int m / 2 ^ (k + 52)"
proof -
  have "(0::real) < 1 / 2 ^ k" by simp
  with assms(1) have pos: "0 < \<bar>x\<bar>" by linarith
  then have x0: "x \<noteq> 0" by simp
  have "(2::real) powr (of_int (- int k)) = 1 / 2 ^ k"
    by (simp add: powr_minus_divide powr_realpow)
  moreover have "(2::real) powr (of_int (- int k) + 1) = 2 / 2 ^ k"
  proof -
    have "(2::real) powr (of_int (- int k) + 1) = 2 powr (of_int (- int k)) * 2 powr 1"
      by (rule powr_add)
    also have "\<dots> = 2 / 2 ^ k"
      by (simp add: powr_minus_divide powr_realpow)
    finally show ?thesis .
  qed
  ultimately have "\<lfloor>log 2 \<bar>x\<bar>\<rfloor> = - int k"
    using assms(1,2) pos by (subst floor_log_eq_powr_iff) simp_all
  then have e: "max \<lfloor>log 2 \<bar>x\<bar>\<rfloor> (- 1022) = - int k"
    using assms(3) by simp
  have "real_of_int (- int k) - 52 = - real (k + 52)" by simp
  then have "(2::real) powr (real_of_int (- int k) - 52) = 2 powr (- real (k + 52))"
    by (rule arg_cong)
  also have "\<dots> = 1 / 2 ^ (k + 52)"
    by (simp only: powr_minus_divide powr_realpow zero_less_numeral)
  finally have u: "(2::real) powr (real_of_int (- int k) - 52) = 1 / 2 ^ (k + 52)" .
  have "rd64 x = real_of_int (roundEven (x / (1 / 2 ^ (k + 52)))) * (1 / 2 ^ (k + 52))"
    using x0 by (simp only: rd64_def Let_def e u if_False)
  also have "x / (1 / 2 ^ (k + 52)) = x * 2 ^ (k + 52)" by simp
  finally show ?thesis using assms(4) by simp
qed

lemma rd64_eval_large:
  assumes "2 ^ j \<le> \<bar>x\<bar>" "\<bar>x\<bar> < 2 * 2 ^ j"
    and "roundEven (x * 2 ^ 52 / 2 ^ j) = m"
  shows "rd64 x = of_int m * 2 ^ j / 2 ^ 52"
proof -
  have "(0::real) < 2 ^ j" by simp
  with assms(1) have pos: "0 < \<bar>x\<bar>" by linarith
  then have x0: "x \<noteq> 0" by simp
  have "(2::real) powr (of_int (int j)) = 2 ^ j"
    by (simp add: powr_realpow)
  moreover have "(2::real) powr (of_int (int j) + 1) = 2 * 2 ^ j"
  proof -
    have "(2::real) powr (of_int (int j) + 1) = 2 powr (of_int (int j)) * 2 powr 1"
      by (rule powr_add)
    also have "\<dots> = 2 * 2 ^ j" by (simp add: powr_realpow)
    finally show ?thesis .
  qed
  ultimately have "\<lfloor>log 2 \<bar>x\<bar>\<rfloor> = int j"
    using assms(1,2) pos by (subst floor_log_eq_powr_iff) simp_all
  then have e: "max \<lfloor>log 2 \<bar>x\<bar>\<rfloor> (- 1022) = int j" by simp
  have "(2::real) powr (real_of_int (int j) - 52) = 2 powr (real_of_int (int j)) / 2 powr 52"
    by (rule powr_diff)
  also have "\<dots> = 2 ^ j / 2 ^ 52" by (simp add: powr_realpow)
  finally have u: "(2::real) powr (real_of_int (int j) - 52) = 2 ^ j / 2 ^ 52" .
  have "rd64 x = real_of_int (roundEven (x / (2 ^ j / 2 ^ 52))) * (2 ^ j / 2 ^ 52)"
    using x0 by (simp only: rd64_def Let_def e u if_False)
  also have "x / (2 ^ j / 2 ^ 52) = x * 2 ^ 52 / 2 ^ j" by simp
  finally show ?thesis using assms(3) by simp
qed

lemma rd64_zero: "rd64 0 = 0"
  by (simp add: rd64_def)

text \<open>
  In the normal range the rounded value is within half a unit in the last place of the
  argument; so a sum that exceeds a number of at least 1 by one part in \<open>2 ^ 52\<close>
  is rounded to a value above that number.
\<close>

lemma roundEven_lower: "y - 1/2 \<le> of_int (roundEven y)"
proof -
  have f: "y < real_of_int \<lfloor>y\<rfloor> + 1" by linarith
  from roundEven_cases[of y] show ?thesis
  proof
    assume "roundEven y = \<lfloor>y\<rfloor> \<and> y - of_int \<lfloor>y\<rfloor> \<le> 1/2"
    then have "real_of_int (roundEven y) = real_of_int \<lfloor>y\<rfloor>" "y - of_int \<lfloor>y\<rfloor> \<le> 1/2"
      by simp_all
    then show ?thesis by linarith
  next
    assume "roundEven y = \<lfloor>y\<rfloor> + 1 \<and> 1/2 \<le> y - of_int \<lfloor>y\<rfloor>"
    then have "real_of_int (roundEven y) = real_of_int \<lfloor>y\<rfloor> + 1" by simp
    with f show ?thesis by linarith
  qed
qed

lemma rd64_lower:
  assumes "1 / 2 ^ k \<le> x" "k \<le> 1022"
  shows "x - x / 2 ^ 53 \<le> rd64 x"
proof -
  have "(0::real) < 1 / 2 ^ k" by simp
  with assms have pos: "0 < x" by linarith
  define e where "e = \<lfloor>log 2 \<bar>x\<bar>\<rfloor>"
  define u :: real where "u = 2 powr (of_int e - 52)"
  have "(2::real) powr (of_int (- int k)) = 1 / 2 ^ k"
    by (simp add: powr_minus_divide powr_realpow)
  with assms(1) have "2 powr (of_int (- int k)) \<le> x" by simp
  then have "of_int (- int k) \<le> log 2 x"
    using pos by (subst le_log_iff) simp_all
  then have "- int k \<le> \<lfloor>log 2 x\<rfloor>" by (simp only: le_floor_iff)
  then have e: "max \<lfloor>log 2 \<bar>x\<bar>\<rfloor> (- 1022) = e"
    using pos assms(2) by (simp add: e_def)
  have u: "0 < u" by (simp add: u_def)
  have "of_int e \<le> log 2 x" using pos by (simp add: e_def)
  then have "2 powr (of_int e) \<le> 2 powr (log 2 x)" by (intro powr_mono) simp_all
  then have pe: "2 powr (of_int e) \<le> x" using pos by simp
  have "u = 2 powr (of_int e) / 2 powr 52" unfolding u_def by (rule powr_diff)
  also have "\<dots> = 2 powr (of_int e) / 2 ^ 52" by (simp add: powr_realpow)
  also have "\<dots> \<le> x / 2 ^ 52" using pe by (intro divide_right_mono) simp_all
  finally have ub: "u \<le> x / 2 ^ 52" .
  have "x - x / 2 ^ 53 \<le> x - u / 2" using ub by simp
  also have "\<dots> = (x / u - 1/2) * u" using u by (simp add: field_simps)
  also have "\<dots> \<le> real_of_int (roundEven (x / u)) * u"
    using roundEven_lower[of "x / u"] u by (simp add: mult_right_mono)
  also have "\<dots> = rd64 x"
    using pos e by (simp add: rd64_def Let_def u_def)
  finally show ?thesis .
qed

lemma half_ulp: "x - x / 2 ^ 53 = x * (1 - 1 / 2 ^ 53)" for x :: real
  by (simp add: algebra_simps)

lemma rd64_pos:
  assumes "1 / 2 ^ k \<le> x" "k \<le> 1022"
  shows "0 < rd64 x"
proof -
  have "(0::real) < 1 / 2 ^ k" by simp
  with assms have pos: "0 < x" by linarith
  have "0 < x * (1 - 1 / 2 ^ 53)" using pos by (intro mult_pos_pos) simp_all
  then show ?thesis using rd64_lower[OF assms] half_ulp[of x] by linarith
qed

lemma rd64_above:
  assumes "1 \<le> h" "h / 2 ^ 52 \<le> v"
  shows "h < rd64 (h + v)"
proof -
  have h0: "0 < h" using assms(1) by linarith
  have x: "h * (1 + 1 / 2 ^ 52) \<le> h + v" using assms(2) by (simp add: algebra_simps)
  have "h * 1 \<le> h * (1 + 1 / 2 ^ 52)" using h0 by (intro mult_left_mono) simp_all
  with x assms(1) have x1: "1 / 2 ^ 0 \<le> h + v" by simp
  have c: "(1::real) < (1 + 1 / 2 ^ 52) * (1 - 1 / 2 ^ 53)" by simp
  have "h * 1 < h * ((1 + 1 / 2 ^ 52) * (1 - 1 / 2 ^ 53))"
    using h0 c by (rule mult_strict_left_mono[rotated])
  also have "\<dots> = (h * (1 + 1 / 2 ^ 52)) * (1 - 1 / 2 ^ 53)" by simp
  also have "\<dots> \<le> (h + v) * (1 - 1 / 2 ^ 53)"
    using x by (intro mult_right_mono) simp_all
  also have "\<dots> = (h + v) - (h + v) / 2 ^ 53" by (rule half_ulp[symmetric])
  also have "\<dots> \<le> rd64 (h + v)" by (rule rd64_lower[OF x1]) simp
  finally show ?thesis by simp
qed

subsection \<open>The rounded simulation step\<close>

lemma tickParticleR_exact: "tickParticleR (\<lambda>x. x) height p = tickParticle height p"
  by (simp add: tickParticleR_def tickParticle_def)

lemma updateParticlesR_exact: "updateParticlesR (\<lambda>x. x) ps w h = updateParticles ps w h"
proof -
  have "tickParticleR (\<lambda>x. x) h = tickParticle h"
    by (rule ext) (rule tickParticleR_exact)
  then show ?thesis by (simp add: updateParticlesR_def updateParticles_def)
qed

lemma updateParticlesR_Nil: "updateParticlesR rd [] w h = []"
  by (simp add: updateParticlesR_def)

lemma updateParticlesR_append:
  "updateParticlesR rd (xs @ ys) w h = updateParticlesR rd xs w h @ updateParticlesR rd ys w h"
  by (simp add: updateParticlesR_def)

lemma updateParticlesR_single:
  "updateParticlesR rd [p] w h =
     (if snd (tickParticleR rd h p) then [fst (tickParticleR rd h p)] else [])"
  by (simp add: updateParticlesR_def)

lemma tickParticleR_life:
  "snd (tickParticleR rd h p) = (0 < rd (p_life p - p_decay p))"
  "p_life (fst (tickParticleR rd h p)) = rd (p_life p - p_decay p)"
  "p_decay (fst (tickParticleR rd h p)) = p_decay p"
  by (simp_all add: tickParticleR_def Let_def)

lemma tickParticleR_bounce:
  assumes "height < rd (p_y p + p_vy p)" "0 < rd (p_vy p + p_gravity p)"
    "0 < rd (p_life p - p_decay p)"
  shows "tickParticleR rd height p =
     (p\<lparr> p_life := rd (p_life p - p_decay p), p_x := rd (p_x p + p_vx p),
         p_vy := rd (rd (p_vy p + p_gravity p) * (- rd 0.6)), p_y := height \<rparr>, True)"
  using assms by (cases p) (simp add: tickParticleR_def Let_def)

text \<open>
  C2, as the code has it. \<^verbatim>\<open>updateParticles\<close> adds the gravity to \<^verbatim>\<open>vy\<close> before it
  tests for the floor, so the bounce reflects the velocity that already includes this
  tick's gravity. And the floor test reads the position after the addition
  \<^verbatim>\<open>p.y += p.vy\<close>, whose binary64 result is \<open>height\<close> again when \<open>vy\<close> is small
  against \<open>height\<close>: such a particle is not above the floor and nothing is reflected.
  In the arithmetic of the program, on a canvas of height at least 1: a particle with
  \<open>y = height\<close>, with \<open>vy\<close> at least \<open>height / 2 ^ 52\<close> (so \<open>vy > 0\<close>) and with a
  gravity that is not negative, which survives the decay step, has
  \<open>vy' = -0.6 * (vy + gravity)\<close>, each operation rounded, and \<open>y' = height\<close> after the
  tick; the other particles of the population are not concerned.
\<close>

theorem floor_bounce:
  assumes "p_y p = height" and "1 \<le> height" and "height / 2 ^ 52 \<le> p_vy p"
    and "0 \<le> p_gravity p"
    and "0 < rd64 (p_life p - p_decay p)"
  shows "0 < p_vy p
       \<and> updateParticlesR rd64 (before @ [p] @ after) width height =
           updateParticlesR rd64 before width height
           @ [p\<lparr> p_life := rd64 (p_life p - p_decay p), p_x := rd64 (p_x p + p_vx p),
                 p_vy := rd64 (rd64 (p_vy p + p_gravity p) * (- rd64 0.6)), p_y := height \<rparr>]
           @ updateParticlesR rd64 after width height"
proof -
  have "(0::real) < 1 / 2 ^ 52" by simp
  then have "0 < height / 2 ^ 52" using assms(2) by simp
  with assms(3) have v: "0 < p_vy p" by linarith
  have a: "height < rd64 (p_y p + p_vy p)"
    unfolding assms(1) using assms(2,3) by (rule rd64_above)
  have "(1 / 2 ^ 52 :: real) \<le> height / 2 ^ 52"
    using assms(2) by (intro divide_right_mono) simp_all
  then have "1 / 2 ^ 52 \<le> p_vy p + p_gravity p" using assms(3,4) by linarith
  then have b: "0 < rd64 (p_vy p + p_gravity p)" by (rule rd64_pos) simp
  have "updateParticlesR rd64 [p] width height =
      [p\<lparr> p_life := rd64 (p_life p - p_decay p), p_x := rd64 (p_x p + p_vx p),
          p_vy := rd64 (rd64 (p_vy p + p_gravity p) * (- rd64 0.6)), p_y := height \<rparr>]"
    unfolding updateParticlesR_single tickParticleR_bounce[OF a b assms(5)] by simp
  then show ?thesis
    using v unfolding updateParticlesR_append by simp
qed

text \<open>The binary64 values of the literals and of the operations of the two examples.\<close>

lemma lit_06: "rd64 (6 / 10) = 5404319552844595 / 2 ^ 53"
proof -
  have "rd64 (6 / 10) = real_of_int (5404319552844595) / 2 ^ (1 + 52)"
    by (rule rd64_eval_small) (simp_all add: roundEven_def)
  then show ?thesis by simp
qed

lemma lit_01: "rd64 (1 / 10) = 3602879701896397 / 2 ^ 55"
proof -
  have "rd64 (1 / 10) = real_of_int (7205759403792794) / 2 ^ (4 + 52)"
    by (rule rd64_eval_small) (simp_all add: roundEven_def)
  then show ?thesis by simp
qed

lemma floor_vy: "rd64 (1 + 3602879701896397 / 2 ^ 55) = 2476979795053773 / 2 ^ 51"
proof -
  have "rd64 (1 + 3602879701896397 / 2 ^ 55) = real_of_int (4953959590107546) / 2 ^ (0 + 52)"
    by (rule rd64_eval_small) (simp_all add: roundEven_def)
  then show ?thesis by simp
qed

lemma floor_reflect: "rd64 (2476979795053773 / 2 ^ 51 * - (5404319552844595 / 2 ^ 53)) = - (5944751508129055 / 2 ^ 53)"
proof -
  have "rd64 (2476979795053773 / 2 ^ 51 * - (5404319552844595 / 2 ^ 53)) = real_of_int (- 5944751508129055) / 2 ^ (1 + 52)"
    by (rule rd64_eval_small) (simp_all add: roundEven_def)
  then show ?thesis by simp
qed

lemma floor_life: "rd64 (1 - 5764607523034235 / 2 ^ 58) = 2206763817411543 / 2 ^ 51"
proof -
  have "rd64 (1 - 5764607523034235 / 2 ^ 58) = real_of_int (8827055269646172) / 2 ^ (1 + 52)"
    by (rule rd64_eval_small) (simp_all add: roundEven_def)
  then show ?thesis by simp
qed

lemma floor_y: "rd64 (100 + 1) = 101"
proof -
  have "rd64 (100 + 1) = real_of_int (7107243161944064) * 2 ^ 6 / 2 ^ 52"
    by (rule rd64_eval_large) (simp_all add: roundEven_def)
  then show ?thesis by simp
qed

lemma still_y: "rd64 (720 + 1 / 2 ^ 53) = 720"
proof -
  have "rd64 (720 + 1 / 2 ^ 53) = real_of_int (6333186975989760) * 2 ^ 9 / 2 ^ 52"
    by (rule rd64_eval_large) (simp_all add: roundEven_def)
  then show ?thesis by simp
qed

lemma still_vy: "rd64 (1 / 2 ^ 53 + 3602879701896397 / 2 ^ 55) = 3602879701896401 / 2 ^ 55"
proof -
  have "rd64 (1 / 2 ^ 53 + 3602879701896397 / 2 ^ 55) = real_of_int (7205759403792802) / 2 ^ (4 + 52)"
    by (rule rd64_eval_small) (simp_all add: roundEven_def)
  then show ?thesis by simp
qed

lemma floorParticle_step:
  "rd64 (p_y floorParticle + p_vy floorParticle) = 101"
  "rd64 (p_vy floorParticle + p_gravity floorParticle) = 2476979795053773 / 2 ^ 51"
  "rd64 (p_life floorParticle - p_decay floorParticle) = 2206763817411543 / 2 ^ 51"
  "rd64 (p_x floorParticle + p_vx floorParticle) = 0"
  using floor_y floor_vy floor_life rd64_zero
  by (simp_all add: floorParticle_def)

lemma lit_06_dec: "rd64 0.6 = 5404319552844595 / 2 ^ 53"
  using lit_06 by simp

lemma stillParticle_step:
  "rd64 (p_y stillParticle + p_vy stillParticle) = 720"
  "rd64 (p_vy stillParticle + p_gravity stillParticle) = 3602879701896401 / 2 ^ 55"
  "rd64 (p_life stillParticle - p_decay stillParticle) = 2206763817411543 / 2 ^ 51"
  "rd64 (p_x stillParticle + p_vx stillParticle) = 0"
  using still_y still_vy floor_life rd64_zero
  by (simp_all add: stillParticle_def floorParticle_def)

lemma stillParticle_tick:
  "updateParticlesR rd64 [stillParticle] 1280 720 =
     [stillParticle\<lparr> p_life := 2206763817411543 / 2 ^ 51, p_x := 0, p_y := 720,
        p_vy := 3602879701896401 / 2 ^ 55 \<rparr>]"
  by (simp add: updateParticlesR_def tickParticleR_def Let_def stillParticle_step)

lemma floor_plain: "rd64 (- (5404319552844595 / 2 ^ 53) * 1) = - (5404319552844595 / 2 ^ 53)"
proof -
  have "rd64 (- (5404319552844595 / 2 ^ 53) * 1) = real_of_int (- 5404319552844595) / 2 ^ (1 + 52)"
    by (rule rd64_eval_small) (simp_all add: roundEven_def)
  then show ?thesis by simp
qed

lemma floorParticle_tick:
  "updateParticlesR rd64 [floorParticle] 1280 100 =
     [floorParticle\<lparr> p_life := 2206763817411543 / 2 ^ 51, p_x := 0,
        p_vy := - (5944751508129055 / 2 ^ 53), p_y := 100 \<rparr>]"
proof -
  have r: "100 < rd64 (p_y floorParticle + p_vy floorParticle)"
      "0 < rd64 (p_vy floorParticle + p_gravity floorParticle)"
      "0 < rd64 (p_life floorParticle - p_decay floorParticle)"
    by (simp_all add: floorParticle_step)
  have v: "rd64 (rd64 (p_vy floorParticle + p_gravity floorParticle) * (- rd64 0.6))
      = - (5944751508129055 / 2 ^ 53)"
    by (simp only: floorParticle_step lit_06_dec floor_reflect)
  show ?thesis
    unfolding updateParticlesR_single tickParticleR_bounce[OF r] v
    by (simp add: floorParticle_step)
qed

text \<open>
  The statement with \<open>vy' = -0.6 * vy\<close> fails, already over exact arithmetic, on a
  trail particle lying on the floor with \<open>vy = 1\<close> and the trail gravity 0.1: its
  velocity after the tick is \<open>-0.66\<close>; so it is in binary64 arithmetic, where the
  velocity after the tick is \<open>-5944751508129055 / 2 ^ 53\<close> and \<open>-0.6 * vy\<close> is
  \<open>-5404319552844595 / 2 ^ 53\<close>. In binary64 arithmetic it also fails on a particle
  lying on the floor at 720 with \<open>vy = 2 ^ -53\<close>: \<open>720 + 2 ^ -53\<close> rounds to 720, the
  floor test fails, and the velocity after the tick is \<open>vy + gravity\<close>, still
  downward.
\<close>

theorem floor_bounce_counterexample:
  "p_y demoParticle = 100 \<and> 0 < p_vy demoParticle
   \<and> 0 < p_life demoParticle - p_decay demoParticle
   \<and> map p_vy (updateParticles [demoParticle] 200 100) = [- 33/50]
   \<and> map p_y (updateParticles [demoParticle] 200 100) = [100]
   \<and> - 33/50 \<noteq> - 0.6 * p_vy demoParticle
   \<and> p_y floorParticle = 100 \<and> 0 < p_vy floorParticle
   \<and> map p_vy (updateParticlesR rd64 [floorParticle] 1280 100) = [- (5944751508129055 / 2 ^ 53)]
   \<and> rd64 (- rd64 0.6 * p_vy floorParticle) = - (5404319552844595 / 2 ^ 53)
   \<and> p_y stillParticle = 720 \<and> 0 < p_vy stillParticle
   \<and> 0 < rd64 (p_life stillParticle - p_decay stillParticle)
   \<and> map p_vy (updateParticlesR rd64 [stillParticle] 1280 720) = [3602879701896401 / 2 ^ 55]
   \<and> map p_y (updateParticlesR rd64 [stillParticle] 1280 720) = [720]
   \<and> (0::real) < 3602879701896401 / 2 ^ 55"
proof -
  have a: "p_y demoParticle = 100 \<and> 0 < p_vy demoParticle
   \<and> 0 < p_life demoParticle - p_decay demoParticle
   \<and> map p_vy (updateParticles [demoParticle] 200 100) = [- 33/50]
   \<and> map p_y (updateParticles [demoParticle] 200 100) = [100]
   \<and> - 33/50 \<noteq> - 0.6 * p_vy demoParticle"
    by (simp add: updateParticles_def tickParticle_def Let_def demoParticle_def)
  have f: "p_y floorParticle = 100" "0 < p_vy floorParticle"
    by (simp_all add: floorParticle_def)
  have g: "map p_vy (updateParticlesR rd64 [floorParticle] 1280 100)
      = [- (5944751508129055 / 2 ^ 53)]"
    by (simp add: floorParticle_tick)
  have "p_vy floorParticle = 1" by (simp add: floorParticle_def)
  then have i: "rd64 (- rd64 0.6 * p_vy floorParticle) = - (5404319552844595 / 2 ^ 53)"
    by (simp only: lit_06_dec floor_plain)
  have b: "p_y stillParticle = 720" "0 < p_vy stillParticle"
    by (simp_all add: stillParticle_def)
  have c: "0 < rd64 (p_life stillParticle - p_decay stillParticle)"
    by (simp add: stillParticle_step)
  have d: "map p_vy (updateParticlesR rd64 [stillParticle] 1280 720) = [3602879701896401 / 2 ^ 55]"
      "map p_y (updateParticlesR rd64 [stillParticle] 1280 720) = [720]"
    by (simp_all add: stillParticle_tick)
  have e: "(0::real) < 3602879701896401 / 2 ^ 55" by simp
  from a f g i b c d e show ?thesis by blast
qed

theorem floor_bounce_witness:
  "p_y floorParticle = 100 \<and> (1::real) \<le> 100 \<and> 100 / 2 ^ 52 \<le> p_vy floorParticle
   \<and> 0 \<le> p_gravity floorParticle
   \<and> 0 < rd64 (p_life floorParticle - p_decay floorParticle)
   \<and> updateParticlesR rd64 [floorParticle] 1280 100 =
       [floorParticle\<lparr> p_life := 2206763817411543 / 2 ^ 51, p_x := 0,
          p_vy := - (5944751508129055 / 2 ^ 53), p_y := 100 \<rparr>]"
proof -
  have h: "p_y floorParticle = 100" "(1::real) \<le> 100" "100 / 2 ^ 52 \<le> p_vy floorParticle"
      "0 \<le> p_gravity floorParticle"
    by (simp_all add: floorParticle_def)
  have r: "0 < rd64 (p_life floorParticle - p_decay floorParticle)"
    by (simp add: floorParticle_step)
  have v: "rd64 (rd64 (p_vy floorParticle + p_gravity floorParticle) * (- rd64 0.6))
      = - (5944751508129055 / 2 ^ 53)"
    by (simp only: floorParticle_step lit_06_dec floor_reflect)
  from floor_bounce[OF h r, where before = "[]" and after = "[]" and width = 1280]
  show ?thesis using h r v
    by (simp add: updateParticlesR_Nil floorParticle_step)
qed

subsection \<open>Expiry\<close>

lemma ticks_0: "ticks 0 w h ps = ps"
  by (simp add: ticks_def)

lemma ticks_Suc: "ticks (Suc n) w h ps = updateParticles (ticks n w h ps) w h"
  by (simp add: ticks_def)

lemma ticks_append: "ticks n w h (xs @ ys) = ticks n w h xs @ ticks n w h ys"
  by (induction n) (simp_all add: ticks_0 ticks_Suc updateParticles_append)

lemma ticks_Nil: "ticks n w h [] = []"
  by (induction n) (simp_all add: ticks_0 ticks_Suc updateParticles_Nil)

lemma ticks_single:
  "ticks n w h [p] = [] \<or>
   (\<exists>q. ticks n w h [p] = [q] \<and> p_decay q = p_decay p
        \<and> p_life q = p_life p - real n * p_decay p \<and> (0 < n \<longrightarrow> 0 < p_life q))"
proof (induction n)
  case 0
  then show ?case by (simp add: ticks_0)
next
  case (Suc n)
  from Suc show ?case
  proof
    assume "ticks n w h [p] = []"
    then show ?thesis by (simp add: ticks_Suc updateParticles_Nil)
  next
    assume "\<exists>q. ticks n w h [p] = [q] \<and> p_decay q = p_decay p
        \<and> p_life q = p_life p - real n * p_decay p \<and> (0 < n \<longrightarrow> 0 < p_life q)"
    then obtain q where q: "ticks n w h [p] = [q]" "p_decay q = p_decay p"
        "p_life q = p_life p - real n * p_decay p" by blast
    show ?thesis
    proof (cases "0 < p_life q - p_decay q")
      case True
      note t = tickParticle_alive[OF True, of h]
      have "ticks (Suc n) w h [p] = [fst (tickParticle h q)]"
        using t q(1) by (simp add: ticks_Suc updateParticles_single)
      moreover have "p_life (fst (tickParticle h q)) = p_life p - real (Suc n) * p_decay p"
        using t q(2,3) by (simp add: algebra_simps)
      moreover have "0 < p_life (fst (tickParticle h q))"
        using t True by simp
      moreover have "p_decay (fst (tickParticle h q)) = p_decay p"
        using t q(2) by simp
      ultimately show ?thesis by blast
    next
      case False
      then have "tickParticle h q = (q\<lparr> p_life := p_life q - p_decay q \<rparr>, False)"
        by (simp add: tickParticle_dead)
      then show ?thesis using q by (simp add: ticks_Suc updateParticles_single)
    qed
  qed
qed

text \<open>Over exact arithmetic the particle is gone after \<open>ceil(1 / decay)\<close> ticks.\<close>

lemma ticks_expired:
  assumes d: "0 < p_decay p" and l: "p_life p \<le> 1" and n: "\<lceil>1 / p_decay p\<rceil> \<le> int n"
  shows "ticks n w h [p] = []"
proof -
  have "1 / p_decay p \<le> real_of_int \<lceil>1 / p_decay p\<rceil>" by (rule le_of_int_ceiling)
  also have "\<dots> \<le> real n" using n by linarith
  finally have "1 \<le> real n * p_decay p" using d by (simp add: field_simps)
  with l have dead: "p_life p - real n * p_decay p \<le> 0" by simp
  have pos: "0 < n" using n d by (cases n) simp_all
  from ticks_single[of n w h p] dead pos show ?thesis by auto
qed

subsection \<open>Expiry in binary64 arithmetic\<close>

lemma ticksR_0: "ticksR rd 0 w h ps = ps"
  by (simp add: ticksR_def)

lemma ticksR_Suc: "ticksR rd (Suc n) w h ps = ticksR rd n w h (updateParticlesR rd ps w h)"
  by (simp only: ticksR_def funpow_Suc_right o_apply)

lemma ticksR_Nil: "ticksR rd n w h [] = []"
  by (induction n) (simp_all add: ticksR_0 ticksR_Suc updateParticlesR_Nil)

lemma ticksR_append: "ticksR rd n w h (xs @ ys) = ticksR rd n w h xs @ ticksR rd n w h ys"
  by (induction n arbitrary: xs ys) (simp_all add: ticksR_0 ticksR_Suc updateParticlesR_append)

lemma ticksR_lives:
  "map p_life (ticksR rd n w h [p]) =
     (case lifeAfter rd n (p_life p) (p_decay p) of None \<Rightarrow> [] | Some l \<Rightarrow> [l])"
proof (induction n arbitrary: p)
  case 0
  then show ?case by (simp add: ticksR_0)
next
  case (Suc n)
  show ?case
  proof (cases "0 < rd (p_life p - p_decay p)")
    case True
    then have "updateParticlesR rd [p] w h = [fst (tickParticleR rd h p)]"
      by (simp add: updateParticlesR_single tickParticleR_life)
    with True Suc[of "fst (tickParticleR rd h p)"] show ?thesis
      by (simp add: ticksR_Suc tickParticleR_life)
  next
    case False
    then have "updateParticlesR rd [p] w h = []"
      by (simp add: updateParticlesR_single tickParticleR_life)
    with False show ?thesis by (simp add: ticksR_Suc ticksR_Nil)
  qed
qed

lemma lifeAfter_bound:
  assumes neg: "\<And>x. x \<le> 0 \<Longrightarrow> rd x \<le> 0"
    and up: "\<And>x. 0 < x \<Longrightarrow> x \<le> 1 \<Longrightarrow> rd x \<le> x + eps"
    and eps: "0 \<le> eps" "eps \<le> d"
  shows "l \<le> 1 \<Longrightarrow> lifeAfter rd n l d = Some l' \<Longrightarrow>
         l' \<le> l - real n * (d - eps) \<and> (0 < n \<longrightarrow> 0 < l')"
proof (induction n arbitrary: l)
  case 0
  then show ?case by simp
next
  case (Suc n)
  let ?x = "l - d"
  from Suc.prems(2) have alive: "0 < rd ?x" and rest: "lifeAfter rd n (rd ?x) d = Some l'"
    by (simp_all split: if_splits)
  have xpos: "0 < ?x"
  proof (rule ccontr)
    assume "\<not> 0 < ?x"
    then have "rd ?x \<le> 0" by (intro neg) simp
    with alive show False by simp
  qed
  have x1: "?x \<le> 1" using Suc.prems(1) eps by linarith
  have r: "rd ?x \<le> l - (d - eps)" using up[OF xpos x1] by simp
  with Suc.prems(1) eps have r1: "rd ?x \<le> 1" by linarith
  from Suc.IH[OF r1 rest] have ih: "l' \<le> rd ?x - real n * (d - eps)"
    and pos: "0 < n \<longrightarrow> 0 < l'" by simp_all
  have "rd ?x - real n * (d - eps) \<le> l - (d - eps) - real n * (d - eps)"
    using r by simp
  also have "\<dots> = l - real (Suc n) * (d - eps)" by (simp add: algebra_simps)
  finally have "l' \<le> l - real (Suc n) * (d - eps)" using ih by linarith
  moreover have "0 < l'"
  proof (cases n)
    case 0
    with rest alive show ?thesis by simp
  next
    case (Suc m)
    with pos show ?thesis by simp
  qed
  ultimately show ?case by simp
qed

lemma lifeAfter_expired:
  assumes neg: "\<And>x. x \<le> 0 \<Longrightarrow> rd x \<le> 0"
    and up: "\<And>x. 0 < x \<Longrightarrow> x \<le> 1 \<Longrightarrow> rd x \<le> x + eps"
    and eps: "0 \<le> eps" "eps \<le> d"
    and l: "l \<le> 1" and n: "0 < n" "1 \<le> real n * (d - eps)"
  shows "lifeAfter rd n l d = None"
proof (cases "lifeAfter rd n l d")
  case None
  then show ?thesis .
next
  case (Some l')
  from lifeAfter_bound[of rd eps d l n l', OF neg up eps l Some] n(1)
  have "l' \<le> l - real n * (d - eps)" "0 < l'" by simp_all
  with l n(2) show ?thesis by linarith
qed

lemma expiry_arith:
  fixes d :: real
  assumes d: "1 / 2 ^ 26 \<le> d" and n: "\<lceil>1 / d\<rceil> + 1 \<le> int n"
  shows "1 \<le> real n * (d - 1 / 2 ^ 53)" "1 / 2 ^ 53 \<le> d" "0 < n"
proof -
  have d0: "0 < d" using d by (rule less_le_trans[rotated]) simp
  have "1 / d \<le> real_of_int \<lceil>1 / d\<rceil>" by (rule le_of_int_ceiling)
  also have "\<dots> \<le> real n - 1" using n by linarith
  finally have n1: "1 / d + 1 \<le> real n" by simp
  show "0 < n"
  proof (rule ccontr)
    assume "\<not> 0 < n"
    then have "real n = 0" by simp
    with n1 have "1 / d + 1 \<le> 0" by simp
    moreover have "0 < 1 / d" using d0 by simp
    ultimately show False by linarith
  qed
  have "(1 / 2 ^ 53 :: real) \<le> 1 / 2 ^ 26" by simp
  with d show e: "1 / 2 ^ 53 \<le> d" by linarith
  have gap: "0 \<le> d - 1 / 2 ^ 53" using e by simp
  have "(1 / d + 1) * (d - 1 / 2 ^ 53) \<le> real n * (d - 1 / 2 ^ 53)"
    using n1 gap by (rule mult_right_mono)
  moreover have "1 \<le> (1 / d + 1) * (d - 1 / 2 ^ 53)"
  proof -
    have "(1 / d + 1) * (d - 1 / 2 ^ 53) = 1 + (d - (1 / d + 1) / 2 ^ 53)"
      using d0 by (simp add: field_simps)
    moreover have "(1 / d + 1) / 2 ^ 53 \<le> d"
    proof -
      have "1 / d \<le> 2 ^ 26"
      proof -
        have "1 / d \<le> 1 / (1 / 2 ^ 26)" using d by (intro divide_left_mono) simp_all
        then show ?thesis by simp
      qed
      then have "(1 / d + 1) / 2 ^ 53 \<le> (2 ^ 26 + 1) / 2 ^ 53"
        by (intro divide_right_mono) simp_all
      also have "\<dots> \<le> (1 / 2 ^ 26 :: real)" by simp
      finally show ?thesis using d by linarith
    qed
    ultimately show ?thesis by linarith
  qed
  ultimately show "1 \<le> real n * (d - 1 / 2 ^ 53)" by linarith
qed

lemma ticksR_rd64_expired:
  assumes "p_life p \<le> 1" "1 / 2 ^ 26 \<le> p_decay p" "\<lceil>1 / p_decay p\<rceil> + 1 \<le> int n"
  shows "ticksR rd64 n w h [p] = []"
proof -
  note a = expiry_arith[OF assms(2,3)]
  have e0: "(0::real) \<le> 1 / 2 ^ 53" by simp
  have "lifeAfter rd64 n (p_life p) (p_decay p) = None"
    by (rule lifeAfter_expired[where eps = "1 / 2 ^ 53", OF rd64_nonpos rd64_upper e0 a(2) assms(1) a(3) a(1)])
  then have "map p_life (ticksR rd64 n w h [p]) = []"
    by (simp add: ticksR_lives)
  then show ?thesis by simp
qed

text \<open>
  C6, as the code has it. The life of a particle is decremented in binary64 arithmetic,
  and the rounded differences can leave a life of a few units in the last place after
  \<open>ceil(1 / decay)\<close> ticks, where exact arithmetic leaves none (\<open>ticks_expired\<close>); one
  more tick removes the particle. A particle of the population with a life of at most 1
  and a decay of at least \<open>2 ^ -26\<close> (every particle the factory makes has life 1 and a
  decay of at least 0.01) has left the population after \<open>ceil(1 / decay) + 1\<close> ticks
  of \<^verbatim>\<open>updateParticles\<close>, or any larger number of ticks, with no further emission:
  the population is then what the particles before and after it leave.
\<close>

theorem particle_expiry:
  assumes "p_life p \<le> 1" and "1 / 2 ^ 26 \<le> p_decay p"
    and "\<lceil>1 / p_decay p\<rceil> + 1 \<le> int n"
  shows "ticksR rd64 n width height (before @ [p] @ after) =
           ticksR rd64 n width height before @ ticksR rd64 n width height after"
proof -
  have "ticksR rd64 n width height [p] = []"
    using assms by (rule ticksR_rd64_expired)
  then show ?thesis
    unfolding ticksR_append by simp
qed

theorem particle_expiry_witness:
  "p_life lateParticle \<le> 1 \<and> 1 / 2 ^ 26 \<le> p_decay lateParticle
   \<and> \<lceil>1 / p_decay lateParticle\<rceil> + 1 \<le> int 23
   \<and> ticksR rd64 23 1280 720 [lateParticle] = []"
proof -
  have h: "p_life lateParticle \<le> 1" "1 / 2 ^ 26 \<le> p_decay lateParticle"
      "\<lceil>1 / p_decay lateParticle\<rceil> + 1 \<le> int 23"
    by (simp_all add: lateParticle_def)
  from particle_expiry[OF h, where before = "[]" and after = "[]" and width = 1280
      and height = 720]
  show ?thesis using h by (simp add: ticksR_Nil)
qed

text \<open>
  The 22 decrements of the life of \<open>lateParticle\<close>, and the operations by which the
  trail factory makes its decay, \<^verbatim>\<open>0.02 + Math.random() * 0.03\<close>.
\<close>

lemma lifeAfter_step:
  "rd (l - d) = l' \<Longrightarrow> 0 < l' \<Longrightarrow> n = Suc m \<Longrightarrow> lifeAfter rd n l d = lifeAfter rd m l' d"
  by simp

lemma late_step_1: "rd64 (1 - 3275345183542179 / 2 ^ 56) = 68782248854385760 / 2 ^ 56"
proof -
  have "rd64 (1 - 3275345183542179 / 2 ^ 56) = real_of_int 8597781106798220 / 2 ^ (1 + 52)"
    by (rule rd64_eval_small) (simp_all add: roundEven_def)
  then show ?thesis by simp
qed

lemma late_step_2: "rd64 (68782248854385760 / 2 ^ 56 - 3275345183542179 / 2 ^ 56) = 65506903670843584 / 2 ^ 56"
proof -
  have "rd64 (68782248854385760 / 2 ^ 56 - 3275345183542179 / 2 ^ 56) = real_of_int 8188362958855448 / 2 ^ (1 + 52)"
    by (rule rd64_eval_small) (simp_all add: roundEven_def)
  then show ?thesis by simp
qed

lemma late_step_3: "rd64 (65506903670843584 / 2 ^ 56 - 3275345183542179 / 2 ^ 56) = 62231558487301408 / 2 ^ 56"
proof -
  have "rd64 (65506903670843584 / 2 ^ 56 - 3275345183542179 / 2 ^ 56) = real_of_int 7778944810912676 / 2 ^ (1 + 52)"
    by (rule rd64_eval_small) (simp_all add: roundEven_def)
  then show ?thesis by simp
qed

lemma late_step_4: "rd64 (62231558487301408 / 2 ^ 56 - 3275345183542179 / 2 ^ 56) = 58956213303759232 / 2 ^ 56"
proof -
  have "rd64 (62231558487301408 / 2 ^ 56 - 3275345183542179 / 2 ^ 56) = real_of_int 7369526662969904 / 2 ^ (1 + 52)"
    by (rule rd64_eval_small) (simp_all add: roundEven_def)
  then show ?thesis by simp
qed

lemma late_step_5: "rd64 (58956213303759232 / 2 ^ 56 - 3275345183542179 / 2 ^ 56) = 55680868120217056 / 2 ^ 56"
proof -
  have "rd64 (58956213303759232 / 2 ^ 56 - 3275345183542179 / 2 ^ 56) = real_of_int 6960108515027132 / 2 ^ (1 + 52)"
    by (rule rd64_eval_small) (simp_all add: roundEven_def)
  then show ?thesis by simp
qed

lemma late_step_6: "rd64 (55680868120217056 / 2 ^ 56 - 3275345183542179 / 2 ^ 56) = 52405522936674880 / 2 ^ 56"
proof -
  have "rd64 (55680868120217056 / 2 ^ 56 - 3275345183542179 / 2 ^ 56) = real_of_int 6550690367084360 / 2 ^ (1 + 52)"
    by (rule rd64_eval_small) (simp_all add: roundEven_def)
  then show ?thesis by simp
qed

lemma late_step_7: "rd64 (52405522936674880 / 2 ^ 56 - 3275345183542179 / 2 ^ 56) = 49130177753132704 / 2 ^ 56"
proof -
  have "rd64 (52405522936674880 / 2 ^ 56 - 3275345183542179 / 2 ^ 56) = real_of_int 6141272219141588 / 2 ^ (1 + 52)"
    by (rule rd64_eval_small) (simp_all add: roundEven_def)
  then show ?thesis by simp
qed

lemma late_step_8: "rd64 (49130177753132704 / 2 ^ 56 - 3275345183542179 / 2 ^ 56) = 45854832569590528 / 2 ^ 56"
proof -
  have "rd64 (49130177753132704 / 2 ^ 56 - 3275345183542179 / 2 ^ 56) = real_of_int 5731854071198816 / 2 ^ (1 + 52)"
    by (rule rd64_eval_small) (simp_all add: roundEven_def)
  then show ?thesis by simp
qed

lemma late_step_9: "rd64 (45854832569590528 / 2 ^ 56 - 3275345183542179 / 2 ^ 56) = 42579487386048352 / 2 ^ 56"
proof -
  have "rd64 (45854832569590528 / 2 ^ 56 - 3275345183542179 / 2 ^ 56) = real_of_int 5322435923256044 / 2 ^ (1 + 52)"
    by (rule rd64_eval_small) (simp_all add: roundEven_def)
  then show ?thesis by simp
qed

lemma late_step_10: "rd64 (42579487386048352 / 2 ^ 56 - 3275345183542179 / 2 ^ 56) = 39304142202506176 / 2 ^ 56"
proof -
  have "rd64 (42579487386048352 / 2 ^ 56 - 3275345183542179 / 2 ^ 56) = real_of_int 4913017775313272 / 2 ^ (1 + 52)"
    by (rule rd64_eval_small) (simp_all add: roundEven_def)
  then show ?thesis by simp
qed

lemma late_step_11: "rd64 (39304142202506176 / 2 ^ 56 - 3275345183542179 / 2 ^ 56) = 36028797018964000 / 2 ^ 56"
proof -
  have "rd64 (39304142202506176 / 2 ^ 56 - 3275345183542179 / 2 ^ 56) = real_of_int 4503599627370500 / 2 ^ (1 + 52)"
    by (rule rd64_eval_small) (simp_all add: roundEven_def)
  then show ?thesis by simp
qed

lemma late_step_12: "rd64 (36028797018964000 / 2 ^ 56 - 3275345183542179 / 2 ^ 56) = 32753451835421820 / 2 ^ 56"
proof -
  have "rd64 (36028797018964000 / 2 ^ 56 - 3275345183542179 / 2 ^ 56) = real_of_int 8188362958855455 / 2 ^ (2 + 52)"
    by (rule rd64_eval_small) (simp_all add: roundEven_def)
  then show ?thesis by simp
qed

lemma late_step_13: "rd64 (32753451835421820 / 2 ^ 56 - 3275345183542179 / 2 ^ 56) = 29478106651879640 / 2 ^ 56"
proof -
  have "rd64 (32753451835421820 / 2 ^ 56 - 3275345183542179 / 2 ^ 56) = real_of_int 7369526662969910 / 2 ^ (2 + 52)"
    by (rule rd64_eval_small) (simp_all add: roundEven_def)
  then show ?thesis by simp
qed

lemma late_step_14: "rd64 (29478106651879640 / 2 ^ 56 - 3275345183542179 / 2 ^ 56) = 26202761468337460 / 2 ^ 56"
proof -
  have "rd64 (29478106651879640 / 2 ^ 56 - 3275345183542179 / 2 ^ 56) = real_of_int 6550690367084365 / 2 ^ (2 + 52)"
    by (rule rd64_eval_small) (simp_all add: roundEven_def)
  then show ?thesis by simp
qed

lemma late_step_15: "rd64 (26202761468337460 / 2 ^ 56 - 3275345183542179 / 2 ^ 56) = 22927416284795280 / 2 ^ 56"
proof -
  have "rd64 (26202761468337460 / 2 ^ 56 - 3275345183542179 / 2 ^ 56) = real_of_int 5731854071198820 / 2 ^ (2 + 52)"
    by (rule rd64_eval_small) (simp_all add: roundEven_def)
  then show ?thesis by simp
qed

lemma late_step_16: "rd64 (22927416284795280 / 2 ^ 56 - 3275345183542179 / 2 ^ 56) = 19652071101253100 / 2 ^ 56"
proof -
  have "rd64 (22927416284795280 / 2 ^ 56 - 3275345183542179 / 2 ^ 56) = real_of_int 4913017775313275 / 2 ^ (2 + 52)"
    by (rule rd64_eval_small) (simp_all add: roundEven_def)
  then show ?thesis by simp
qed

lemma late_step_17: "rd64 (19652071101253100 / 2 ^ 56 - 3275345183542179 / 2 ^ 56) = 16376725917710920 / 2 ^ 56"
proof -
  have "rd64 (19652071101253100 / 2 ^ 56 - 3275345183542179 / 2 ^ 56) = real_of_int 8188362958855460 / 2 ^ (3 + 52)"
    by (rule rd64_eval_small) (simp_all add: roundEven_def)
  then show ?thesis by simp
qed

lemma late_step_18: "rd64 (16376725917710920 / 2 ^ 56 - 3275345183542179 / 2 ^ 56) = 13101380734168740 / 2 ^ 56"
proof -
  have "rd64 (16376725917710920 / 2 ^ 56 - 3275345183542179 / 2 ^ 56) = real_of_int 6550690367084370 / 2 ^ (3 + 52)"
    by (rule rd64_eval_small) (simp_all add: roundEven_def)
  then show ?thesis by simp
qed

lemma late_step_19: "rd64 (13101380734168740 / 2 ^ 56 - 3275345183542179 / 2 ^ 56) = 9826035550626560 / 2 ^ 56"
proof -
  have "rd64 (13101380734168740 / 2 ^ 56 - 3275345183542179 / 2 ^ 56) = real_of_int 4913017775313280 / 2 ^ (3 + 52)"
    by (rule rd64_eval_small) (simp_all add: roundEven_def)
  then show ?thesis by simp
qed

lemma late_step_20: "rd64 (9826035550626560 / 2 ^ 56 - 3275345183542179 / 2 ^ 56) = 6550690367084381 / 2 ^ 56"
proof -
  have "rd64 (9826035550626560 / 2 ^ 56 - 3275345183542179 / 2 ^ 56) = real_of_int 6550690367084381 / 2 ^ (4 + 52)"
    by (rule rd64_eval_small) (simp_all add: roundEven_def)
  then show ?thesis by simp
qed

lemma late_step_21: "rd64 (6550690367084381 / 2 ^ 56 - 3275345183542179 / 2 ^ 56) = 3275345183542202 / 2 ^ 56"
proof -
  have "rd64 (6550690367084381 / 2 ^ 56 - 3275345183542179 / 2 ^ 56) = real_of_int 6550690367084404 / 2 ^ (5 + 52)"
    by (rule rd64_eval_small) (simp_all add: roundEven_def)
  then show ?thesis by simp
qed

lemma late_step_22: "rd64 (3275345183542202 / 2 ^ 56 - 3275345183542179 / 2 ^ 56) = 23 / 2 ^ 56"
proof -
  have "rd64 (3275345183542202 / 2 ^ 56 - 3275345183542179 / 2 ^ 56) = real_of_int 6473924464345088 / 2 ^ (52 + 52)"
    by (rule rd64_eval_small) (simp_all add: roundEven_def)
  then show ?thesis by simp
qed

lemma late_chain: "lifeAfter rd64 22 1 (3275345183542179 / 2 ^ 56) = Some (23 / 2 ^ 56)"
proof -
  have "lifeAfter rd64 22 1 (3275345183542179 / 2 ^ 56) = lifeAfter rd64 21 (68782248854385760 / 2 ^ 56) (3275345183542179 / 2 ^ 56)"
    by (rule lifeAfter_step[where rd = rd64, OF late_step_1]) simp_all
  also have "\<dots> = lifeAfter rd64 20 (65506903670843584 / 2 ^ 56) (3275345183542179 / 2 ^ 56)"
    by (rule lifeAfter_step[where rd = rd64, OF late_step_2]) simp_all
  also have "\<dots> = lifeAfter rd64 19 (62231558487301408 / 2 ^ 56) (3275345183542179 / 2 ^ 56)"
    by (rule lifeAfter_step[where rd = rd64, OF late_step_3]) simp_all
  also have "\<dots> = lifeAfter rd64 18 (58956213303759232 / 2 ^ 56) (3275345183542179 / 2 ^ 56)"
    by (rule lifeAfter_step[where rd = rd64, OF late_step_4]) simp_all
  also have "\<dots> = lifeAfter rd64 17 (55680868120217056 / 2 ^ 56) (3275345183542179 / 2 ^ 56)"
    by (rule lifeAfter_step[where rd = rd64, OF late_step_5]) simp_all
  also have "\<dots> = lifeAfter rd64 16 (52405522936674880 / 2 ^ 56) (3275345183542179 / 2 ^ 56)"
    by (rule lifeAfter_step[where rd = rd64, OF late_step_6]) simp_all
  also have "\<dots> = lifeAfter rd64 15 (49130177753132704 / 2 ^ 56) (3275345183542179 / 2 ^ 56)"
    by (rule lifeAfter_step[where rd = rd64, OF late_step_7]) simp_all
  also have "\<dots> = lifeAfter rd64 14 (45854832569590528 / 2 ^ 56) (3275345183542179 / 2 ^ 56)"
    by (rule lifeAfter_step[where rd = rd64, OF late_step_8]) simp_all
  also have "\<dots> = lifeAfter rd64 13 (42579487386048352 / 2 ^ 56) (3275345183542179 / 2 ^ 56)"
    by (rule lifeAfter_step[where rd = rd64, OF late_step_9]) simp_all
  also have "\<dots> = lifeAfter rd64 12 (39304142202506176 / 2 ^ 56) (3275345183542179 / 2 ^ 56)"
    by (rule lifeAfter_step[where rd = rd64, OF late_step_10]) simp_all
  also have "\<dots> = lifeAfter rd64 11 (36028797018964000 / 2 ^ 56) (3275345183542179 / 2 ^ 56)"
    by (rule lifeAfter_step[where rd = rd64, OF late_step_11]) simp_all
  also have "\<dots> = lifeAfter rd64 10 (32753451835421820 / 2 ^ 56) (3275345183542179 / 2 ^ 56)"
    by (rule lifeAfter_step[where rd = rd64, OF late_step_12]) simp_all
  also have "\<dots> = lifeAfter rd64 9 (29478106651879640 / 2 ^ 56) (3275345183542179 / 2 ^ 56)"
    by (rule lifeAfter_step[where rd = rd64, OF late_step_13]) simp_all
  also have "\<dots> = lifeAfter rd64 8 (26202761468337460 / 2 ^ 56) (3275345183542179 / 2 ^ 56)"
    by (rule lifeAfter_step[where rd = rd64, OF late_step_14]) simp_all
  also have "\<dots> = lifeAfter rd64 7 (22927416284795280 / 2 ^ 56) (3275345183542179 / 2 ^ 56)"
    by (rule lifeAfter_step[where rd = rd64, OF late_step_15]) simp_all
  also have "\<dots> = lifeAfter rd64 6 (19652071101253100 / 2 ^ 56) (3275345183542179 / 2 ^ 56)"
    by (rule lifeAfter_step[where rd = rd64, OF late_step_16]) simp_all
  also have "\<dots> = lifeAfter rd64 5 (16376725917710920 / 2 ^ 56) (3275345183542179 / 2 ^ 56)"
    by (rule lifeAfter_step[where rd = rd64, OF late_step_17]) simp_all
  also have "\<dots> = lifeAfter rd64 4 (13101380734168740 / 2 ^ 56) (3275345183542179 / 2 ^ 56)"
    by (rule lifeAfter_step[where rd = rd64, OF late_step_18]) simp_all
  also have "\<dots> = lifeAfter rd64 3 (9826035550626560 / 2 ^ 56) (3275345183542179 / 2 ^ 56)"
    by (rule lifeAfter_step[where rd = rd64, OF late_step_19]) simp_all
  also have "\<dots> = lifeAfter rd64 2 (6550690367084381 / 2 ^ 56) (3275345183542179 / 2 ^ 56)"
    by (rule lifeAfter_step[where rd = rd64, OF late_step_20]) simp_all
  also have "\<dots> = lifeAfter rd64 1 (3275345183542202 / 2 ^ 56) (3275345183542179 / 2 ^ 56)"
    by (rule lifeAfter_step[where rd = rd64, OF late_step_21]) simp_all
  also have "\<dots> = lifeAfter rd64 0 (23 / 2 ^ 56) (3275345183542179 / 2 ^ 56)"
    by (rule lifeAfter_step[where rd = rd64, OF late_step_22]) simp_all
  also have "\<dots> = Some (23 / 2 ^ 56)" by simp
  finally show ?thesis .
qed

lemma lit_002: "rd64 (2 / 100) = 5764607523034235 / 2 ^ 58"
proof -
  have "rd64 (2 / 100) = real_of_int (5764607523034235) / 2 ^ (6 + 52)"
    by (rule rd64_eval_small) (simp_all add: roundEven_def)
  then show ?thesis by simp
qed

lemma lit_003: "rd64 (3 / 100) = 1080863910568919 / 2 ^ 55"
proof -
  have "rd64 (3 / 100) = real_of_int (8646911284551352) / 2 ^ (6 + 52)"
    by (rule rd64_eval_small) (simp_all add: roundEven_def)
  then show ?thesis by simp
qed

lemma late_product: "rd64 (3821236047465875 / 2 ^ 52 * (1080863910568919 / 2 ^ 55)) = 458548325695905 / 2 ^ 54"
proof -
  have "rd64 (3821236047465875 / 2 ^ 52 * (1080863910568919 / 2 ^ 55)) = real_of_int (7336773211134480) / 2 ^ (6 + 52)"
    by (rule rd64_eval_small) (simp_all add: roundEven_def)
  then show ?thesis by simp
qed

lemma late_sum: "rd64 (5764607523034235 / 2 ^ 58 + 458548325695905 / 2 ^ 54) = 3275345183542179 / 2 ^ 56"
proof -
  have "rd64 (5764607523034235 / 2 ^ 58 + 458548325695905 / 2 ^ 54) = real_of_int (6550690367084358) / 2 ^ (5 + 52)"
    by (rule rd64_eval_small) (simp_all add: roundEven_def)
  then show ?thesis by simp
qed

lemma late_decay_made:
  "rd64 (rd64 (2 / 100) + rd64 (3821236047465875 / 2 ^ 52 * rd64 (3 / 100))) = p_decay lateParticle"
  by (simp only: lit_002 lit_003 late_product late_sum) (simp add: lateParticle_def)

text \<open>
  The statement with \<open>ceil(1 / decay)\<close> ticks fails on a trail particle whose decay
  the factory makes from the random number \<open>3821236047465875 / 2 ^ 52\<close>, about 0.848:
  \<open>ceil(1 / decay)\<close> is 22, and after 22 ticks the particle is still in the
  population, with the life \<open>23 / 2 ^ 56\<close>.
\<close>

theorem particle_expiry_counterexample:
  "p_life lateParticle = 1
   \<and> p_decay lateParticle =
       rd64 (rd64 (2 / 100) + rd64 (3821236047465875 / 2 ^ 52 * rd64 (3 / 100)))
   \<and> \<lceil>1 / p_decay lateParticle\<rceil> = 22
   \<and> map p_life (ticksR rd64 22 1280 720 [lateParticle]) = [23 / 2 ^ 56]
   \<and> (0::real) < 23 / 2 ^ 56"
proof -
  have a: "p_life lateParticle = 1" "\<lceil>1 / p_decay lateParticle\<rceil> = 22"
    by (simp_all add: lateParticle_def)
  have b: "map p_life (ticksR rd64 22 1280 720 [lateParticle]) = [23 / 2 ^ 56]"
    using late_chain by (simp add: ticksR_lives lateParticle_def)
  have c: "(0::real) < 23 / 2 ^ 56" by simp
  from a b c late_decay_made[symmetric] show ?thesis by blast
qed

subsection \<open>The burst palette\<close>

lemma burstLoop_nth:
  "k < n \<Longrightarrow> burstLoop g s x y n ! k = burstParticle g (s + 5 * k) x y"
proof (induction n arbitrary: s k)
  case 0
  then show ?case by simp
next
  case (Suc n)
  show ?case
  proof (cases k)
    case 0
    then show ?thesis by simp
  next
    case (Suc j)
    with Suc.prems have "j < n" by simp
    from Suc.IH[OF this, of "s + 5"] Suc show ?thesis by (simp add: algebra_simps)
  qed
qed

lemma burstColorBase_index:
  assumes "0 \<le> r" "r < 1"
  shows "nat \<lfloor>r * 4\<rfloor> < 4 \<and> burstColorBase r = BURST_COLORS ! nat \<lfloor>r * 4\<rfloor>"
proof -
  have lo: "0 \<le> \<lfloor>r * 4\<rfloor>" using assms by simp
  have hi: "\<lfloor>r * 4\<rfloor> < 4" using assms by (simp add: floor_less_iff)
  from lo hi have "nat \<lfloor>r * 4\<rfloor> < 4" by linarith
  moreover have "burstColorBase r = BURST_COLORS ! nat \<lfloor>r * 4\<rfloor>"
    using lo hi by (simp add: burstColorBase_def BURST_COLORS_def Let_def)
  ultimately show ?thesis by simp
qed

lemma BURST_COLORS_distinct: "distinct BURST_COLORS \<and> length BURST_COLORS = 4"
  by (simp add: BURST_COLORS_def)

lemma burstColorBase_interval:
  assumes "0 \<le> r" "r < 1" "i < 4"
  shows "(burstColorBase r = BURST_COLORS ! i) = (real i / 4 \<le> r \<and> r < (real i + 1) / 4)"
proof -
  from burstColorBase_index[OF assms(1,2)]
  have idx: "nat \<lfloor>r * 4\<rfloor> < 4" "burstColorBase r = BURST_COLORS ! nat \<lfloor>r * 4\<rfloor>" by simp_all
  have "(BURST_COLORS ! nat \<lfloor>r * 4\<rfloor> = BURST_COLORS ! i) = (nat \<lfloor>r * 4\<rfloor> = i)"
    using idx(1) assms(3) BURST_COLORS_distinct by (simp add: nth_eq_iff_index_eq)
  also have "\<dots> = (\<lfloor>r * 4\<rfloor> = int i)"
    using assms(1) by (auto simp add: nat_eq_iff)
  also have "\<dots> = (real i / 4 \<le> r \<and> r < (real i + 1) / 4)"
    by (simp add: floor_eq_iff field_simps)
  finally show ?thesis using idx(2) by simp
qed

text \<open>
  C4, as the code has it. With \<^verbatim>\<open>Math.random()\<close> in \<open>[0, 1)\<close>, the colour of the
  \<open>k\<close>-th particle of a burst batch is the entry \<open>floor(r * 4)\<close> of the four-entry
  palette \<^verbatim>\<open>BURST_COLORS\<close>, where \<open>r\<close> is the third random number of its iteration;
  entry \<open>i\<close> is chosen exactly for \<open>r\<close> in \<open>[i/4, (i+1)/4)\<close>. The palette is not
  disjoint from the trail colour: its entry 1 is \<^verbatim>\<open>TRAIL_COLOR\<close> (gold), the other
  three entries differ from it.
\<close>

theorem burst_color_palette:
  assumes "rngOk g" "k < BURST_PARTICLE_COUNT"
  shows "p_color (createBurstParticles g s x y ! k) =
           ''rgba('' @ BURST_COLORS ! nat \<lfloor>g (s + 5 * k + 2) * 4\<rfloor> @ '',''
       \<and> nat \<lfloor>g (s + 5 * k + 2) * 4\<rfloor> < length BURST_COLORS
       \<and> (\<forall>i<4. (burstColorBase (g (s + 5 * k + 2)) = BURST_COLORS ! i)
                  = (real i / 4 \<le> g (s + 5 * k + 2) \<and> g (s + 5 * k + 2) < (real i + 1) / 4))
       \<and> BURST_COLORS ! 1 = TRAIL_COLOR
       \<and> BURST_COLORS ! 0 \<noteq> TRAIL_COLOR \<and> BURST_COLORS ! 2 \<noteq> TRAIL_COLOR
       \<and> BURST_COLORS ! 3 \<noteq> TRAIL_COLOR"
proof -
  let ?r = "g (s + 5 * k + 2)"
  have r: "0 \<le> ?r" "?r < 1" using assms(1) by (simp_all add: rngOk_def)
  have "createBurstParticles g s x y ! k = burstParticle g (s + 5 * k) x y"
    using assms(2) by (simp add: createBurstParticles_def burstLoop_nth)
  then have c: "p_color (createBurstParticles g s x y ! k) = ''rgba('' @ burstColorBase ?r @ '',''"
    by (simp add: burstParticle_def Let_def)
  note idx = burstColorBase_index[OF r]
  have pal: "BURST_COLORS ! 1 = TRAIL_COLOR \<and> BURST_COLORS ! 0 \<noteq> TRAIL_COLOR
      \<and> BURST_COLORS ! 2 \<noteq> TRAIL_COLOR \<and> BURST_COLORS ! 3 \<noteq> TRAIL_COLOR"
    by (simp add: BURST_COLORS_def TRAIL_COLOR_def)
  show ?thesis
    using c idx pal burstColorBase_interval[OF r] BURST_COLORS_distinct by simp
qed

text \<open>
  The palette holds the trail colour: the random number \<open>1/4\<close> picks it, and the burst
  particle then has the colour string of a trail particle of the default colour.
\<close>

theorem burst_color_palette_counterexample:
  "burstColorBase (1/4) = TRAIL_COLOR \<and> BURST_COLORS ! 1 = TRAIL_COLOR
   \<and> p_color (burstParticle (\<lambda>n. 1/4) 0 0 0)
       = p_color (createTrailParticle (\<lambda>n. 1/4) 0 0 0 \<lparr> pt_x = 0, pt_y = 0 \<rparr> TRAIL_COLOR)"
  by (simp add: burstColorBase_def BURST_COLORS_def TRAIL_COLOR_def burstParticle_def
      createTrailParticle_def Let_def)

theorem burst_color_palette_witness:
  "rngOk demoRng \<and> (0::nat) < BURST_PARTICLE_COUNT
   \<and> p_color (createBurstParticles demoRng 0 640 360 ! 0) = ''rgba(255, 100, 50,''
   \<and> burstColorBase (demoRng 2) = BURST_COLORS ! 0"
proof -
  have k: "(0::nat) < BURST_PARTICLE_COUNT" by (simp add: BURST_PARTICLE_COUNT_def)
  from burst_color_palette[OF demoRng_ok k, of 0 640 360]
  show ?thesis using demoRng_ok k
    by (simp add: demoRng_def BURST_COLORS_def burstColorBase_def)
qed

subsection \<open>The population invariant\<close>

lemma createTrailParticle_live: "rngOk g \<Longrightarrow> liveParticle (createTrailParticle g s x y v col)"
proof -
  assume "rngOk g"
  then have "0 \<le> g (s + 2)" by (simp add: rngOk_def)
  then have "0 < 0.02 + g (s + 2) * 0.03" by simp
  then show ?thesis by (simp add: liveParticle_def createTrailParticle_def Let_def)
qed

lemma burstParticle_live: "rngOk g \<Longrightarrow> liveParticle (burstParticle g s x y)"
proof -
  assume "rngOk g"
  then have "0 \<le> g (s + 3)" by (simp add: rngOk_def)
  then have "0 < 0.01 + g (s + 3) * 0.02" by simp
  then show ?thesis by (simp add: liveParticle_def burstParticle_def Let_def)
qed

lemma burstLoop_live: "rngOk g \<Longrightarrow> list_all liveParticle (burstLoop g s x y n)"
  by (induction n arbitrary: s) (simp_all add: burstParticle_live)

lemma maybeTrail_live:
  "rngOk g \<Longrightarrow> list_all liveParticle (particles st) \<Longrightarrow>
   list_all liveParticle (particles (maybeTrail g x y v c col st))"
  by (simp add: maybeTrail_def createTrailParticle_live)

lemma emitTrails_live:
  "rngOk g \<Longrightarrow> list_all liveParticle (particles st) \<Longrightarrow>
   list_all liveParticle (particles (emitTrails g sp x y v c col st))"
  by (simp add: emitTrails_def Let_def maybeTrail_live)

lemma triggerBurst_live:
  "rngOk g \<Longrightarrow> list_all liveParticle (particles st) \<Longrightarrow>
   list_all liveParticle (particles (triggerBurst g key sp m st))"
  by (simp add: triggerBurst_def createBurstParticles_def burstLoop_live)

lemma updateEmitter_live:
  assumes "rngOk g" "list_all liveParticle (particles st)"
  shows "list_all liveParticle (particles (updateEmitter g key tx ty c col st))"
proof (cases "emitters st key")
  case None
  then show ?thesis using assms(2) by (simp add: updateEmitter_def)
next
  case (Some e)
  show ?thesis
    unfolding updateEmitter_unfold[OF Some]
    by (intro emitTrails_live triggerBurst_live assms(1)) (simp add: assms(2))
qed

lemma fingerLoop_preserves:
  assumes step: "\<And>key tx ty c col s. P s \<Longrightarrow> P (updateEmitter g key tx ty c col s)"
  shows "P st \<Longrightarrow> fingerLoop g hand hi w h m tips fi (keys, st) = Inr (keys', st') \<Longrightarrow> P st'"
proof (induction tips arbitrary: fi keys st)
  case Nil
  then show ?case by simp
next
  case (Cons t tips)
  from Cons.prems(2) have lt: "t < length hand"
    by (simp split: if_splits)
  with Cons.prems(2) have
    "fingerLoop g hand hi w h m tips (Suc fi)
       (insert (emitterKey hi fi) keys,
        updateEmitter g (emitterKey hi fi) ((1 - pt_x (hand ! t)) * w) (pt_y (hand ! t) * h) m
          (fingerColor fi) st) = Inr (keys', st')"
    by (simp add: Let_def)
  from Cons.IH[OF step[OF Cons.prems(1)] this] show ?case .
qed

lemma handLoop_preserves:
  assumes step: "\<And>key tx ty c col s. P s \<Longrightarrow> P (updateEmitter g key tx ty c col s)"
  shows "P st \<Longrightarrow> handLoop g w h m hands hi (keys, st) = Inr (keys', st') \<Longrightarrow> P st'"
proof (induction hands arbitrary: hi keys st)
  case Nil
  then show ?case by simp
next
  case (Cons hand hands)
  from Cons.prems(2) obtain keys1 st1 where
    f: "fingerLoop g hand hi w h m FINGER_INDICES 0 (keys, st) = Inr (keys1, st1)"
    and r: "handLoop g w h m hands (Suc hi) (keys1, st1) = Inr (keys', st')"
    by (auto split: sum.splits)
  from fingerLoop_preserves[where P = P, OF step Cons.prems(1) f] have "P st1" .
  from Cons.IH[OF this r] show ?case .
qed

lemma updateEmitters_preserves:
  assumes step: "\<And>key tx ty c col s. P s \<Longrightarrow> P (updateEmitter g key tx ty c col s)"
    and "P st" "updateEmitters g fr st = Inr (keys', st')"
  shows "P st'"
proof (cases "0 < length (landmarks fr)")
  case True
  with assms(3) have "handLoop g (videoWidth fr) (videoHeight fr)
      (particleMultiplier (real (length (landmarks fr) * 5))) (landmarks fr) 0 ({}, st) = Inr (keys', st')"
    by (simp add: updateEmitters_def Let_def)
  from handLoop_preserves[where P = P, OF step assms(2) this] show ?thesis .
next
  case False
  with assms(2,3) show ?thesis by (simp add: updateEmitters_def)
qed

lemma cleanupEmitters_other:
  "particles (cleanupEmitters keys st) = particles st"
  "lightingIntensity (cleanupEmitters keys st) = lightingIntensity st"
  "seed (cleanupEmitters keys st) = seed st"
  by (simp_all add: cleanupEmitters_def)

lemma processTracking_live:
  assumes "rngOk g" "list_all liveParticle (particles st)" "processTracking g fr st = Inr st'"
  shows "list_all liveParticle (particles st')"
proof -
  from assms(3) obtain keys st1 where u: "updateEmitters g fr st = Inr (keys, st1)"
    and s: "st' = cleanupEmitters keys st1"
    by (auto simp add: processTracking_def split: sum.splits)
  have "list_all liveParticle (particles st1)"
    by (rule updateEmitters_preserves[where P = "\<lambda>s. list_all liveParticle (particles s)", OF _ assms(2) u])
       (rule updateEmitter_live[OF assms(1)])
  then show ?thesis by (simp add: s cleanupEmitters_other)
qed

lemma lightingEffects_particles: "particles (fst (lightingEffects st)) = particles st"
  by (simp add: lightingEffects_def)

lemma tickParticle_live:
  assumes "liveParticle p" "snd (tickParticle h p)"
  shows "liveParticle (fst (tickParticle h p))"
proof -
  from assms(2) have a: "0 < p_life p - p_decay p"
    by (simp add: tickParticle_def Let_def split: if_splits)
  from tickParticle_alive[OF a, of h] assms(1) a show ?thesis
    by (simp add: liveParticle_def)
qed

lemma updateParticles_live:
  "list_all liveParticle ps \<Longrightarrow> list_all liveParticle (updateParticles ps w h)"
  by (induction ps) (simp_all add: updateParticles_def tickParticle_live)

lemma drawParticles_live:
  "list_all liveParticle ps \<Longrightarrow> list_all liveArc (map FillArc (drawParticles ps))"
  by (induction ps) (simp_all add: drawParticles_def liveArc_def liveParticle_def)

lemma lightingEffects_liveArc: "list_all liveArc (snd (lightingEffects st))"
  by (simp add: lightingEffects_def liveArc_def)

lemma animate_cases:
  assumes "animate g fr st = Inr (st', drawn)"
  shows "(st' = st \<and> drawn = []) \<or>
    (\<exists>st1. (if videoPlaying fr then processTracking g fr st else Inr st) = Inr st1
       \<and> refsReady fr \<and> ctxOk fr
       \<and> st' = (fst (lightingEffects st1))\<lparr> particles :=
                 updateParticles (particles st1) (videoWidth fr) (videoHeight fr) \<rparr>
       \<and> drawn = [DrawVideo] @ snd (lightingEffects st1) @ map FillArc (drawParticles
                   (updateParticles (particles st1) (videoWidth fr) (videoHeight fr))))"
proof (cases "refsReady fr \<and> ctxOk fr")
  case False
  then have "animate g fr st = Inr (st, [])"
    by (auto simp add: animate_def)
  with assms show ?thesis by simp
next
  case True
  with assms obtain st1 where
    t: "(if videoPlaying fr then processTracking g fr st else Inr st) = Inr st1"
    by (cases "if videoPlaying fr then processTracking g fr st else Inr st")
       (simp_all add: animate_def)
  with assms True show ?thesis
    by (auto simp add: animate_def Let_def split_beta lightingEffects_particles)
qed

lemma animate_live:
  assumes "rngOk g" "list_all liveParticle (particles st)" "animate g fr st = Inr (st', drawn)"
  shows "list_all liveParticle (particles st') \<and> list_all liveArc drawn"
  using animate_cases[OF assms(3)]
proof
  assume "st' = st \<and> drawn = []"
  with assms(2) show ?thesis by simp
next
  assume "\<exists>st1. (if videoPlaying fr then processTracking g fr st else Inr st) = Inr st1
       \<and> refsReady fr \<and> ctxOk fr
       \<and> st' = (fst (lightingEffects st1))\<lparr> particles :=
                 updateParticles (particles st1) (videoWidth fr) (videoHeight fr) \<rparr>
       \<and> drawn = [DrawVideo] @ snd (lightingEffects st1) @ map FillArc (drawParticles
                   (updateParticles (particles st1) (videoWidth fr) (videoHeight fr)))"
  then obtain st1 where t: "(if videoPlaying fr then processTracking g fr st else Inr st) = Inr st1"
    and s: "st' = (fst (lightingEffects st1))\<lparr> particles :=
                 updateParticles (particles st1) (videoWidth fr) (videoHeight fr) \<rparr>"
    and d: "drawn = [DrawVideo] @ snd (lightingEffects st1) @ map FillArc (drawParticles
                   (updateParticles (particles st1) (videoWidth fr) (videoHeight fr)))"
    by blast
  have l1: "list_all liveParticle (particles st1)"
  proof (cases "videoPlaying fr")
    case True
    with t have "processTracking g fr st = Inr st1" by simp
    from processTracking_live[OF assms(1,2) this] show ?thesis .
  next
    case False
    with t assms(2) show ?thesis by simp
  qed
  have l': "list_all liveParticle (particles st')"
    using l1 by (simp add: s updateParticles_live)
  moreover have "list_all liveArc drawn"
    using l' by (simp add: d s lightingEffects_liveArc drawParticles_live) (simp add: liveArc_def)
  ultimately show ?thesis by simp
qed

lemma run_live:
  assumes "rngOk g"
  shows "list_all liveParticle (particles st) \<Longrightarrow> run g frs st = Inr st' \<Longrightarrow>
         list_all liveParticle (particles st')"
proof (induction frs arbitrary: st)
  case Nil
  then show ?case by simp
next
  case (Cons fr frs)
  from Cons.prems(2) obtain st1 drawn where a: "animate g fr st = Inr (st1, drawn)"
    and r: "run g frs st1 = Inr st'"
    by (auto split: sum.splits)
  from animate_live[OF assms Cons.prems(1) a] have "list_all liveParticle (particles st1)" by simp
  from Cons.IH[OF this r] show ?case .
qed

lemma initialState_live: "list_all liveParticle (particles initialState)"
  by (simp add: initialState_def)

text \<open>
  C7. Let the random source respect the range of \<^verbatim>\<open>Math.random()\<close>, and let every
  particle of the population have a life in \<open>(0, 1]\<close> and a positive decay (as in the
  initial state, whose population is empty). After one call of \<^verbatim>\<open>animate\<close> the same
  holds of the new population; every arc the frame draws has an alpha, the particle's
  life, in \<open>(0, 1]\<close>, and the arcs drawn are those of the new population, which
  \<^verbatim>\<open>updateParticles\<close> has filtered before \<^verbatim>\<open>drawParticles\<close> sees it. A particle whose
  life reaches zero or less in a tick is left with only its life changed (no motion, no
  gravity) and is not in the tick's result. Hence every state that a run of frames
  reaches from the initial state has a population of lives in \<open>(0, 1]\<close>.
\<close>

theorem live_particles_invariant:
  assumes "rngOk g"
    and "list_all liveParticle (particles st)"
    and "animate g fr st = Inr (st', drawn)"
  shows "list_all liveParticle (particles st')
       \<and> list_all liveArc drawn
       \<and> (drawn = [] \<or>
           (\<exists>overlay. drawn = DrawVideo # overlay @ map FillArc (drawParticles (particles st'))))
       \<and> (p_life p - p_decay p \<le> 0 \<longrightarrow>
             tickParticle h p = (p\<lparr> p_life := p_life p - p_decay p \<rparr>, False)
           \<and> updateParticles (xs @ [p] @ ys) w h = updateParticles xs w h @ updateParticles ys w h)
       \<and> (run g frs initialState = Inr s \<longrightarrow> list_all liveParticle (particles s))"
proof -
  note a = animate_live[OF assms]
  have c: "drawn = [] \<or>
           (\<exists>overlay. drawn = DrawVideo # overlay @ map FillArc (drawParticles (particles st')))"
    using animate_cases[OF assms(3)] by auto
  have d: "tickParticle h p = (p\<lparr> p_life := p_life p - p_decay p \<rparr>, False)
           \<and> updateParticles (xs @ [p] @ ys) w h = updateParticles xs w h @ updateParticles ys w h"
    if "p_life p - p_decay p \<le> 0"
  proof -
    have t: "tickParticle h p = (p\<lparr> p_life := p_life p - p_decay p \<rparr>, False)"
      using that by (rule tickParticle_dead)
    then have "updateParticles [p] w h = []" by (simp add: updateParticles_single)
    then have "updateParticles (xs @ [p] @ ys) w h = updateParticles xs w h @ updateParticles ys w h"
      unfolding updateParticles_append by simp
    with t show ?thesis by simp
  qed
  have e: "list_all liveParticle (particles s)" if "run g frs initialState = Inr s"
    using run_live[OF assms(1) initialState_live that] .
  from a c d e show ?thesis by blast
qed

lemma animate_idle_frame:
  "animate g (demoFrame []) st =
     Inr ((fst (lightingEffects st))\<lparr> emitters := Map.empty,
             particles := updateParticles (particles st) 1280 720 \<rparr>,
          DrawVideo # snd (lightingEffects st)
            @ map FillArc (drawParticles (updateParticles (particles st) 1280 720)))"
  by (simp add: animate_def demoFrame_def processTracking_def updateEmitters_def
      cleanupEmitters_def Let_def split_beta lightingEffects_def)

theorem live_particles_invariant_witness:
  "rngOk demoRng
   \<and> list_all liveParticle [demoParticle, demoParticle\<lparr> p_life := 1/100 \<rparr>]
   \<and> animate demoRng (demoFrame [])
        (initialState\<lparr> particles := [demoParticle, demoParticle\<lparr> p_life := 1/100 \<rparr>] \<rparr>)
       = Inr (initialState\<lparr> particles :=
                 [demoParticle\<lparr> p_life := 49/50, p_y := 101, p_vy := 11/10 \<rparr>] \<rparr>,
              [DrawVideo, FillArc \<lparr> arc_color = ''rgba(255, 215, 0,'', arc_alpha = 49/50,
                 arc_x = 0, arc_y = 101, arc_radius = 49/25 \<rparr>])
   \<and> list_all liveArc [DrawVideo, FillArc \<lparr> arc_color = ''rgba(255, 215, 0,'', arc_alpha = 49/50,
                 arc_x = 0, arc_y = 101, arc_radius = 49/25 \<rparr>]"
proof -
  let ?st = "initialState\<lparr> particles := [demoParticle, demoParticle\<lparr> p_life := 1/100 \<rparr>] \<rparr>"
  have l: "list_all liveParticle (particles ?st)"
    by (simp add: liveParticle_def demoParticle_def)
  have a: "animate demoRng (demoFrame []) ?st
       = Inr (initialState\<lparr> particles :=
                 [demoParticle\<lparr> p_life := 49/50, p_y := 101, p_vy := 11/10 \<rparr>] \<rparr>,
              [DrawVideo, FillArc \<lparr> arc_color = ''rgba(255, 215, 0,'', arc_alpha = 49/50,
                 arc_x = 0, arc_y = 101, arc_radius = 49/25 \<rparr>])"
    unfolding animate_idle_frame
    by (simp add: lightingEffects_def initialState_def updateParticles_def tickParticle_def
        drawParticles_def demoParticle_def Let_def)
  from live_particles_invariant[OF demoRng_ok l a]
  show ?thesis using demoRng_ok l a by simp
qed

subsection \<open>The flash intensity\<close>

lemma updateEmitter_flash:
  assumes "flashInRange st"
  shows "flashInRange (updateEmitter g key tx ty c col st)"
proof (cases "emitters st key")
  case None
  then show ?thesis using assms by (simp add: updateEmitter_def flashInRange_def)
next
  case (Some e)
  show ?thesis
  proof (cases "isBurstArmed (movedEmitter e tx ty) \<and> smoothedSpeed e tx ty < BURST_TRIGGER_SPEED")
    case True
    from updateEmitter_fire(3)[OF Some True, of g c col] assms show ?thesis
      by (simp add: flashInRange_def)
  next
    case False
    from updateEmitter_idle(3)[OF Some False, of g c col] assms show ?thesis
      by (simp add: flashInRange_def)
  qed
qed

lemma lightingEffects_flash:
  "flashInRange st \<Longrightarrow> flashInRange (fst (lightingEffects st))"
proof -
  assume a: "flashInRange st"
  then have "lightingIntensity st * 0.85 \<le> 1" by (simp add: flashInRange_def)
  with a show ?thesis by (simp add: lightingEffects_def flashInRange_def)
qed

lemma lightingEffects_value:
  "lightingIntensity (fst (lightingEffects st)) =
     (if lightingIntensity st > 0.01 then lightingIntensity st * 0.85 else lightingIntensity st)"
  by (simp add: lightingEffects_def)

lemma processTracking_flash:
  assumes "flashInRange st" "processTracking g fr st = Inr st'"
  shows "flashInRange st'"
proof -
  from assms(2) obtain keys st1 where u: "updateEmitters g fr st = Inr (keys, st1)"
    and s: "st' = cleanupEmitters keys st1"
    by (auto simp add: processTracking_def split: sum.splits)
  have "flashInRange st1"
    by (rule updateEmitters_preserves[where P = flashInRange, OF _ assms(1) u])
       (rule updateEmitter_flash)
  then show ?thesis by (simp add: s flashInRange_def cleanupEmitters_other)
qed

lemma animate_flash:
  assumes "flashInRange st" "animate g fr st = Inr (st', drawn)"
  shows "flashInRange st'"
  using animate_cases[OF assms(2)]
proof
  assume "st' = st \<and> drawn = []"
  with assms(1) show ?thesis by simp
next
  assume "\<exists>st1. (if videoPlaying fr then processTracking g fr st else Inr st) = Inr st1
       \<and> refsReady fr \<and> ctxOk fr
       \<and> st' = (fst (lightingEffects st1))\<lparr> particles :=
                 updateParticles (particles st1) (videoWidth fr) (videoHeight fr) \<rparr>
       \<and> drawn = [DrawVideo] @ snd (lightingEffects st1) @ map FillArc (drawParticles
                   (updateParticles (particles st1) (videoWidth fr) (videoHeight fr)))"
  then obtain st1 where t: "(if videoPlaying fr then processTracking g fr st else Inr st) = Inr st1"
    and s: "st' = (fst (lightingEffects st1))\<lparr> particles :=
                 updateParticles (particles st1) (videoWidth fr) (videoHeight fr) \<rparr>"
    by blast
  have "flashInRange st1"
  proof (cases "videoPlaying fr")
    case True
    with t have "processTracking g fr st = Inr st1" by simp
    from processTracking_flash[OF assms(1) this] show ?thesis .
  next
    case False
    with t assms(1) show ?thesis by simp
  qed
  from lightingEffects_flash[OF this] show ?thesis
    by (simp add: s flashInRange_def)
qed

lemma run_flash:
  "flashInRange st \<Longrightarrow> run g frs st = Inr st' \<Longrightarrow> flashInRange st'"
proof (induction frs arbitrary: st)
  case Nil
  then show ?case by simp
next
  case (Cons fr frs)
  from Cons.prems(2) obtain st1 drawn where a: "animate g fr st = Inr (st1, drawn)"
    and r: "run g frs st1 = Inr st'"
    by (auto split: sum.splits)
  from Cons.IH[OF animate_flash[OF Cons.prems(1) a] r] show ?case .
qed

lemma animate_flash_decay:
  assumes "animate g fr st = Inr (st', drawn)" "drawn \<noteq> []"
  shows "\<exists>st1. (if videoPlaying fr then processTracking g fr st else Inr st) = Inr st1
      \<and> lightingIntensity st' =
          (if lightingIntensity st1 > 0.01 then lightingIntensity st1 * 0.85
           else lightingIntensity st1)"
  using animate_cases[OF assms(1)] assms(2)
  by (auto simp add: lightingEffects_value)

text \<open>
  C3, as the code has it. The flash intensity stays in \<open>[0, 1]\<close>: one call of
  \<^verbatim>\<open>animate\<close> keeps it there, and so does every run of frames from the initial state.
  A call of \<^verbatim>\<open>updateEmitter\<close> changes it only when the burst triggers, to
  \<open>min(intensity + 0.5, 1)\<close>. A frame that gets to the lighting step multiplies the
  intensity it has after the emitter updates by 0.85 only when that intensity exceeds
  0.01; at 0.01 or below the frame leaves it as it is.
\<close>

theorem flash_intensity_range:
  assumes "flashInRange st"
    and "animate g fr st = Inr (st', drawn)"
  shows "0 \<le> lightingIntensity st' \<and> lightingIntensity st' \<le> 1
       \<and> (drawn \<noteq> [] \<longrightarrow>
            (\<exists>st1. (if videoPlaying fr then processTracking g fr st else Inr st) = Inr st1
               \<and> lightingIntensity st' =
                   (if lightingIntensity st1 > 0.01 then lightingIntensity st1 * 0.85
                    else lightingIntensity st1)))
       \<and> (emitters st key = Some e \<longrightarrow>
            lightingIntensity (updateEmitter g key tx ty c col st) =
              (if isBurstArmed (movedEmitter e tx ty) \<and> smoothedSpeed e tx ty < BURST_TRIGGER_SPEED
               then min (lightingIntensity st + 0.5) 1.0 else lightingIntensity st))
       \<and> (emitters st key = None \<longrightarrow>
            lightingIntensity (updateEmitter g key tx ty c col st) = lightingIntensity st)
       \<and> (run g frs initialState = Inr s \<longrightarrow>
            0 \<le> lightingIntensity s \<and> lightingIntensity s \<le> 1)"
proof -
  have a: "0 \<le> lightingIntensity st' \<and> lightingIntensity st' \<le> 1"
    using animate_flash[OF assms] by (simp add: flashInRange_def)
  have b: "\<exists>st1. (if videoPlaying fr then processTracking g fr st else Inr st) = Inr st1
               \<and> lightingIntensity st' =
                   (if lightingIntensity st1 > 0.01 then lightingIntensity st1 * 0.85
                    else lightingIntensity st1)" if "drawn \<noteq> []"
    using animate_flash_decay[OF assms(2) that] .
  have c: "lightingIntensity (updateEmitter g key tx ty c col st) =
              (if isBurstArmed (movedEmitter e tx ty) \<and> smoothedSpeed e tx ty < BURST_TRIGGER_SPEED
               then min (lightingIntensity st + 0.5) 1.0 else lightingIntensity st)"
    if e: "emitters st key = Some e"
  proof (cases "isBurstArmed (movedEmitter e tx ty) \<and> smoothedSpeed e tx ty < BURST_TRIGGER_SPEED")
    case True
    from updateEmitter_fire(3)[OF e True, of g c col] True show ?thesis by simp
  next
    case False
    from updateEmitter_idle(3)[OF e False, of g c col] False show ?thesis by auto
  qed
  have d: "lightingIntensity (updateEmitter g key tx ty c col st) = lightingIntensity st"
    if "emitters st key = None"
    using that by (simp add: updateEmitter_def)
  have i: "flashInRange initialState" by (simp add: flashInRange_def initialState_def)
  have f: "0 \<le> lightingIntensity s \<and> lightingIntensity s \<le> 1"
    if "run g frs initialState = Inr s"
    using run_flash[OF i that] by (simp add: flashInRange_def)
  from a b c d f show ?thesis by blast
qed

text \<open>
  After a burst from zero the intensity is 0.5, and 25 lighting steps bring it to
  \<open>0.5 * 0.85^25\<close>, about 0.0086.
\<close>

lemma flash_decays:
  "k \<le> 25 \<Longrightarrow>
   lightingIntensity (((\<lambda>s. fst (lightingEffects s)) ^^ k) (st\<lparr> lightingIntensity := 1/2 \<rparr>))
     = 1/2 * (17/20) ^ k"
proof (induction k)
  case 0
  then show ?case by simp
next
  case (Suc k)
  then have k: "k \<le> 24" by simp
  have "(17/20 :: real) ^ 24 \<le> (17/20) ^ k"
    using k by (intro power_decreasing) simp_all
  moreover have "(0.01 :: real) < 1/2 * (17/20) ^ 24"
    by (simp add: power_divide)
  ultimately have "(0.01 :: real) < 1/2 * (17/20) ^ k" by linarith
  with Suc show ?case
    by (simp add: lightingEffects_value)
qed

text \<open>
  The decay is not applied on every tick: a further frame leaves the intensity at
  \<open>0.5 * 0.85^25\<close>.
\<close>

lemma flash_floor: "\<not> (1/2 * (17/20) ^ 25 :: real) > 0.01" "(1/2 * (17/20) ^ 25 :: real) > 0"
  by (simp_all add: power_divide)

theorem flash_intensity_range_counterexample:
  "animate demoRng (demoFrame []) (initialState\<lparr> lightingIntensity := 1/2 * (17/20) ^ 25 \<rparr>)
     = Inr (initialState\<lparr> lightingIntensity := 1/2 * (17/20) ^ 25 \<rparr>, [DrawVideo])
   \<and> (1/2 * (17/20) ^ 25 :: real) \<noteq> (1/2 * (17/20) ^ 25) * 0.85"
proof -
  have "lightingEffects (initialState\<lparr> lightingIntensity := 1/2 * (17/20) ^ 25 \<rparr>)
      = (initialState\<lparr> lightingIntensity := 1/2 * (17/20) ^ 25 \<rparr>, [])"
    using flash_floor(1) by (simp add: lightingEffects_def)
  then show ?thesis
    unfolding animate_idle_frame using flash_floor(2)
    by (simp add: initialState_def updateParticles_def drawParticles_def)
qed

theorem flash_intensity_range_witness:
  "flashInRange (demoState demoArmed)
   \<and> animate demoRng (demoFrame []) (demoState demoArmed) = Inr (initialState, [DrawVideo])
   \<and> lightingIntensity initialState = 0
   \<and> lightingIntensity (updateEmitter demoRng demoKey 16 0 1 TRAIL_COLOR (demoState demoArmed))
       = 1/2"
proof -
  have h1: "flashInRange (demoState demoArmed)"
    by (simp add: flashInRange_def demoState_def initialState_def)
  have h2: "animate demoRng (demoFrame []) (demoState demoArmed) = Inr (initialState, [DrawVideo])"
    unfolding animate_idle_frame
    by (simp add: lightingEffects_def demoState_def initialState_def updateParticles_def
        drawParticles_def)
  have e: "emitters (demoState demoArmed) demoKey = Some demoArmed"
    by (simp add: demoState_def)
  have sp: "smoothedSpeed demoArmed 16 0 = 4"
    by (simp add: smoothedSpeed_horizontal demoArmed_def INERTIA_FACTOR_def)
  have armed: "isBurstArmed (movedEmitter demoArmed 16 0)"
    by (simp add: movedEmitter_armed demoArmed_def)
  have l0: "lightingIntensity (demoState demoArmed) = 0"
    by (simp add: demoState_def initialState_def)
  from flash_intensity_range[OF h1 h2, where key = demoKey and e = demoArmed and tx = 16
      and ty = 0 and c = 1 and col = TRAIL_COLOR]
  show ?thesis using h1 h2 e sp armed l0
    by (simp add: BURST_TRIGGER_SPEED_def initialState_def)
qed

subsection \<open>Emitters that are no longer tracked\<close>

lemma forget_fields:
  "particles (forget k st) = particles st"
  "seed (forget k st) = seed st"
  "lightingIntensity (forget k st) = lightingIntensity st"
  "emitters (forget k st) = (emitters st)(k := None)"
  by (simp_all add: forget_def)

lemma maybeTrail_forget:
  "maybeTrail g x y v c col (forget k st) = forget k (maybeTrail g x y v c col st)"
  by (simp add: maybeTrail_def forget_def)

lemma emitTrails_forget:
  "emitTrails g sp x y v c col (forget k st) = forget k (emitTrails g sp x y v c col st)"
  by (simp add: emitTrails_def Let_def maybeTrail_forget)

lemma triggerBurst_forget:
  "key \<noteq> k \<Longrightarrow>
   triggerBurst g key sp m (forget k st) = forget k (triggerBurst g key sp m st)"
  by (simp add: triggerBurst_def forget_def fun_upd_twist)

lemma updateEmitter_forget:
  assumes "key \<noteq> k"
  shows "updateEmitter g key tx ty c col (forget k st) = forget k (updateEmitter g key tx ty c col st)"
proof (cases "emitters st key")
  case None
  with assms show ?thesis
    by (simp add: updateEmitter_def forget_def fun_upd_twist)
next
  case (Some e)
  with assms have e': "emitters (forget k st) key = Some e"
    by (simp add: forget_def)
  have u: "(forget k st)\<lparr> emitters := (emitters (forget k st))(key \<mapsto> m) \<rparr>
      = forget k (st\<lparr> emitters := (emitters st)(key \<mapsto> m) \<rparr>)" for m
    using assms by (simp add: forget_def fun_upd_twist)
  show ?thesis
    unfolding updateEmitter_unfold[OF Some] updateEmitter_unfold[OF e'] u
    by (simp add: triggerBurst_forget[OF assms] emitTrails_forget)
qed

lemma fingerLoop_keys_mono:
  "fingerLoop g hand hi w h m tips fi (keys, st) = Inr (keys', st') \<Longrightarrow> keys \<subseteq> keys'"
proof (induction tips arbitrary: fi keys st)
  case Nil
  then show ?case by simp
next
  case (Cons t tips)
  from Cons.prems have lt: "t < length hand" by (simp split: if_splits)
  with Cons.prems have
    "fingerLoop g hand hi w h m tips (Suc fi)
       (insert (emitterKey hi fi) keys,
        updateEmitter g (emitterKey hi fi) ((1 - pt_x (hand ! t)) * w) (pt_y (hand ! t) * h) m
          (fingerColor fi) st) = Inr (keys', st')"
    by (simp add: Let_def)
  from Cons.IH[OF this] show ?case by blast
qed

lemma handLoop_keys_mono:
  "handLoop g w h m hands hi (keys, st) = Inr (keys', st') \<Longrightarrow> keys \<subseteq> keys'"
proof (induction hands arbitrary: hi keys st)
  case Nil
  then show ?case by simp
next
  case (Cons hand hands)
  from Cons.prems obtain keys1 st1 where
    f: "fingerLoop g hand hi w h m FINGER_INDICES 0 (keys, st) = Inr (keys1, st1)"
    and r: "handLoop g w h m hands (Suc hi) (keys1, st1) = Inr (keys', st')"
    by (auto split: sum.splits)
  from fingerLoop_keys_mono[OF f] Cons.IH[OF r] show ?case by blast
qed

lemma fingerLoop_forget:
  "fingerLoop g hand hi w h m tips fi (keys, st) = Inr (keys', st') \<Longrightarrow> k \<notin> keys' \<Longrightarrow>
   fingerLoop g hand hi w h m tips fi (keys, forget k st) = Inr (keys', forget k st')"
proof (induction tips arbitrary: fi keys st)
  case Nil
  then show ?case by simp
next
  case (Cons t tips)
  let ?key = "emitterKey hi fi"
  let ?st = "updateEmitter g ?key ((1 - pt_x (hand ! t)) * w) (pt_y (hand ! t) * h) m
          (fingerColor fi) st"
  from Cons.prems(1) have lt: "t < length hand" by (simp split: if_splits)
  with Cons.prems(1) have
    r: "fingerLoop g hand hi w h m tips (Suc fi) (insert ?key keys, ?st) = Inr (keys', st')"
    by (simp add: Let_def)
  from fingerLoop_keys_mono[OF r] Cons.prems(2) have ne: "?key \<noteq> k" by blast
  from Cons.IH[OF r Cons.prems(2)] show ?case
    using lt by (simp add: Let_def updateEmitter_forget[OF ne])
qed

lemma handLoop_forget:
  "handLoop g w h m hands hi (keys, st) = Inr (keys', st') \<Longrightarrow> k \<notin> keys' \<Longrightarrow>
   handLoop g w h m hands hi (keys, forget k st) = Inr (keys', forget k st')"
proof (induction hands arbitrary: hi keys st)
  case Nil
  then show ?case by simp
next
  case (Cons hand hands)
  from Cons.prems(1) obtain keys1 st1 where
    f: "fingerLoop g hand hi w h m FINGER_INDICES 0 (keys, st) = Inr (keys1, st1)"
    and r: "handLoop g w h m hands (Suc hi) (keys1, st1) = Inr (keys', st')"
    by (auto split: sum.splits)
  from handLoop_keys_mono[OF r] Cons.prems(2) have "k \<notin> keys1" by blast
  from fingerLoop_forget[OF f this] Cons.IH[OF r Cons.prems(2)] show ?case by simp
qed

lemma updateEmitters_forget:
  assumes "updateEmitters g fr st = Inr (keys', st')" "k \<notin> keys'"
  shows "updateEmitters g fr (forget k st) = Inr (keys', forget k st')"
proof (cases "0 < length (landmarks fr)")
  case True
  with assms(1) have "handLoop g (videoWidth fr) (videoHeight fr)
      (particleMultiplier (real (length (landmarks fr) * 5))) (landmarks fr) 0 ({}, st) = Inr (keys', st')"
    by (simp add: updateEmitters_def Let_def)
  from handLoop_forget[OF this assms(2)] True show ?thesis
    by (simp add: updateEmitters_def Let_def)
next
  case False
  with assms show ?thesis by (auto simp add: updateEmitters_def)
qed

lemma cleanupEmitters_forget:
  "k \<notin> keys \<Longrightarrow> cleanupEmitters keys (forget k st) = cleanupEmitters keys st"
  by (simp add: cleanupEmitters_def forget_def)

lemma cleanupEmitters_absent:
  "k \<notin> keys \<Longrightarrow> emitters (cleanupEmitters keys st) k = None"
  by (simp add: cleanupEmitters_def)

lemma processTracking_forget:
  assumes "updateEmitters g fr st = Inr (keys, st1)" "k \<notin> keys"
  shows "processTracking g fr (forget k st) = processTracking g fr st"
    and "processTracking g fr st = Inr (cleanupEmitters keys st1)"
  using assms updateEmitters_forget[OF assms]
  by (simp_all add: processTracking_def cleanupEmitters_forget)

lemma fingerLoop_keys:
  "fingerLoop g hand hi w h m tips fi (keys, st) = Inr (keys', st') \<Longrightarrow>
   keys' = keys \<union> emitterKey hi ` {fi..<fi + length tips}"
proof (induction tips arbitrary: fi keys st)
  case Nil
  then show ?case by simp
next
  case (Cons t tips)
  from Cons.prems have lt: "t < length hand" by (simp split: if_splits)
  with Cons.prems have
    "fingerLoop g hand hi w h m tips (Suc fi)
       (insert (emitterKey hi fi) keys,
        updateEmitter g (emitterKey hi fi) ((1 - pt_x (hand ! t)) * w) (pt_y (hand ! t) * h) m
          (fingerColor fi) st) = Inr (keys', st')"
    by (simp add: Let_def)
  from Cons.IH[OF this] have "keys' = insert (emitterKey hi fi) keys
      \<union> emitterKey hi ` {Suc fi..<Suc fi + length tips}" .
  moreover have "{fi..<fi + length (t # tips)} = insert fi {Suc fi..<Suc fi + length tips}"
    by auto
  ultimately show ?case by auto
qed

lemma handLoop_keys:
  "handLoop g w h m hands hi (keys, st) = Inr (keys', st') \<Longrightarrow>
   keys' = keys \<union> (\<Union>i \<in> {hi..<hi + length hands}. emitterKey i ` {0..<length FINGER_INDICES})"
proof (induction hands arbitrary: hi keys st)
  case Nil
  then show ?case by simp
next
  case (Cons hand hands)
  from Cons.prems obtain keys1 st1 where
    f: "fingerLoop g hand hi w h m FINGER_INDICES 0 (keys, st) = Inr (keys1, st1)"
    and r: "handLoop g w h m hands (Suc hi) (keys1, st1) = Inr (keys', st')"
    by (auto split: sum.splits)
  from fingerLoop_keys[OF f] have k1: "keys1 = keys \<union> emitterKey hi ` {0..<length FINGER_INDICES}"
    by simp
  have "{hi..<hi + length (hand # hands)} = insert hi {Suc hi..<Suc hi + length hands}"
    by auto
  with Cons.IH[OF r] k1 show ?case by auto
qed

lemma updateEmitters_keys:
  assumes "updateEmitters g fr st = Inr (keys, st')"
  shows "keys = trackedKeys fr"
proof (cases "0 < length (landmarks fr)")
  case True
  with assms have "handLoop g (videoWidth fr) (videoHeight fr)
      (particleMultiplier (real (length (landmarks fr) * 5))) (landmarks fr) 0 ({}, st) = Inr (keys, st')"
    by (simp add: updateEmitters_def Let_def)
  from handLoop_keys[OF this] show ?thesis
    by (auto simp add: trackedKeys_def)
next
  case False
  with assms show ?thesis by (auto simp add: updateEmitters_def trackedKeys_def)
qed

lemma animate_tracking:
  assumes "refsReady fr" "ctxOk fr" "videoPlaying fr"
  shows "animate g fr st =
     (case processTracking g fr st of
        Inl e \<Rightarrow> Inl e
      | Inr st1 \<Rightarrow>
          Inr ((fst (lightingEffects st1))\<lparr> particles :=
                  updateParticles (particles st1) (videoWidth fr) (videoHeight fr) \<rparr>,
               DrawVideo # snd (lightingEffects st1) @ map FillArc (drawParticles
                  (updateParticles (particles st1) (videoWidth fr) (videoHeight fr)))))"
  using assms
  by (simp add: animate_def Let_def split_beta lightingEffects_particles split: sum.splits)

text \<open>
  C9, as the code has it. In a frame whose tracking step runs (the references are set
  and the video is playing), the cleanup loop comes after the emitter updates. A key
  \<open>k\<close> that is not among the frame's tracked keys is absent from the registry when the
  frame ends, and the frame's outcome (population, flash, random draws, registry,
  drawing) is the one it would have had with \<open>k\<close> removed before the frame started: the
  emitter is never updated and pushes nothing. The registry is left with tracked keys
  only, and with no landmarks it is left empty.
\<close>

theorem stale_emitter_removed:
  assumes "refsReady fr" and "ctxOk fr" and "videoPlaying fr"
    and "animate g fr st = Inr (st', drawn)"
    and "k \<notin> trackedKeys fr"
  shows "emitters st' k = None
       \<and> animate g fr (forget k st) = Inr (st', drawn)
       \<and> dom (emitters st') \<subseteq> trackedKeys fr
       \<and> (landmarks fr = [] \<longrightarrow> emitters st' = Map.empty)"
proof -
  note an = animate_tracking[OF assms(1,2,3)]
  from assms(4) obtain st1 where p: "processTracking g fr st = Inr st1"
    and s: "st' = (fst (lightingEffects st1))\<lparr> particles :=
                  updateParticles (particles st1) (videoWidth fr) (videoHeight fr) \<rparr>"
    unfolding an by (auto split: sum.splits)
  from p obtain keys s1 where u: "updateEmitters g fr st = Inr (keys, s1)"
    and c: "st1 = cleanupEmitters keys s1"
    by (auto simp add: processTracking_def split: sum.splits)
  have keys: "keys = trackedKeys fr" using u by (rule updateEmitters_keys)
  with assms(5) have nk: "k \<notin> keys" by simp
  have em: "emitters st' = emitters s1 |` keys"
    by (simp add: s c cleanupEmitters_def lightingEffects_def)
  have a: "emitters st' k = None" using nk by (simp add: em)
  have "processTracking g fr (forget k st) = processTracking g fr st"
    using processTracking_forget(1)[OF u nk] .
  then have b: "animate g fr (forget k st) = Inr (st', drawn)"
    using assms(4) unfolding an animate_tracking[OF assms(1,2,3), of g "forget k st"] by simp
  have d: "dom (emitters st') \<subseteq> trackedKeys fr"
    by (simp add: em keys[symmetric])
  have e: "emitters st' = Map.empty" if "landmarks fr = []"
  proof -
    from that have "trackedKeys fr = {}" by (simp add: trackedKeys_def)
    with keys show ?thesis by (simp add: em)
  qed
  from a b d e show ?thesis by blast
qed

lemma demo_keys: "emitterKey 0 0 = ''0-0''" "emitterKey 0 (Suc 0) = ''0-1''"
  "emitterKey 0 (Suc (Suc 0)) = ''0-2''" "emitterKey 0 (Suc (Suc (Suc 0))) = ''0-3''"
  "emitterKey 0 (Suc (Suc (Suc (Suc 0)))) = ''0-4''"
  by (simp_all add: emitterKey_def natToString.simps)

lemma demoHand_nth:
  "t < 21 \<Longrightarrow> demoHand x y ! t = \<lparr> pt_x = x, pt_y = y \<rparr>" "length (demoHand x y) = 21"
  by (simp_all add: demoHand_def)

lemma updateEmitter_new:
  "emitters st key = None \<Longrightarrow>
   updateEmitter g key tx ty c col st =
     st\<lparr> emitters := (emitters st)(key \<mapsto>
           \<lparr> e_x = tx, e_y = ty, e_vx = 0, e_vy = 0, isBurstArmed = False \<rparr>) \<rparr>"
  by (simp add: updateEmitter_def)

lemma oneHand_emitters:
  "updateEmitters demoRng (demoFrame [demoHand (1/2) (1/2)]) staleState =
     Inr ({''0-4'', ''0-3'', ''0-2'', ''0-1'', ''0-0''},
          staleState\<lparr> emitters := [''1-0'' \<mapsto> demoEmitter,
             ''0-0'' \<mapsto> \<lparr> e_x = 640, e_y = 360, e_vx = 0, e_vy = 0, isBurstArmed = False \<rparr>,
             ''0-1'' \<mapsto> \<lparr> e_x = 640, e_y = 360, e_vx = 0, e_vy = 0, isBurstArmed = False \<rparr>,
             ''0-2'' \<mapsto> \<lparr> e_x = 640, e_y = 360, e_vx = 0, e_vy = 0, isBurstArmed = False \<rparr>,
             ''0-3'' \<mapsto> \<lparr> e_x = 640, e_y = 360, e_vx = 0, e_vy = 0, isBurstArmed = False \<rparr>,
             ''0-4'' \<mapsto> \<lparr> e_x = 640, e_y = 360, e_vx = 0, e_vy = 0, isBurstArmed = False \<rparr>] \<rparr>)"
  by (simp add: updateEmitters_def demoFrame_def FINGER_INDICES_def demoHand_nth demo_keys Let_def
     updateEmitter_new staleState_def initialState_def)

text \<open>
  The emitter is not removed before the frame's emission phase: with the second hand's
  thumb emitter \<open>1-0\<close> in the registry and only one hand tracked, the five
  \<^verbatim>\<open>updateEmitter\<close> calls of the frame return with \<open>1-0\<close> still registered, and the
  cleanup loop that follows removes it. And with no tracked point in a frame whose video
  is not playing, the tracking step is skipped and the registry keeps its emitter.
\<close>

theorem stale_emitter_removed_counterexample:
  "\<not> isl (updateEmitters demoRng (demoFrame [demoHand (1/2) (1/2)]) staleState)
   \<and> ''1-0'' \<notin> fst (projr (updateEmitters demoRng (demoFrame [demoHand (1/2) (1/2)]) staleState))
   \<and> emitters (snd (projr (updateEmitters demoRng (demoFrame [demoHand (1/2) (1/2)]) staleState)))
        ''1-0'' = Some demoEmitter
   \<and> animate demoRng ((demoFrame [])\<lparr> videoPlaying := False \<rparr>) staleState
        = Inr (staleState, [DrawVideo])"
  unfolding oneHand_emitters
  by (simp add: animate_def demoFrame_def lightingEffects_def staleState_def initialState_def
      updateParticles_def drawParticles_def Let_def)

theorem stale_emitter_removed_witness:
  "emitters staleState ''1-0'' = Some demoEmitter
   \<and> ''1-0'' \<notin> trackedKeys (demoFrame [demoHand (1/2) (1/2)])
   \<and> \<not> isl (animate demoRng (demoFrame [demoHand (1/2) (1/2)]) staleState)
   \<and> emitters (fst (projr (animate demoRng (demoFrame [demoHand (1/2) (1/2)]) staleState))) ''1-0''
       = None
   \<and> animate demoRng (demoFrame [demoHand (1/2) (1/2)]) (forget ''1-0'' staleState)
       = animate demoRng (demoFrame [demoHand (1/2) (1/2)]) staleState"
proof -
  let ?fr = "demoFrame [demoHand (1/2) (1/2)]"
  have f: "refsReady ?fr" "ctxOk ?fr" "videoPlaying ?fr"
    by (simp_all add: demoFrame_def)
  have "trackedKeys ?fr = {''0-4'', ''0-3'', ''0-2'', ''0-1'', ''0-0''}"
    by (rule updateEmitters_keys[OF oneHand_emitters, symmetric])
  then have k: "''1-0'' \<notin> trackedKeys ?fr"
    by simp
  have r: "\<not> isl (animate demoRng ?fr staleState)"
    unfolding animate_tracking[OF f] processTracking_def oneHand_emitters by simp
  then have a: "animate demoRng ?fr staleState =
      Inr (fst (projr (animate demoRng ?fr staleState)), snd (projr (animate demoRng ?fr staleState)))"
    by simp
  have e: "emitters staleState ''1-0'' = Some demoEmitter"
    by (simp add: staleState_def)
  from stale_emitter_removed[OF f a k]
  show ?thesis using k r e a[symmetric] by simp
qed

subsection \<open>The keys of a frame are distinct\<close>

lemma below_ten:
  "(k::nat) < 10 \<Longrightarrow> k = 0 \<or> k = 1 \<or> k = 2 \<or> k = 3 \<or> k = 4 \<or> k = 5 \<or> k = 6 \<or> k = 7 \<or> k = 8 \<or> k = 9"
  by arith

lemma digit_roundtrip:
  assumes "k < 10"
  shows "digitValue (''0123456789'' ! k) = k \<and> CHR ''-'' \<noteq> ''0123456789'' ! k"
  using below_ten[OF assms] by (auto simp add: digitValue_def)

lemma stringToNat_snoc: "stringToNat (s @ [c]) = 10 * stringToNat s + digitValue c"
  by (simp add: stringToNat_def)

lemma natToString_roundtrip: "stringToNat (natToString n) = n"
proof (induction n rule: natToString.induct)
  case (1 n)
  show ?case
  proof (cases "n < 10")
    case True
    then show ?thesis
      by (subst natToString.simps) (simp add: stringToNat_def digit_roundtrip)
  next
    case False
    have m: "n mod 10 < 10" by simp
    from False 1 have "stringToNat (natToString (n div 10)) = n div 10" by simp
    with False show ?thesis
      by (subst natToString.simps) (simp add: stringToNat_snoc digit_roundtrip[OF m])
  qed
qed

lemma natToString_no_dash: "CHR ''-'' \<notin> set (natToString n)"
proof (induction n rule: natToString.induct)
  case (1 n)
  show ?case
  proof (cases "n < 10")
    case True
    then show ?thesis
      by (subst natToString.simps) (simp add: digit_roundtrip)
  next
    case False
    have m: "n mod 10 < 10" by simp
    from False 1 have "CHR ''-'' \<notin> set (natToString (n div 10))" by simp
    with False show ?thesis
      by (subst natToString.simps) (simp add: digit_roundtrip[OF m])
  qed
qed

lemma split_at_dash:
  assumes "a @ CHR ''-'' # b = a' @ CHR ''-'' # b'"
    and "CHR ''-'' \<notin> set a" "CHR ''-'' \<notin> set a'"
  shows "a = a' \<and> b = b'"
proof -
  have "\<forall>c\<in>set a. c \<noteq> CHR ''-''" "\<forall>c\<in>set a'. c \<noteq> CHR ''-''"
    using assms(2,3) by auto
  then have "takeWhile (\<lambda>c. c \<noteq> CHR ''-'') (a @ CHR ''-'' # b) = a"
      "takeWhile (\<lambda>c. c \<noteq> CHR ''-'') (a' @ CHR ''-'' # b') = a'"
    by simp_all
  then have "a = a'" using assms(1) by simp
  with assms(1) show ?thesis by simp
qed

lemma emitterKey_inj:
  assumes "emitterKey h f = emitterKey h' f'"
  shows "h = h' \<and> f = f'"
proof -
  from assms have "natToString h @ CHR ''-'' # natToString f
      = natToString h' @ CHR ''-'' # natToString f'"
    by (simp add: emitterKey_def)
  from split_at_dash[OF this natToString_no_dash natToString_no_dash]
  have "natToString h = natToString h'" "natToString f = natToString f'" by simp_all
  then have "stringToNat (natToString h) = stringToNat (natToString h')"
      "stringToNat (natToString f) = stringToNat (natToString f')" by simp_all
  then show ?thesis by (simp add: natToString_roundtrip)
qed

lemma trackedKeys_image:
  "trackedKeys fr = (\<lambda>(h, f). emitterKey h f) `
      ({0..<length (landmarks fr)} \<times> {0..<length FINGER_INDICES})"
  by (auto simp add: trackedKeys_def)

lemma trackedKeys_card: "card (trackedKeys fr) = length (landmarks fr) * 5"
proof -
  have "inj_on (\<lambda>(h, f). emitterKey h f)
      ({0..<length (landmarks fr)} \<times> {0..<length FINGER_INDICES})"
    by (auto simp add: inj_on_def dest: emitterKey_inj)
  then have "card (trackedKeys fr) =
      card ({0..<length (landmarks fr)} \<times> {0..<length FINGER_INDICES})"
    unfolding trackedKeys_image by (rule card_image)
  then show ?thesis by (simp add: FINGER_INDICES_def)
qed

subsection \<open>The registry after the tracking step\<close>

lemma updateEmitter_dom:
  "dom (emitters (updateEmitter g key tx ty c col st)) = insert key (dom (emitters st))"
proof (cases "emitters st key")
  case None
  then show ?thesis by (simp add: updateEmitter_new)
next
  case (Some e)
  show ?thesis
  proof (cases "isBurstArmed (movedEmitter e tx ty) \<and> smoothedSpeed e tx ty < BURST_TRIGGER_SPEED")
    case True
    from updateEmitter_fire(2)[OF Some True, of g c col] show ?thesis by simp
  next
    case False
    from updateEmitter_idle(2)[OF Some False, of g c col] show ?thesis by simp
  qed
qed

lemma fingerLoop_dom:
  "fingerLoop g hand hi w h m tips fi (keys, st) = Inr (keys', st') \<Longrightarrow>
   dom (emitters st') = dom (emitters st) \<union> emitterKey hi ` {fi..<fi + length tips}"
proof (induction tips arbitrary: fi keys st)
  case Nil
  then show ?case by simp
next
  case (Cons t tips)
  from Cons.prems have lt: "t < length hand" by (simp split: if_splits)
  with Cons.prems have
    "fingerLoop g hand hi w h m tips (Suc fi)
       (insert (emitterKey hi fi) keys,
        updateEmitter g (emitterKey hi fi) ((1 - pt_x (hand ! t)) * w) (pt_y (hand ! t) * h) m
          (fingerColor fi) st) = Inr (keys', st')"
    by (simp add: Let_def)
  from Cons.IH[OF this] have "dom (emitters st') =
      insert (emitterKey hi fi) (dom (emitters st))
      \<union> emitterKey hi ` {Suc fi..<Suc fi + length tips}"
    by (simp add: updateEmitter_dom)
  moreover have "{fi..<fi + length (t # tips)} = insert fi {Suc fi..<Suc fi + length tips}"
    by auto
  ultimately show ?case by auto
qed

lemma handLoop_dom:
  "handLoop g w h m hands hi (keys, st) = Inr (keys', st') \<Longrightarrow>
   dom (emitters st') = dom (emitters st)
     \<union> (\<Union>i \<in> {hi..<hi + length hands}. emitterKey i ` {0..<length FINGER_INDICES})"
proof (induction hands arbitrary: hi keys st)
  case Nil
  then show ?case by simp
next
  case (Cons hand hands)
  from Cons.prems obtain keys1 st1 where
    f: "fingerLoop g hand hi w h m FINGER_INDICES 0 (keys, st) = Inr (keys1, st1)"
    and r: "handLoop g w h m hands (Suc hi) (keys1, st1) = Inr (keys', st')"
    by (auto split: sum.splits)
  from fingerLoop_dom[OF f] have d1: "dom (emitters st1) =
      dom (emitters st) \<union> emitterKey hi ` {0..<length FINGER_INDICES}"
    by simp
  have "{hi..<hi + length (hand # hands)} = insert hi {Suc hi..<Suc hi + length hands}"
    by auto
  with Cons.IH[OF r] d1 show ?case by auto
qed

lemma updateEmitters_dom:
  assumes "updateEmitters g fr st = Inr (keys, st')"
  shows "dom (emitters st') = dom (emitters st) \<union> trackedKeys fr"
proof (cases "0 < length (landmarks fr)")
  case True
  with assms have "handLoop g (videoWidth fr) (videoHeight fr)
      (particleMultiplier (real (length (landmarks fr) * 5))) (landmarks fr) 0 ({}, st) = Inr (keys, st')"
    by (simp add: updateEmitters_def Let_def)
  from handLoop_dom[OF this] show ?thesis
    by (auto simp add: trackedKeys_def)
next
  case False
  with assms show ?thesis by (auto simp add: updateEmitters_def trackedKeys_def)
qed

lemma processTracking_dom:
  assumes "processTracking g fr st = Inr st'"
  shows "dom (emitters st') = trackedKeys fr"
proof -
  from assms obtain keys s1 where u: "updateEmitters g fr st = Inr (keys, s1)"
    and c: "st' = cleanupEmitters keys s1"
    by (auto simp add: processTracking_def split: sum.splits)
  have "keys = trackedKeys fr" using u by (rule updateEmitters_keys)
  with updateEmitters_dom[OF u] show ?thesis
    by (auto simp add: c cleanupEmitters_def)
qed

lemma fingerLoop_total:
  assumes "\<forall>t\<in>set tips. t < length hand"
  shows "\<exists>r. fingerLoop g hand hi w h m tips fi (keys, st) = Inr r"
  using assms
proof (induction tips arbitrary: fi keys st)
  case Nil
  then show ?case by simp
next
  case (Cons t tips)
  then show ?case by (simp add: Let_def)
qed

lemma handLoop_total:
  assumes "\<forall>hand\<in>set hands. 20 < length hand"
  shows "\<exists>r. handLoop g w h m hands hi acc = Inr r"
  using assms
proof (induction hands arbitrary: hi acc)
  case Nil
  then show ?case by simp
next
  case (Cons hand hands)
  obtain keys st where acc: "acc = (keys, st)" by (cases acc)
  from Cons.prems have "\<forall>t\<in>set FINGER_INDICES. t < length hand"
    by (simp add: FINGER_INDICES_def)
  from fingerLoop_total[OF this, of g hi w h m 0 keys st] obtain r1 where
    "fingerLoop g hand hi w h m FINGER_INDICES 0 acc = Inr r1" unfolding acc by blast
  moreover from Cons.IH[of "Suc hi" r1] Cons.prems
  obtain r where "handLoop g w h m hands (Suc hi) r1 = Inr r" by auto
  ultimately show ?case by simp
qed

lemma animate_total:
  assumes "\<forall>hand\<in>set (landmarks fr). 20 < length hand"
  shows "\<exists>st' drawn. animate g fr st = Inr (st', drawn)"
proof -
  have "\<exists>r. updateEmitters g fr st = Inr r"
    using handLoop_total[OF assms] by (simp add: updateEmitters_def Let_def)
  then obtain keys s1 where "updateEmitters g fr st = Inr (keys, s1)" by auto
  then have "processTracking g fr st = Inr (cleanupEmitters keys s1)"
    by (simp add: processTracking_def)
  then show ?thesis
    by (simp add: animate_def Let_def split_beta)
qed

lemma run_total:
  assumes "\<forall>fr\<in>set frs. \<forall>hand\<in>set (landmarks fr). 20 < length hand"
  shows "\<exists>st'. run g frs st = Inr st'"
  using assms
proof (induction frs arbitrary: st)
  case Nil
  then show ?case by simp
next
  case (Cons fr frs)
  from Cons.prems animate_total[of fr g st] obtain st1 drawn where
    "animate g fr st = Inr (st1, drawn)" by auto
  moreover from Cons.IH[of st1] Cons.prems obtain st' where "run g frs st1 = Inr st'" by auto
  ultimately show ?case by simp
qed

subsection \<open>A frame of newly observed keys\<close>

lemma quiet_refl: "quiet st st"
  by (simp add: quiet_def)

lemma quiet_trans: "quiet a b \<Longrightarrow> quiet b c \<Longrightarrow> quiet a c"
  by (simp add: quiet_def)

lemma updateEmitter_new_quiet:
  "emitters st key = None \<Longrightarrow> quiet st (updateEmitter g key tx ty c col st)"
  by (simp add: updateEmitter_new quiet_def)

lemma updateEmitter_other:
  assumes "k \<noteq> key"
  shows "emitters (updateEmitter g key tx ty c col st) k = emitters st k"
proof (cases "emitters st key")
  case None
  with assms show ?thesis by (simp add: updateEmitter_new)
next
  case (Some e)
  show ?thesis
  proof (cases "isBurstArmed (movedEmitter e tx ty) \<and> smoothedSpeed e tx ty < BURST_TRIGGER_SPEED")
    case True
    from updateEmitter_fire(2)[OF Some True, of g c col] assms show ?thesis by simp
  next
    case False
    from updateEmitter_idle(2)[OF Some False, of g c col] assms show ?thesis by simp
  qed
qed

lemma fingerLoop_other:
  "fingerLoop g hand hi w h m tips fi (keys, st) = Inr (keys', st') \<Longrightarrow>
   \<forall>f. k \<noteq> emitterKey hi f \<Longrightarrow> emitters st' k = emitters st k"
proof (induction tips arbitrary: fi keys st)
  case Nil
  then show ?case by simp
next
  case (Cons t tips)
  from Cons.prems(1) have lt: "t < length hand" by (simp split: if_splits)
  with Cons.prems(1) have
    r: "fingerLoop g hand hi w h m tips (Suc fi)
       (insert (emitterKey hi fi) keys,
        updateEmitter g (emitterKey hi fi) ((1 - pt_x (hand ! t)) * w) (pt_y (hand ! t) * h) m
          (fingerColor fi) st) = Inr (keys', st')"
    by (simp add: Let_def)
  from Cons.IH[OF r Cons.prems(2)] Cons.prems(2) show ?case
    by (simp add: updateEmitter_other)
qed

lemma fingerLoop_all_new:
  "fingerLoop g hand hi w h m tips fi (keys, st) = Inr (keys', st') \<Longrightarrow>
   \<forall>f. fi \<le> f \<and> f < fi + length tips \<longrightarrow> emitters st (emitterKey hi f) = None \<Longrightarrow>
   quiet st st'"
proof (induction tips arbitrary: fi keys st)
  case Nil
  then show ?case by (simp add: quiet_refl)
next
  case (Cons t tips)
  let ?key = "emitterKey hi fi"
  let ?st = "updateEmitter g ?key ((1 - pt_x (hand ! t)) * w) (pt_y (hand ! t) * h) m
          (fingerColor fi) st"
  from Cons.prems(1) have lt: "t < length hand" by (simp split: if_splits)
  with Cons.prems(1) have
    r: "fingerLoop g hand hi w h m tips (Suc fi) (insert ?key keys, ?st) = Inr (keys', st')"
    by (simp add: Let_def)
  from Cons.prems(2) have new: "emitters st ?key = None" by simp
  have "\<forall>f. Suc fi \<le> f \<and> f < Suc fi + length tips \<longrightarrow> emitters ?st (emitterKey hi f) = None"
  proof (intro allI impI)
    fix f assume f: "Suc fi \<le> f \<and> f < Suc fi + length tips"
    then have "emitterKey hi f \<noteq> ?key" using emitterKey_inj[of hi f hi fi] by auto
    then have "emitters ?st (emitterKey hi f) = emitters st (emitterKey hi f)"
      by (rule updateEmitter_other)
    with f Cons.prems(2) show "emitters ?st (emitterKey hi f) = None" by simp
  qed
  from Cons.IH[OF r this] updateEmitter_new_quiet[OF new] show ?case
    by (blast intro: quiet_trans)
qed

lemma handLoop_all_new:
  "handLoop g w h m hands hi (keys, st) = Inr (keys', st') \<Longrightarrow>
   \<forall>i f. hi \<le> i \<and> i < hi + length hands \<and> f < length FINGER_INDICES
      \<longrightarrow> emitters st (emitterKey i f) = None \<Longrightarrow>
   quiet st st'"
proof (induction hands arbitrary: hi keys st)
  case Nil
  then show ?case by (simp add: quiet_refl)
next
  case (Cons hand hands)
  from Cons.prems(1) obtain keys1 st1 where
    f: "fingerLoop g hand hi w h m FINGER_INDICES 0 (keys, st) = Inr (keys1, st1)"
    and r: "handLoop g w h m hands (Suc hi) (keys1, st1) = Inr (keys', st')"
    by (auto split: sum.splits)
  from Cons.prems(2) have "\<forall>f. 0 \<le> f \<and> f < 0 + length FINGER_INDICES
      \<longrightarrow> emitters st (emitterKey hi f) = None" by simp
  from fingerLoop_all_new[OF f this] have q1: "quiet st st1" .
  have "\<forall>i f. Suc hi \<le> i \<and> i < Suc hi + length hands \<and> f < length FINGER_INDICES
      \<longrightarrow> emitters st1 (emitterKey i f) = None"
  proof (intro allI impI)
    fix i f assume i: "Suc hi \<le> i \<and> i < Suc hi + length hands \<and> f < length FINGER_INDICES"
    then have "\<forall>f'. emitterKey i f \<noteq> emitterKey hi f'"
      using emitterKey_inj[of i f hi] by auto
    from fingerLoop_other[OF f this] i Cons.prems(2)
    show "emitters st1 (emitterKey i f) = None" by simp
  qed
  from Cons.IH[OF r this] q1 show ?case by (blast intro: quiet_trans)
qed

lemma updateEmitters_all_new:
  assumes "updateEmitters g fr st = Inr (keys, st')"
    and "trackedKeys fr \<inter> dom (emitters st) = {}"
  shows "quiet st st'"
proof (cases "0 < length (landmarks fr)")
  case True
  with assms(1) have "handLoop g (videoWidth fr) (videoHeight fr)
      (particleMultiplier (real (length (landmarks fr) * 5))) (landmarks fr) 0 ({}, st) = Inr (keys, st')"
    by (simp add: updateEmitters_def Let_def)
  moreover have "\<forall>i f. 0 \<le> i \<and> i < 0 + length (landmarks fr) \<and> f < length FINGER_INDICES
      \<longrightarrow> emitters st (emitterKey i f) = None"
  proof (intro allI impI)
    fix i f assume "0 \<le> i \<and> i < 0 + length (landmarks fr) \<and> f < length FINGER_INDICES"
    then have "i \<in> {0..<length (landmarks fr)}" "f \<in> {0..<length FINGER_INDICES}"
      by simp_all
    then have "emitterKey i f \<in> trackedKeys fr"
      unfolding trackedKeys_def by blast
    with assms(2) show "emitters st (emitterKey i f) = None" by blast
  qed
  ultimately show ?thesis by (rule handLoop_all_new)
next
  case False
  with assms(1) show ?thesis by (auto simp add: updateEmitters_def quiet_refl)
qed

lemma oneHand_trackedKeys:
  "trackedKeys (demoFrame [demoHand (1/2) (1/2)]) = {''0-4'', ''0-3'', ''0-2'', ''0-1'', ''0-0''}"
  by (rule updateEmitters_keys[OF oneHand_emitters, symmetric])

subsection \<open>Creation of an emitter\<close>

text \<open>
  C8. A call of \<^verbatim>\<open>updateEmitter\<close> for a key that the registry does not hold stores a
  new emitter at the raw target, with zero velocity and the burst flag off, and returns:
  no particle is pushed, the flash is not touched and no random number is drawn,
  whatever the target. Within a frame every key is updated once (the keys of a frame
  are distinct), so when none of the frame's tracked keys is in the registry, the whole
  emission phase of the frame pushes no particle.
\<close>

theorem updateEmitter_create:
  assumes "emitters st key = None"
    and "st' = updateEmitter g key targetX targetY particleChance color st"
  shows "emitters st' key =
           Some \<lparr> e_x = targetX, e_y = targetY, e_vx = 0, e_vy = 0, isBurstArmed = False \<rparr>
       \<and> particles st' = particles st \<and> spawned st st' = []
       \<and> lightingIntensity st' = lightingIntensity st \<and> seed st' = seed st
       \<and> (trackedKeys fr \<inter> dom (emitters s0) = {} \<and> updateEmitters g fr s0 = Inr (keys, s1)
            \<longrightarrow> particles s1 = particles s0 \<and> seed s1 = seed s0
              \<and> lightingIntensity s1 = lightingIntensity s0)"
proof -
  have a: "emitters st' key =
           Some \<lparr> e_x = targetX, e_y = targetY, e_vx = 0, e_vy = 0, isBurstArmed = False \<rparr>
       \<and> particles st' = particles st \<and> spawned st st' = []
       \<and> lightingIntensity st' = lightingIntensity st \<and> seed st' = seed st"
    using assms by (simp add: updateEmitter_def spawned_def)
  have b: "particles s1 = particles s0 \<and> seed s1 = seed s0
              \<and> lightingIntensity s1 = lightingIntensity s0"
    if "trackedKeys fr \<inter> dom (emitters s0) = {}" "updateEmitters g fr s0 = Inr (keys, s1)"
    using updateEmitters_all_new[OF that(2) that(1)] by (simp add: quiet_def)
  from a b show ?thesis by blast
qed

theorem updateEmitter_create_witness:
  "emitters initialState demoKey = None
   \<and> emitters (updateEmitter demoRng demoKey 640 360 1 TRAIL_COLOR initialState) demoKey =
       Some \<lparr> e_x = 640, e_y = 360, e_vx = 0, e_vy = 0, isBurstArmed = False \<rparr>
   \<and> particles (updateEmitter demoRng demoKey 640 360 1 TRAIL_COLOR initialState) = []
   \<and> trackedKeys (demoFrame [demoHand (1/2) (1/2)]) \<inter> dom (emitters staleState) = {}
   \<and> \<not> isl (updateEmitters demoRng (demoFrame [demoHand (1/2) (1/2)]) staleState)
   \<and> particles (snd (projr (updateEmitters demoRng (demoFrame [demoHand (1/2) (1/2)]) staleState)))
       = []"
proof -
  have h: "emitters initialState demoKey = None"
    by (simp add: initialState_def)
  have t: "trackedKeys (demoFrame [demoHand (1/2) (1/2)]) \<inter> dom (emitters staleState) = {}"
    unfolding oneHand_trackedKeys by (simp add: staleState_def)
  have r: "\<not> isl (updateEmitters demoRng (demoFrame [demoHand (1/2) (1/2)]) staleState)"
    unfolding oneHand_emitters by simp
  then have u: "updateEmitters demoRng (demoFrame [demoHand (1/2) (1/2)]) staleState =
      Inr (fst (projr (updateEmitters demoRng (demoFrame [demoHand (1/2) (1/2)]) staleState)),
           snd (projr (updateEmitters demoRng (demoFrame [demoHand (1/2) (1/2)]) staleState)))"
    by simp
  have p0: "particles staleState = []" by (simp add: staleState_def initialState_def)
  from updateEmitter_create[OF h refl, where g = demoRng and targetX = 640 and targetY = 360
      and particleChance = 1 and color = TRAIL_COLOR
      and fr = "demoFrame [demoHand (1/2) (1/2)]" and ?s0.0 = staleState
      and keys = "fst (projr (updateEmitters demoRng (demoFrame [demoHand (1/2) (1/2)]) staleState))"
      and ?s1.0 = "snd (projr (updateEmitters demoRng (demoFrame [demoHand (1/2) (1/2)]) staleState))"]
  show ?thesis using h t r u[symmetric] p0 by (simp add: initialState_def)
qed

subsection \<open>Density scaling\<close>

lemma fingerLoop_calls:
  "fingerLoop g hand hi w h m tips fi (keys, st) = Inr (keys', st') \<Longrightarrow>
   st' = foldl (\<lambda>s (key, tx, ty, col). updateEmitter g key tx ty m col s) st
           (fingerCalls hand hi w h tips fi)"
proof (induction tips arbitrary: fi keys st)
  case Nil
  then show ?case by simp
next
  case (Cons t tips)
  from Cons.prems have lt: "t < length hand" by (simp split: if_splits)
  with Cons.prems have "fingerLoop g hand hi w h m tips (Suc fi)
      (insert (emitterKey hi fi) keys,
       updateEmitter g (emitterKey hi fi) ((1 - pt_x (hand ! t)) * w) (pt_y (hand ! t) * h) m
         (fingerColor fi) st) = Inr (keys', st')"
    by (simp add: Let_def)
  from Cons.IH[OF this] show ?case by simp
qed

lemma handLoop_calls:
  "handLoop g w h m hands hi (keys, st) = Inr (keys', st') \<Longrightarrow>
   st' = foldl (\<lambda>s (key, tx, ty, col). updateEmitter g key tx ty m col s) st
           (handCalls w h hands hi)"
proof (induction hands arbitrary: hi keys st)
  case Nil
  then show ?case by simp
next
  case (Cons hand hands)
  from Cons.prems obtain k1 s1 where
    f: "fingerLoop g hand hi w h m FINGER_INDICES 0 (keys, st) = Inr (k1, s1)"
    and r: "handLoop g w h m hands (Suc hi) (k1, s1) = Inr (keys', st')"
    by (auto split: sum.splits)
  from fingerLoop_calls[OF f] Cons.IH[OF r] show ?case by simp
qed

lemma updateEmitters_calls:
  assumes "updateEmitters g fr st = Inr (keys, st1)"
  shows "st1 = foldl (\<lambda>s (key, tx, ty, col).
            updateEmitter g key tx ty (particleMultiplier (real (card (trackedKeys fr)))) col s)
          st (frameCalls fr)"
proof (cases "0 < length (landmarks fr)")
  case True
  with assms have "handLoop g (videoWidth fr) (videoHeight fr)
      (particleMultiplier (real (card (trackedKeys fr)))) (landmarks fr) 0 ({}, st) = Inr (keys, st1)"
    by (simp add: updateEmitters_def Let_def trackedKeys_card)
  from handLoop_calls[OF this] show ?thesis by (simp add: frameCalls_def)
next
  case False
  with assms show ?thesis by (simp add: updateEmitters_def frameCalls_def)
qed

lemma maybeTrail_exact:
  "particles (maybeTrail g x y v c col st) =
     particles st @ (if g (seed st) < c then [createTrailParticle g (seed st + 1) x y v col] else [])"
  "seed (maybeTrail g x y v c col st) = seed st + (if g (seed st) < c then 5 else 1)"
  by (simp_all add: maybeTrail_def)

lemma emitTrails_exact:
  "particles (emitTrails g sp x y v c col st) =
     particles st
     @ (if DRAW_SPEED_THRESHOLD < sp \<and> g (seed st) < c
        then [createTrailParticle g (seed st + 1) x y v col] else [])
     @ (if DRAW_SPEED_THRESHOLD * 2 < sp \<and> g (seed st + (if g (seed st) < c then 5 else 1)) < c
        then [createTrailParticle g (seed st + (if g (seed st) < c then 5 else 1) + 1) x y v col]
        else [])"
  by (simp add: emitTrails_def Let_def maybeTrail_exact DRAW_SPEED_THRESHOLD_def)

lemma updateEmitter_exact:
  assumes "emitters st key = Some e"
  shows "spawned st (updateEmitter g key tx ty c col st) =
    (let sp = smoothedSpeed e tx ty;
         em = movedEmitter e tx ty;
         fire = (isBurstArmed em \<and> sp < BURST_TRIGGER_SPEED);
         s0 = seed st + (if fire then 5 * BURST_PARTICLE_COUNT else 0);
         s1 = s0 + (if g s0 < c then 5 else 1);
         v = \<lparr> pt_x = e_vx em, pt_y = e_vy em \<rparr>
     in (if fire then createBurstParticles g (seed st) (e_x em) (e_y em) else [])
        @ (if DRAW_SPEED_THRESHOLD < sp \<and> g s0 < c
           then [createTrailParticle g (s0 + 1) (e_x em) (e_y em) v col] else [])
        @ (if DRAW_SPEED_THRESHOLD * 2 < sp \<and> g s1 < c
           then [createTrailParticle g (s1 + 1) (e_x em) (e_y em) v col] else []))"
proof (cases "isBurstArmed (movedEmitter e tx ty) \<and> smoothedSpeed e tx ty < BURST_TRIGGER_SPEED")
  case True
  show ?thesis
    unfolding updateEmitter_unfold[OF assms] Let_def
    by (rule spawned_append) (simp add: emitTrails_exact triggerBurst_fire[OF True] True)
next
  case False
  show ?thesis
    unfolding updateEmitter_unfold[OF assms] Let_def
    by (rule spawned_append) (simp add: emitTrails_exact triggerBurst_idle[OF False] False)
qed

lemma chance_interval:
  "{r. 0 \<le> r \<and> r < 1 \<and> r < particleMultiplier E} = {0..<particleMultiplier E}"
proof -
  have "particleMultiplier E \<le> 1" by (simp add: particleMultiplier_def max_def)
  then show ?thesis by auto
qed

text \<open>
  C5. Every \<^verbatim>\<open>updateEmitter\<close> call of a frame receives the multiplier
  \<open>1 / max(1, E * 0.5)\<close>, where \<open>E\<close>, five times the number of hands, is the number of
  the frame's tracked keys and the number of emitters the registry holds when the
  tracking step is over: the state after the emission phase is the state after the
  frame's calls, made in order with that multiplier. The multiplier decides the
  emission. A call on an existing emitter pushes the burst batch when it fires; then a
  trail particle exactly when the speed exceeds the draw threshold and the random
  number drawn for it is below the multiplier; then a second one exactly when the speed
  exceeds twice the threshold and the next random number is below the multiplier. The
  random numbers of \<open>[0, 1)\<close> that pass the test are the interval from 0 to the
  multiplier, and at \<open>E = 1\<close> every one passes. As a function of \<open>E\<close> the multiplier
  is 1 at \<open>E = 1\<close> and at \<open>E = 0\<close>, 0.2 at \<open>E = 10\<close>, and always positive and at most
  1.
\<close>

theorem particleMultiplier_density:
  "(updateEmitters g fr st = Inr (keys, st1) \<longrightarrow>
      st1 = foldl (\<lambda>s (key, tx, ty, col).
              updateEmitter g key tx ty (particleMultiplier (real (card (trackedKeys fr)))) col s)
            st (frameCalls fr))
   \<and> (emitters st key = Some e \<longrightarrow>
        spawned st (updateEmitter g key tx ty c col st) =
          (let sp = smoothedSpeed e tx ty;
               em = movedEmitter e tx ty;
               fire = (isBurstArmed em \<and> sp < BURST_TRIGGER_SPEED);
               s0 = seed st + (if fire then 5 * BURST_PARTICLE_COUNT else 0);
               s1 = s0 + (if g s0 < c then 5 else 1);
               v = \<lparr> pt_x = e_vx em, pt_y = e_vy em \<rparr>
           in (if fire then createBurstParticles g (seed st) (e_x em) (e_y em) else [])
              @ (if DRAW_SPEED_THRESHOLD < sp \<and> g s0 < c
                 then [createTrailParticle g (s0 + 1) (e_x em) (e_y em) v col] else [])
              @ (if DRAW_SPEED_THRESHOLD * 2 < sp \<and> g s1 < c
                 then [createTrailParticle g (s1 + 1) (e_x em) (e_y em) v col] else [])))
   \<and> {r. 0 \<le> r \<and> r < 1 \<and> r < particleMultiplier E} = {0..<particleMultiplier E}
   \<and> (rngOk g \<longrightarrow> g n < particleMultiplier 1)
   \<and> card (trackedKeys fr) = length (landmarks fr) * 5
   \<and> (processTracking g fr st = Inr st' \<longrightarrow> card (dom (emitters st')) = card (trackedKeys fr))
   \<and> particleMultiplier E = 1 / max 1 (E * 0.5)
   \<and> particleMultiplier 1 = 1 \<and> particleMultiplier 10 = 0.2 \<and> particleMultiplier 0 = 1
   \<and> 0 < particleMultiplier E \<and> particleMultiplier E \<le> 1"
proof -
  have b: "card (dom (emitters st')) = card (trackedKeys fr)"
    if "processTracking g fr st = Inr st'"
    using processTracking_dom[OF that] by simp
  have c: "particleMultiplier E = 1 / max 1 (E * 0.5)
   \<and> particleMultiplier 1 = 1 \<and> particleMultiplier 10 = 0.2 \<and> particleMultiplier 0 = 1
   \<and> 0 < particleMultiplier E \<and> particleMultiplier E \<le> 1"
    by (simp add: particleMultiplier_def max_def)
  have d: "g n < particleMultiplier 1" if "rngOk g"
    using that by (simp add: particleMultiplier_def rngOk_def)
  from updateEmitters_calls[of g fr st keys st1] updateEmitter_exact[of st key e g tx ty c col]
    chance_interval[of E] b c d trackedKeys_card[of fr]
  show ?thesis by blast
qed

text \<open>
  A frame with one hand whose fingertips are at the target \<open>(16, 0)\<close>, on a registry
  that holds the emitter of the key \<open>0-1\<close> at the origin: five tracked keys, the
  multiplier \<open>2/5\<close>, the speed 4. With the random number 0 the call pushes one trail
  particle, with the random number \<open>1/2\<close> none.
\<close>

lemma demoFrame_calls:
  "frameCalls (demoFrame [demoHand (79/80) 0]) =
     [(''0-0'', 16, 0, fingerColor 0), (''0-1'', 16, 0, fingerColor (Suc 0)),
      (''0-2'', 16, 0, fingerColor (Suc (Suc 0))), (''0-3'', 16, 0, fingerColor (Suc (Suc (Suc 0)))),
      (''0-4'', 16, 0, fingerColor (Suc (Suc (Suc (Suc 0)))))]"
  by (simp add: frameCalls_def demoFrame_def FINGER_INDICES_def demoHand_nth demo_keys)

lemma demoEmitter_speed: "smoothedSpeed demoEmitter 16 0 = 4"
  by (simp add: smoothedSpeed_horizontal demoEmitter_def INERTIA_FACTOR_def)

lemma demoEmitter_moved:
  "movedEmitter demoEmitter 16 0 = \<lparr> e_x = 4, e_y = 0, e_vx = 4, e_vy = 0, isBurstArmed = False \<rparr>"
  by (simp add: movedEmitter_def demoEmitter_speed BURST_ARM_SPEED_def)
     (simp add: demoEmitter_def INERTIA_FACTOR_def)

lemma demoFrame_particles:
  assumes "g 0 < c"
  shows "particles (foldl (\<lambda>s (key, tx, ty, col). updateEmitter g key tx ty c col s)
      (demoState demoEmitter) (frameCalls (demoFrame [demoHand (79/80) 0])))
    = [createTrailParticle g 1 4 0 \<lparr> pt_x = 4, pt_y = 0 \<rparr> (fingerColor (Suc 0))]"
proof -
  define s1 where "s1 = updateEmitter g ''0-0'' 16 0 c (fingerColor 0) (demoState demoEmitter)"
  define s2 where "s2 = updateEmitter g ''0-1'' 16 0 c (fingerColor (Suc 0)) s1"
  define s3 where "s3 = updateEmitter g ''0-2'' 16 0 c (fingerColor (Suc (Suc 0))) s2"
  define s4 where "s4 = updateEmitter g ''0-3'' 16 0 c (fingerColor (Suc (Suc (Suc 0)))) s3"
  define s5 where "s5 = updateEmitter g ''0-4'' 16 0 c (fingerColor (Suc (Suc (Suc (Suc 0))))) s4"
  have s1: "s1 = (demoState demoEmitter)\<lparr> emitters := (emitters (demoState demoEmitter))(''0-0'' \<mapsto>
           \<lparr> e_x = 16, e_y = 0, e_vx = 0, e_vy = 0, isBurstArmed = False \<rparr>) \<rparr>"
    unfolding s1_def by (rule updateEmitter_new) (simp add: demoState_def demoKey_def)
  have e1: "emitters s1 ''0-1'' = Some demoEmitter" "seed s1 = 0" "particles s1 = []"
    by (simp_all add: s1 demoState_def demoKey_def initialState_def)
  have x2: "spawned s1 s2 = [createTrailParticle g 1 4 0 \<lparr> pt_x = 4, pt_y = 0 \<rparr> (fingerColor (Suc 0))]"
    unfolding s2_def updateEmitter_exact[OF e1(1)]
    using assms
    by (simp add: Let_def demoEmitter_speed demoEmitter_moved e1 DRAW_SPEED_THRESHOLD_def)
  have p2: "particles s2 = [createTrailParticle g 1 4 0 \<lparr> pt_x = 4, pt_y = 0 \<rparr> (fingerColor (Suc 0))]"
    using updateEmitter_spawned[OF e1(1), of g 16 0 c "fingerColor (Suc 0)"] x2
    by (simp add: s2_def e1)
  have n2: "emitters s2 k = None" if "k \<noteq> ''0-0''" "k \<noteq> ''0-1''" for k
    using that unfolding s2_def
    by (simp add: updateEmitter_other s1 demoState_def demoKey_def initialState_def)
  have q3: "quiet s2 s3" unfolding s3_def
    by (rule updateEmitter_new_quiet) (simp add: n2)
  have n3: "emitters s3 ''0-3'' = None" "emitters s3 ''0-4'' = None"
    unfolding s3_def by (simp_all add: updateEmitter_other n2)
  have q4: "quiet s3 s4" unfolding s4_def
    by (rule updateEmitter_new_quiet) (simp add: n3)
  have n4: "emitters s4 ''0-4'' = None"
    unfolding s4_def by (simp add: updateEmitter_other n3)
  have q5: "quiet s4 s5" unfolding s5_def
    by (rule updateEmitter_new_quiet) (simp add: n4)
  have "particles s5 = particles s2"
    using q3 q4 q5 by (simp add: quiet_def)
  then show ?thesis
    by (simp add: demoFrame_calls s5_def s4_def s3_def s2_def s1_def p2[unfolded s2_def s1_def])
qed

lemma demoFrame_runs:
  "\<not> isl (updateEmitters g (demoFrame [demoHand (79/80) 0]) st)"
proof -
  have "\<forall>hand\<in>set (landmarks (demoFrame [demoHand (79/80) 0])). 20 < length hand"
    by (simp add: demoFrame_def demoHand_nth)
  from handLoop_total[OF this, of g "videoWidth (demoFrame [demoHand (79/80) 0])"
      "videoHeight (demoFrame [demoHand (79/80) 0])"
      "particleMultiplier (real (length (landmarks (demoFrame [demoHand (79/80) 0])) * 5))"
      0 "({}, st)"]
  obtain r where "handLoop g (videoWidth (demoFrame [demoHand (79/80) 0]))
      (videoHeight (demoFrame [demoHand (79/80) 0]))
      (particleMultiplier (real (length (landmarks (demoFrame [demoHand (79/80) 0])) * 5)))
      (landmarks (demoFrame [demoHand (79/80) 0])) 0 ({}, st) = Inr r"
    by blast
  then show ?thesis
    unfolding updateEmitters_def Let_def by (simp del: of_nat_mult)
qed

theorem particleMultiplier_density_witness:
  "\<not> isl (updateEmitters demoRng (demoFrame [demoHand (79/80) 0]) (demoState demoEmitter))
   \<and> \<not> isl (processTracking demoRng (demoFrame [demoHand (79/80) 0]) (demoState demoEmitter))
   \<and> card (dom (emitters (projr
        (processTracking demoRng (demoFrame [demoHand (79/80) 0]) (demoState demoEmitter))))) = 5
   \<and> rngOk demoRng \<and> demoRng 0 < particleMultiplier 1
   \<and> emitters (demoState demoEmitter) demoKey = Some demoEmitter
   \<and> particleMultiplier (real (card (trackedKeys (demoFrame [demoHand (79/80) 0])))) = 2/5
   \<and> smoothedSpeed demoEmitter 16 0 = 4
   \<and> spawned (demoState demoEmitter)
        (updateEmitter demoRng demoKey 16 0 (2/5) TRAIL_COLOR (demoState demoEmitter))
       = [createTrailParticle demoRng 1 4 0 \<lparr> pt_x = 4, pt_y = 0 \<rparr> TRAIL_COLOR]
   \<and> spawned (demoState demoEmitter)
        (updateEmitter halfRng demoKey 16 0 (2/5) TRAIL_COLOR (demoState demoEmitter)) = []
   \<and> particles (snd (projr
        (updateEmitters demoRng (demoFrame [demoHand (79/80) 0]) (demoState demoEmitter))))
       = [createTrailParticle demoRng 1 4 0 \<lparr> pt_x = 4, pt_y = 0 \<rparr> (fingerColor 1)]"
proof -
  let ?fr = "demoFrame [demoHand (79/80) 0]" and ?st = "demoState demoEmitter"
  have r: "\<not> isl (updateEmitters demoRng ?fr ?st)" by (rule demoFrame_runs)
  then have p: "updateEmitters demoRng ?fr ?st =
      Inr (fst (projr (updateEmitters demoRng ?fr ?st)), snd (projr (updateEmitters demoRng ?fr ?st)))"
    by simp
  have h: "emitters ?st demoKey = Some demoEmitter" "seed ?st = 0"
    by (simp_all add: demoState_def initialState_def)
  have m: "particleMultiplier (real (card (trackedKeys ?fr))) = 2/5"
    by (simp add: trackedKeys_card demoFrame_def particleMultiplier_def)
  have g: "demoRng 0 < particleMultiplier (real (card (trackedKeys ?fr)))"
    by (simp add: m demoRng_def)
  note T = particleMultiplier_density[where g = demoRng and fr = ?fr and st = ?st
      and keys = "fst (projr (updateEmitters demoRng ?fr ?st))"
      and ?st1.0 = "snd (projr (updateEmitters demoRng ?fr ?st))"
      and key = demoKey and e = demoEmitter and tx = 16 and ty = 0 and c = "2/5"
      and col = TRAIL_COLOR and E = 5 and n = 0
      and st' = "projr (processTracking demoRng ?fr ?st)"]
  have pt: "\<not> isl (processTracking demoRng ?fr ?st)"
    using r by (cases "updateEmitters demoRng ?fr ?st") (auto simp add: processTracking_def)
  then have pp: "processTracking demoRng ?fr ?st = Inr (projr (processTracking demoRng ?fr ?st))"
    by simp
  have k: "card (trackedKeys ?fr) = 5"
    by (simp add: trackedKeys_card demoFrame_def)
  from T pp k have d: "card (dom (emitters (projr (processTracking demoRng ?fr ?st)))) = 5"
    by metis
  from T demoRng_ok have o: "demoRng 0 < particleMultiplier 1"
    by blast
  from T p have a: "snd (projr (updateEmitters demoRng ?fr ?st)) =
      foldl (\<lambda>s (key, tx, ty, col).
              updateEmitter demoRng key tx ty (particleMultiplier (real (card (trackedKeys ?fr)))) col s)
            ?st (frameCalls ?fr)"
    by blast
  from T h have b: "spawned ?st (updateEmitter demoRng demoKey 16 0 (2/5) TRAIL_COLOR ?st)
       = [createTrailParticle demoRng 1 4 0 \<lparr> pt_x = 4, pt_y = 0 \<rparr> TRAIL_COLOR]"
    by (simp add: Let_def demoEmitter_speed demoEmitter_moved DRAW_SPEED_THRESHOLD_def demoRng_def)
  from particleMultiplier_density[where g = halfRng and st = ?st and key = demoKey
      and e = demoEmitter and tx = 16 and ty = 0 and c = "2/5" and col = TRAIL_COLOR] h
  have b': "spawned ?st (updateEmitter halfRng demoKey 16 0 (2/5) TRAIL_COLOR ?st) = []"
    by (simp add: Let_def demoEmitter_speed demoEmitter_moved DRAW_SPEED_THRESHOLD_def halfRng_def)
  have c: "particles (snd (projr (updateEmitters demoRng ?fr ?st)))
       = [createTrailParticle demoRng 1 4 0 \<lparr> pt_x = 4, pt_y = 0 \<rparr> (fingerColor 1)]"
    unfolding a using demoFrame_particles[where g = demoRng
      and c = "particleMultiplier (real (card (trackedKeys (demoFrame [demoHand (79/80) 0]))))", OF g] by simp
  from r pt d demoRng_ok o h m demoEmitter_speed b b' c show ?thesis by blast
qed

end
